(* ===== verification/Prelude.thy ===== *)
theory Prelude
  imports Main "HOL-Library.Word" "HOL-Library.List_Lexorder" "HOL-Library.Char_ord"
begin

text \<open>
  Shared vocabulary of the development: the types every component of the kernel uses
  (identifiers, instants, results), UTF-8 text operations of Rust's standard library,
  saturating counters, the latest-wins index that the event store builds again and again,
  and the interfaces (\<open>transition_system\<close> and its extensions) under which the state machines
  of the components are studied.

  Conventions. A Rust \<open>String\<close> is a \<open>string\<close> of UTF-8 bytes, so \<open>length\<close> is
  \<open>str::len\<close>. A \<open>Uuid\<close> is a \<open>nat\<close> with the nil identifier 0. A \<open>DateTime<Utc>\<close> is an
  \<open>int\<close>, nanoseconds since the epoch. \<open>Utc::now()\<close> and \<open>Uuid::new_v4()\<close> are arguments of
  the operations that call them. \<open>Result<T, E>\<close> is \<open>'e + 't\<close> with \<open>Inl\<close> the error.
\<close>

section \<open>Collections of facts\<close>

named_theorems res_simps \<open>rewriting of results\<close>
named_theorems inv_intros \<open>preservation of the invariants of the components\<close>

section \<open>Identifiers, instants and results\<close>

type_synonym uuid = nat
type_synonym instant = int
type_synonym 'a res = "string + 'a"

definition is_nil :: "uuid \<Rightarrow> bool" where
  "is_nil u \<longleftrightarrow> u = 0"

definition seconds :: "int \<Rightarrow> int" where
  "seconds n = n * 1000000000"

definition bind_res :: "'e + 'a \<Rightarrow> ('a \<Rightarrow> 'e + 'b) \<Rightarrow> 'e + 'b" where
  "bind_res m f = (case m of Inl e \<Rightarrow> Inl e | Inr x \<Rightarrow> f x)"

lemma bind_res_simps [simp, res_simps]:
  "bind_res (Inl e) f = Inl e"
  "bind_res (Inr x) f = f x"
  by (simp_all add: bind_res_def)

lemma bind_res_Inr_iff [res_simps]:
  "bind_res m f = Inr y \<longleftrightarrow> (\<exists>x. m = Inr x \<and> f x = Inr y)"
  by (cases m) auto

lemma bind_res_Inl_iff [res_simps]:
  "bind_res m f = Inl e \<longleftrightarrow> m = Inl e \<or> (\<exists>x. m = Inr x \<and> f x = Inl e)"
  by (cases m) auto

lemma if_Inl_Inr_iff [res_simps]:
  "(if b then Inl e else m) = Inr y \<longleftrightarrow> \<not> b \<and> m = Inr y"
  by simp

definition is_ok :: "'e + 'a \<Rightarrow> bool" where
  "is_ok m = (case m of Inl _ \<Rightarrow> False | Inr _ \<Rightarrow> True)"

lemma is_ok_simps [simp]: "is_ok (Inr x)" "\<not> is_ok (Inl e)"
  by (simp_all add: is_ok_def)

lemma is_ok_unit: "is_ok m \<longleftrightarrow> m = Inr ()"
  by (cases m) auto

text \<open>\<open>Option::is_some_and\<close>, \<open>Option::is_none_or\<close> and \<open>Option::ok_or\<close>.\<close>

definition is_some_and :: "'a option \<Rightarrow> ('a \<Rightarrow> bool) \<Rightarrow> bool" where
  "is_some_and x p = (case x of None \<Rightarrow> False | Some y \<Rightarrow> p y)"

definition is_none_or :: "'a option \<Rightarrow> ('a \<Rightarrow> bool) \<Rightarrow> bool" where
  "is_none_or x p = (case x of None \<Rightarrow> True | Some y \<Rightarrow> p y)"

definition ok_or :: "'a option \<Rightarrow> 'e \<Rightarrow> 'e + 'a" where
  "ok_or x e = (case x of None \<Rightarrow> Inl e | Some y \<Rightarrow> Inr y)"

lemma option_tests [simp]:
  "\<not> is_some_and None p" "is_some_and (Some y) p = p y"
  "is_none_or None p" "is_none_or (Some y) p = p y"
  "ok_or None e = Inl e" "ok_or (Some y) e = Inr y"
  by (simp_all add: is_some_and_def is_none_or_def ok_or_def)

lemma ok_or_Inr_iff [res_simps]: "ok_or x e = Inr y \<longleftrightarrow> x = Some y"
  by (cases x) auto

section \<open>Saturating and bounded machine integers\<close>

type_synonym u8 = "8 word"
type_synonym u32 = "32 word"
type_synonym u64 = "64 word"

definition sat_inc :: "'a::len word \<Rightarrow> 'a word" where
  "sat_inc x = (if x = - 1 then x else x + 1)"

lemma unat_succ_word: "x \<noteq> - 1 \<Longrightarrow> unat (x + 1) = Suc (unat x)" for x :: "'a::len word"
proof -
  assume "x \<noteq> - 1"
  then have "1 + x \<noteq> 0" by (metis add_eq_0_iff minus_minus)
  then show ?thesis by (simp add: unatSuc add.commute)
qed

lemma unat_sat_inc:
  "unat (sat_inc x) = min (Suc (unat x)) (2 ^ LENGTH('a) - 1)" for x :: "'a::len word"
proof (cases "x = - 1")
  case True
  then show ?thesis by (simp add: sat_inc_def unsigned_minus_1_eq_mask mask_eq_exp_minus_1)
next
  case False
  have "unat (x + 1) < 2 ^ LENGTH('a)" by (rule unsigned_less)
  then show ?thesis using False by (simp add: sat_inc_def unat_succ_word)
qed

lemma sat_inc_less: "x \<noteq> - 1 \<Longrightarrow> x < sat_inc x" for x :: "'a::len word"
  by (simp add: sat_inc_def word_less_nat_alt unat_succ_word)

lemma sat_inc_ge: "x \<le> sat_inc x" for x :: "'a::len word"
  by (cases "x = - 1") (simp_all add: sat_inc_def word_le_nat_alt unat_succ_word)

section \<open>Text\<close>

definition code :: "char \<Rightarrow> nat" where
  "code c = of_char c"

lemma code_inj [simp]: "code c = code d \<longleftrightarrow> c = d"
  by (simp add: code_def)

definition is_digit :: "char \<Rightarrow> bool" where
  "is_digit c \<longleftrightarrow> 48 \<le> code c \<and> code c \<le> 57"

definition is_lower :: "char \<Rightarrow> bool" where
  "is_lower c \<longleftrightarrow> 97 \<le> code c \<and> code c \<le> 122"

definition is_upper :: "char \<Rightarrow> bool" where
  "is_upper c \<longleftrightarrow> 65 \<le> code c \<and> code c \<le> 90"

definition is_alnum :: "char \<Rightarrow> bool" where
  "is_alnum c \<longleftrightarrow> is_digit c \<or> is_lower c \<or> is_upper c"

text \<open>\<open>u8::is_ascii_hexdigit\<close>\<close>

definition is_hexdigit :: "char \<Rightarrow> bool" where
  "is_hexdigit c \<longleftrightarrow> is_digit c \<or> (97 \<le> code c \<and> code c \<le> 102) \<or> (65 \<le> code c \<and> code c \<le> 70)"

definition lower_char :: "char \<Rightarrow> char" where
  "lower_char c = (if is_upper c then char_of (code c + 32) else c)"

definition ascii_lowercase :: "string \<Rightarrow> string" where
  "ascii_lowercase s = map lower_char s"

definition eq_ignore_ascii_case :: "string \<Rightarrow> string \<Rightarrow> bool" where
  "eq_ignore_ascii_case a b \<longleftrightarrow> ascii_lowercase a = ascii_lowercase b"

text \<open>\<open>str::chars().count()\<close>: the bytes that are not UTF-8 continuation bytes.\<close>

definition char_count :: "string \<Rightarrow> nat" where
  "char_count s = length (filter (\<lambda>c. \<not> (128 \<le> code c \<and> code c < 192)) s)"

text \<open>
  Length in bytes of the Unicode White_Space character a string starts with, 0 if none:
  U+0009..U+000D, U+0020, U+0085, U+00A0, U+1680, U+2000..U+200A, U+2028, U+2029, U+202F,
  U+205F, U+3000 in their UTF-8 encodings. The second function reads the reversed string.
\<close>

definition ws1 :: "char \<Rightarrow> bool" where
  "ws1 a \<longleftrightarrow> (9 \<le> code a \<and> code a \<le> 13) \<or> code a = 32"

definition ws2 :: "char \<Rightarrow> char \<Rightarrow> bool" where
  "ws2 a b \<longleftrightarrow> code a = 194 \<and> (code b = 133 \<or> code b = 160)"

definition ws3 :: "char \<Rightarrow> char \<Rightarrow> char \<Rightarrow> bool" where
  "ws3 a b c \<longleftrightarrow>
     (code a = 225 \<and> code b = 154 \<and> code c = 128) \<or>
     (code a = 226 \<and> code b = 128 \<and>
        ((128 \<le> code c \<and> code c \<le> 138) \<or> code c = 168 \<or> code c = 169 \<or> code c = 175)) \<or>
     (code a = 226 \<and> code b = 129 \<and> code c = 159) \<or>
     (code a = 227 \<and> code b = 128 \<and> code c = 128)"

fun ws_len :: "string \<Rightarrow> nat" where
  "ws_len [] = 0"
| "ws_len [a] = (if ws1 a then 1 else 0)"
| "ws_len [a, b] = (if ws1 a then 1 else if ws2 a b then 2 else 0)"
| "ws_len (a # b # c # s) =
     (if ws1 a then 1 else if ws2 a b then 2 else if ws3 a b c then 3 else 0)"

fun ws_len_rev :: "string \<Rightarrow> nat" where
  "ws_len_rev [] = 0"
| "ws_len_rev [a] = (if ws1 a then 1 else 0)"
| "ws_len_rev [b, a] = (if ws1 b then 1 else if ws2 a b then 2 else 0)"
| "ws_len_rev (c # b # a # s) =
     (if ws1 c then 1 else if ws2 b c then 2 else if ws3 a b c then 3 else 0)"

lemma ws_len_Nil_zero: "0 < ws_len s \<Longrightarrow> s \<noteq> []" "0 < ws_len_rev s \<Longrightarrow> s \<noteq> []"
  by auto

function trim_start :: "string \<Rightarrow> string" where
  "trim_start s = (if ws_len s = 0 then s else trim_start (drop (ws_len s) s))"
  by pat_completeness auto
termination
  by (relation "measure length") (auto simp: ws_len_Nil_zero)

function trim_front_rev :: "string \<Rightarrow> string" where
  "trim_front_rev s = (if ws_len_rev s = 0 then s else trim_front_rev (drop (ws_len_rev s) s))"
  by pat_completeness auto
termination
  by (relation "measure length") (auto simp: ws_len_Nil_zero)

declare trim_start.simps [simp del] trim_front_rev.simps [simp del]

definition trim_end :: "string \<Rightarrow> string" where
  "trim_end s = rev (trim_front_rev (rev s))"

text \<open>\<open>str::trim\<close>\<close>

definition trim :: "string \<Rightarrow> string" where
  "trim s = trim_end (trim_start s)"

lemma ws_len_append: "0 < ws_len p \<Longrightarrow> ws_len (p @ q) = ws_len p"
  by (cases p rule: ws_len.cases; cases q rule: ws_len.cases) (auto split: if_splits)

lemma trim_start_fixed [simp]: "ws_len (trim_start s) = 0"
  by (induction s rule: trim_start.induct) (subst trim_start.simps, simp)

lemma trim_front_rev_fixed [simp]: "ws_len_rev (trim_front_rev s) = 0"
  by (induction s rule: trim_front_rev.induct) (subst trim_front_rev.simps, simp)

lemma trim_start_id: "ws_len s = 0 \<Longrightarrow> trim_start s = s"
  by (subst trim_start.simps) simp

lemma trim_front_rev_id: "ws_len_rev s = 0 \<Longrightarrow> trim_front_rev s = s"
  by (subst trim_front_rev.simps) simp

lemma trim_front_rev_suffix: "\<exists>p. s = p @ trim_front_rev s"
proof (induction s rule: trim_front_rev.induct)
  case (1 s)
  show ?case
  proof (cases "ws_len_rev s = 0")
    case True
    then show ?thesis by (simp add: trim_front_rev_id)
  next
    case False
    then obtain p where "drop (ws_len_rev s) s = p @ trim_front_rev (drop (ws_len_rev s) s)"
      using "1.IH" by blast
    then have "s = (take (ws_len_rev s) s @ p) @ trim_front_rev (drop (ws_len_rev s) s)"
      by (metis append.assoc append_take_drop_id)
    moreover have "trim_front_rev s = trim_front_rev (drop (ws_len_rev s) s)"
      using False by (subst trim_front_rev.simps) simp
    ultimately show ?thesis by metis
  qed
qed

lemma trim_end_prefix: "\<exists>q. s = trim_end s @ q"
proof -
  obtain p where "rev s = p @ trim_front_rev (rev s)" using trim_front_rev_suffix by blast
  then have "s = rev (trim_front_rev (rev s)) @ rev p" by (metis rev_append rev_rev_ident)
  then show ?thesis unfolding trim_end_def by blast
qed

lemma ws_len_trim [simp]: "ws_len (trim s) = 0"
proof (rule ccontr)
  assume "ws_len (trim s) \<noteq> 0"
  moreover obtain q where "trim_start s = trim s @ q"
    using trim_end_prefix unfolding trim_def by blast
  ultimately have "ws_len (trim_start s) \<noteq> 0" by (simp add: ws_len_append)
  then show False by simp
qed

lemma ws_len_rev_trim [simp]: "ws_len_rev (rev (trim s)) = 0"
  by (simp add: trim_def trim_end_def)

lemma trim_fixed: "ws_len s = 0 \<Longrightarrow> ws_len_rev (rev s) = 0 \<Longrightarrow> trim s = s"
  by (simp add: trim_def trim_end_def trim_start_id trim_front_rev_id)

lemma trim_idem [simp]: "trim (trim s) = trim s"
  by (rule trim_fixed) simp_all

lemma trim_front_rev_length: "length (trim_front_rev s) \<le> length s"
proof -
  obtain q where "s = q @ trim_front_rev s" using trim_front_rev_suffix by blast
  then show ?thesis by (metis le_add2 length_append)
qed

lemma trim_start_length: "length (trim_start s) \<le> length s"
proof (induction s rule: trim_start.induct)
  case (1 s)
  then show ?case by (subst trim_start.simps) (fastforce intro: le_trans)
qed

lemma trim_length: "length (trim s) \<le> length s"
proof -
  have "length (trim s) \<le> length (trim_start s)"
    using trim_front_rev_length[of "rev (trim_start s)"] by (simp add: trim_def trim_end_def)
  then show ?thesis using trim_start_length le_trans by blast
qed

lemma trim_Nil [simp]: "trim [] = []"
  by (rule trim_fixed) simp_all

text \<open>
  Substring search. \<open>any_match m f s\<close> is \<open>s.match_indices(m).any(|(i, _)| f(&s[i + m.len()..]))\<close>:
  the matches do not overlap.
\<close>

definition starts_with :: "string \<Rightarrow> string \<Rightarrow> bool" where
  "starts_with p s \<longleftrightarrow> take (length p) s = p"

fun contains_sub :: "string \<Rightarrow> string \<Rightarrow> bool" where
  "contains_sub p [] = (p = [])"
| "contains_sub p (c # cs) = (starts_with p (c # cs) \<or> contains_sub p cs)"

function any_match :: "string \<Rightarrow> (string \<Rightarrow> bool) \<Rightarrow> string \<Rightarrow> bool" where
  "any_match m f [] = False"
| "any_match m f (c # cs) =
     (if starts_with m (c # cs)
      then f (drop (length m) (c # cs)) \<or> any_match m f (drop (length m - 1) cs)
      else any_match m f cs)"
  by pat_completeness auto
termination
  by (relation "measure (\<lambda>(m, f, s). length s)") auto

section \<open>Text that must be present\<close>

text \<open>
  \<open>required_text\<close> of \<open>agent_run.rs\<close> and \<open>automation.rs\<close> (the two bodies are the same) and
  \<open>normalize_optional_text\<close> of \<open>agent_run.rs\<close>.
\<close>

definition required_text :: "string \<Rightarrow> string \<Rightarrow> string res" where
  "required_text value field =
     (let value = trim value in
      if value = [] then Inl (field @ '' is required'') else Inr value)"

definition normalize_optional_text :: "string option \<Rightarrow> string option" where
  "normalize_optional_text value =
     (case value of None \<Rightarrow> None
      | Some v \<Rightarrow> (let v = trim v in if v \<noteq> [] then Some v else None))"

lemma required_text_Inr_iff [res_simps]:
  "required_text v f = Inr w \<longleftrightarrow> w = trim v \<and> w \<noteq> []"
  by (auto simp: required_text_def Let_def)

section \<open>Length-framed byte strings\<close>

text \<open>
  \<open>to_be_bytes\<close> and the framing of the fingerprints: every part is preceded by its length as
  a big-endian 64-bit integer, so the concatenation determines the parts.
\<close>

fun be_bytes :: "nat \<Rightarrow> nat \<Rightarrow> string" where
  "be_bytes 0 n = []"
| "be_bytes (Suc k) n = be_bytes k (n div 256) @ [char_of (n mod 256)]"

definition frame :: "string \<Rightarrow> string" where
  "frame p = be_bytes 8 (length p) @ p"

lemma length_be_bytes [simp]: "length (be_bytes k n) = k"
  by (induction k arbitrary: n) auto

lemma length_frame [simp]: "length (frame p) = 8 + length p"
  by (simp add: frame_def)

lemma frame_not_Nil [simp]: "frame p \<noteq> []"
  by (metis length_frame list.size(3) zero_neq_numeral add_is_0)

lemma char_of_mod_eq: "(char_of (m mod 256) :: char) = char_of (n mod 256) \<Longrightarrow> m mod 256 = n mod 256"
  for m n :: nat
  by (metis of_char_of mod_mod_trivial)

lemma be_bytes_inj:
  "be_bytes k m = be_bytes k n \<Longrightarrow> m < 256 ^ k \<Longrightarrow> n < 256 ^ k \<Longrightarrow> m = n"
proof (induction k arbitrary: m n)
  case 0
  then show ?case by simp
next
  case (Suc k)
  have "m div 256 = n div 256"
    using Suc.prems by (intro Suc.IH) (auto simp: less_mult_imp_div_less mult.commute)
  moreover have "m mod 256 = n mod 256"
    using Suc.prems(1) by (auto dest: char_of_mod_eq)
  ultimately show ?case by (metis div_mult_mod_eq)
qed

lemma frame_inj:
  assumes "frame p @ r = frame q @ s" and "length p < 2 ^ 64" and "length q < 2 ^ 64"
  shows "p = q \<and> r = s"
proof -
  have "be_bytes 8 (length p) = be_bytes 8 (length q)" and pr: "p @ r = q @ s"
    using assms(1) by (auto simp: frame_def append_eq_append_conv)
  then have "length p = length q" using assms(2,3) by (intro be_bytes_inj [where k = 8]) auto
  then show ?thesis using pr by simp
qed

lemma frames_inj:
  "concat (map frame ps) = concat (map frame qs) \<Longrightarrow>
   (\<forall>p \<in> set ps \<union> set qs. length p < 2 ^ 64) \<Longrightarrow> ps = qs"
proof (induction ps arbitrary: qs)
  case Nil
  then show ?case by (cases qs) auto
next
  case (Cons p ps)
  then obtain q qs' where qs: "qs = q # qs'"
    by (cases qs) auto
  then have "frame p @ concat (map frame ps) = frame q @ concat (map frame qs')"
    using Cons.prems(1) by simp
  then have "p = q \<and> concat (map frame ps) = concat (map frame qs')"
    using Cons.prems(2) qs by (intro frame_inj) auto
  then show ?case using Cons.IH Cons.prems(2) qs by auto
qed

text \<open>
  A SHA-256 digest in hexadecimal (the crates \<open>sha2\<close> and \<open>hex\<close>) is a parameter of the model,
  a function from bytes to text. \<open>digest_hex\<close> states the shape of its result.
\<close>

type_synonym digest = "string \<Rightarrow> string"

definition lower_hex :: "char \<Rightarrow> bool" where
  "lower_hex c \<longleftrightarrow> is_digit c \<or> (97 \<le> code c \<and> code c \<le> 102)"

definition digest_hex :: "digest \<Rightarrow> bool" where
  "digest_hex sha \<longleftrightarrow> (\<forall>x. length (sha x) = 64 \<and> list_all lower_hex (sha x))"

lemma lower_hex_is_hexdigit: "lower_hex c \<Longrightarrow> is_hexdigit c"
  by (auto simp: lower_hex_def is_hexdigit_def)

section \<open>The latest-wins index\<close>

text \<open>
  The event store builds most of its views by one loop: for every event of a kind,
  \<open>map.entry(key).and_modify(|c| if e.at > c.at { *c = e }).or_insert(e)\<close>.
\<close>

definition latest_step :: "('e \<Rightarrow> 'k) \<Rightarrow> ('e \<Rightarrow> instant) \<Rightarrow> 'e \<Rightarrow> ('k \<rightharpoonup> 'e) \<Rightarrow> ('k \<rightharpoonup> 'e)" where
  "latest_step key stamp e m =
     (case m (key e) of
        None \<Rightarrow> m(key e \<mapsto> e)
      | Some c \<Rightarrow> if stamp e > stamp c then m(key e \<mapsto> e) else m)"

definition latest_by :: "('e \<Rightarrow> 'k) \<Rightarrow> ('e \<Rightarrow> instant) \<Rightarrow> 'e list \<Rightarrow> ('k \<rightharpoonup> 'e)" where
  "latest_by key stamp es = fold (latest_step key stamp) es Map.empty"

definition latest_ok :: "('e \<Rightarrow> 'k) \<Rightarrow> ('e \<Rightarrow> instant) \<Rightarrow> 'e set \<Rightarrow> ('k \<rightharpoonup> 'e) \<Rightarrow> bool" where
  "latest_ok key stamp E m \<longleftrightarrow>
     (\<forall>k e. m k = Some e \<longrightarrow> e \<in> E \<and> key e = k) \<and>
     (\<forall>e \<in> E. \<exists>c. m (key e) = Some c \<and> stamp e \<le> stamp c)"

lemma latest_step_ok:
  assumes "latest_ok key stamp E m"
  shows "latest_ok key stamp (insert e E) (latest_step key stamp e m)"
proof (cases "m (key e)")
  case None
  then show ?thesis using assms by (auto simp: latest_ok_def latest_step_def)
next
  case (Some c)
  show ?thesis
  proof (cases "stamp e > stamp c")
    case True
    then show ?thesis using assms Some
      by (fastforce simp: latest_ok_def latest_step_def dest: order.strict_implies_order
          intro: order_trans)
  next
    case False
    then show ?thesis using assms Some by (auto simp: latest_ok_def latest_step_def)
  qed
qed

lemma latest_fold_ok:
  "latest_ok key stamp E m \<Longrightarrow>
   latest_ok key stamp (set es \<union> E) (fold (latest_step key stamp) es m)"
proof (induction es arbitrary: E m)
  case Nil
  then show ?case by simp
next
  case (Cons e es)
  then have "latest_ok key stamp (set es \<union> insert e E)
      (fold (latest_step key stamp) es (latest_step key stamp e m))"
    by (blast intro: latest_step_ok)
  then show ?case by simp
qed

lemma latest_by_ok: "latest_ok key stamp (set es) (latest_by key stamp es)"
  using latest_fold_ok[of key stamp "{}" Map.empty es]
  by (simp add: latest_by_def latest_ok_def)

lemma latest_by_Some:
  "latest_by key stamp es k = Some e \<Longrightarrow> e \<in> set es \<and> key e = k"
  using latest_by_ok[of key stamp es] by (auto simp: latest_ok_def)

lemma latest_by_max:
  "e \<in> set es \<Longrightarrow> \<exists>c. latest_by key stamp es (key e) = Some c \<and> stamp e \<le> stamp c"
  using latest_by_ok[of key stamp es] by (auto simp: latest_ok_def)

lemma latest_by_None_iff: "latest_by key stamp es k = None \<longleftrightarrow> (\<forall>e \<in> set es. key e \<noteq> k)"
  using latest_by_ok[of key stamp es] unfolding latest_ok_def by (metis option.distinct(1) option.exhaust)

section \<open>Interfaces of the state machines\<close>

text \<open>
  A component whose operations change a state: a step relation and a well-formedness
  predicate that every step keeps. Reachability is the reflexive transitive closure.
\<close>

locale transition_system =
  fixes step :: "'s \<Rightarrow> 's \<Rightarrow> bool"
    and inv :: "'s \<Rightarrow> bool"
  assumes step_inv: "inv s \<Longrightarrow> step s t \<Longrightarrow> inv t"
begin

lemma run_inv: "step\<^sup>*\<^sup>* s t \<Longrightarrow> inv s \<Longrightarrow> inv t"
  by (induction rule: rtranclp_induct) (auto intro: step_inv)

lemma run_keeps:
  assumes "step\<^sup>*\<^sup>* s t" and "inv s" and "P s"
    and "\<And>x y. inv x \<Longrightarrow> P x \<Longrightarrow> step x y \<Longrightarrow> P y"
  shows "P t"
proof -
  have "inv t \<and> P t"
    using assms(1)
  proof (induction rule: rtranclp_induct)
    case base
    then show ?case using assms(2,3) by simp
  next
    case (step y z)
    then show ?case using assms(4) step_inv by blast
  qed
  then show ?thesis by simp
qed

end

text \<open>A machine with states in which nothing the component promises changes any more.\<close>

locale final_system = transition_system +
  fixes final :: "'s \<Rightarrow> bool"
    and view :: "'s \<Rightarrow> 'v"
  assumes final_step: "inv s \<Longrightarrow> final s \<Longrightarrow> step s t \<Longrightarrow> final t \<and> view t = view s"
begin

lemma run_final:
  assumes "step\<^sup>*\<^sup>* s t" and "inv s" and "final s"
  shows "final t \<and> view t = view s"
  using assms(1,2)
proof (rule run_keeps [where P = "\<lambda>x. final x \<and> view x = view s"])
  show "final s \<and> view s = view s" using assms(3) by simp
qed (use final_step in auto)

end

text \<open>A machine with a counter that no step turns back.\<close>

locale counted_system = transition_system +
  fixes count :: "'s \<Rightarrow> nat"
  assumes count_step: "inv s \<Longrightarrow> step s t \<Longrightarrow> count s \<le> count t"
begin

lemma run_count: "step\<^sup>*\<^sup>* s t \<Longrightarrow> inv s \<Longrightarrow> count s \<le> count t"
  by (erule run_keeps [where P = "\<lambda>x. count s \<le> count x"]) (auto intro: order_trans count_step)

end

section \<open>Evaluating text\<close>

text \<open>
  The tests of a character on its bits, and the text functions on a literal: rewriting with
  \<open>text_eval\<close> evaluates them on concrete strings without arithmetic on codes.
\<close>

named_theorems text_eval

lemma is_digit_bits [text_eval]:
  "is_digit (Char b0 b1 b2 b3 b4 b5 b6 b7) \<longleftrightarrow> \<not> b7 \<and> \<not> b6 \<and> b5 \<and> b4 \<and> \<not> (b3 \<and> (b2 \<or> b1))"
  by (cases b0; cases b1; cases b2; cases b3; cases b4; cases b5; cases b6; cases b7)
     (simp_all add: is_digit_def code_def)

lemma is_lower_bits [text_eval]:
  "is_lower (Char b0 b1 b2 b3 b4 b5 b6 b7) \<longleftrightarrow>
     \<not> b7 \<and> b6 \<and> b5 \<and> (b0 \<or> b1 \<or> b2 \<or> b3 \<or> b4) \<and> \<not> (b4 \<and> b3 \<and> (b2 \<or> b1 \<and> b0))"
  by (cases b0; cases b1; cases b2; cases b3; cases b4; cases b5; cases b6; cases b7)
     (simp_all add: is_lower_def code_def)

lemma is_upper_bits [text_eval]:
  "is_upper (Char b0 b1 b2 b3 b4 b5 b6 b7) \<longleftrightarrow>
     \<not> b7 \<and> b6 \<and> \<not> b5 \<and> (b0 \<or> b1 \<or> b2 \<or> b3 \<or> b4) \<and> \<not> (b4 \<and> b3 \<and> (b2 \<or> b1 \<and> b0))"
  by (cases b0; cases b1; cases b2; cases b3; cases b4; cases b5; cases b6; cases b7)
     (simp_all add: is_upper_def code_def)

lemma lower_char_bits [text_eval]:
  "lower_char (Char b0 b1 b2 b3 b4 b5 b6 b7) =
     Char b0 b1 b2 b3 b4
       (b5 \<or> (\<not> b7 \<and> b6 \<and> (b0 \<or> b1 \<or> b2 \<or> b3 \<or> b4) \<and> \<not> (b4 \<and> b3 \<and> (b2 \<or> b1 \<and> b0)))) b6 b7"
proof (cases "is_upper (Char b0 b1 b2 b3 b4 b5 b6 b7)")
  case True
  then show ?thesis
    by (cases b0; cases b1; cases b2; cases b3; cases b4; cases b5; cases b6; cases b7)
       (simp_all add: lower_char_def is_upper_bits code_def char_of_def bit_0)
next
  case False
  then show ?thesis by (auto simp: lower_char_def is_upper_bits)
qed

lemma ws1_bits [text_eval]:
  "ws1 (Char b0 b1 b2 b3 b4 b5 b6 b7) \<longleftrightarrow> \<not> b7 \<and> \<not> b6 \<and> \<not> b4 \<and>
     (if b5 then \<not> b3 \<and> \<not> b2 \<and> \<not> b1 \<and> \<not> b0 else b3 \<and> (b2 \<or> b1 \<or> b0) \<and> \<not> (b2 \<and> b1))"
  by (cases b0; cases b1; cases b2; cases b3; cases b4; cases b5; cases b6; cases b7)
     (simp_all add: ws1_def code_def)

lemma ws2_ascii [text_eval]: "\<not> ws2 (Char b0 b1 b2 b3 b4 b5 b6 False) b"
  by (cases b0; cases b1; cases b2; cases b3; cases b4; cases b5; cases b6)
     (simp_all add: ws2_def code_def)

lemma ws3_ascii [text_eval]: "\<not> ws3 (Char b0 b1 b2 b3 b4 b5 b6 False) b c"
  by (cases b0; cases b1; cases b2; cases b3; cases b4; cases b5; cases b6)
     (simp_all add: ws3_def code_def)

lemma lower_hex_bits [text_eval]:
  "lower_hex (Char b0 b1 b2 b3 b4 b5 b6 b7) \<longleftrightarrow> is_digit (Char b0 b1 b2 b3 b4 b5 b6 b7) \<or>
     (\<not> b7 \<and> b6 \<and> b5 \<and> \<not> b4 \<and> \<not> b3 \<and> (b0 \<or> b1 \<or> b2) \<and> \<not> (b2 \<and> b1 \<and> b0))"
  by (cases b0; cases b1; cases b2; cases b3; cases b4; cases b5; cases b6; cases b7)
     (simp_all add: lower_hex_def code_def)

text \<open>\<open>char::is_control\<close> on a byte, and on the two bytes of U+0080..U+009F.\<close>

definition ascii_control :: "char \<Rightarrow> bool" where
  "ascii_control c \<longleftrightarrow> code c < 32 \<or> code c = 127"

definition c1_control :: "char \<Rightarrow> char \<Rightarrow> bool" where
  "c1_control a b \<longleftrightarrow> code a = 194 \<and> 128 \<le> code b \<and> code b \<le> 159"

lemma ascii_control_bits [text_eval]:
  "ascii_control (Char b0 b1 b2 b3 b4 b5 b6 b7) \<longleftrightarrow> \<not> b7 \<and>
     (\<not> b6 \<and> \<not> b5 \<or> b6 \<and> b5 \<and> b4 \<and> b3 \<and> b2 \<and> b1 \<and> b0)"
  by (cases b0; cases b1; cases b2; cases b3; cases b4; cases b5; cases b6; cases b7)
     (simp_all add: ascii_control_def code_def)

lemma c1_control_ascii [text_eval]: "\<not> c1_control (Char b0 b1 b2 b3 b4 b5 b6 False) b"
  by (cases b0; cases b1; cases b2; cases b3; cases b4; cases b5; cases b6)
     (simp_all add: c1_control_def code_def)

lemma starts_with_eval [text_eval]:
  "starts_with [] s" "\<not> starts_with (c # p) []"
  "starts_with (c # p) (d # s) \<longleftrightarrow> c = d \<and> starts_with p s"
  by (auto simp: starts_with_def)

lemma trim_eval [text_eval]: "ws_len s = 0 \<Longrightarrow> ws_len_rev (rev s) = 0 \<Longrightarrow> trim s = s"
  by (simp add: trim_def trim_end_def trim_start_id trim_front_rev_id)

lemmas [text_eval] = is_alnum_def ascii_lowercase_def eq_ignore_ascii_case_def

end
