(* ===== verification/Policy.thy ===== *)
theory Policy
  imports Prelude
begin

text \<open>
  The permission policy, \<open>kernel/policy.rs\<close> with \<open>AccessMode\<close> of \<open>kernel/models.rs\<close>: the
  built-in capability catalog, the risk of a capability, the decision for an access mode, the
  request that is created for a capability, its binding to one exact tool call, and the
  resolution a user gives. The lemmas show that the catalog declares every capability once, that
  no mode lets a critical capability run without approval, that decisions are monotone in the
  mode, and that an exact preview hash stands for one preview.
\<close>

section \<open>Data\<close>

datatype access_mode = AskEveryStep | AskOnRisk | LimitedAuto | FullAccess

datatype capability_kind =
    FileRead | FileWrite | NetworkSearch | BrowserBrowse | BrowserSubmit
  | EmailRead | EmailDraft | EmailSend | ConnectorAttachmentRead | ConnectorWrite
  | DriveRead | DriveWrite | TerminalRead | TerminalWrite
  | ComputerScreenshot | ComputerControl
  | AppUpdateCheck | AppUpdateDownload | AppUpdateInstall | SkillUse

datatype capability_family =
    File | Network | Browser | Email | Drive | Terminal | ComputerUse | AppUpdate | Skill

datatype risk_level = Low | Medium | High | Critical

datatype policy_decision = Allow | Ask | Deny

datatype access_status = AutoApproved | PendingApproval | Approved | Rejected | Denied

datatype grant_state = NotGranted | Reusable | OneShotAvailable | OneShotConsumed

fun capability_as_str :: "capability_kind \<Rightarrow> string" where
  "capability_as_str FileRead = ''file_read''"
| "capability_as_str FileWrite = ''file_write''"
| "capability_as_str NetworkSearch = ''network_search''"
| "capability_as_str BrowserBrowse = ''browser_browse''"
| "capability_as_str BrowserSubmit = ''browser_submit''"
| "capability_as_str EmailRead = ''email_read''"
| "capability_as_str EmailDraft = ''email_draft''"
| "capability_as_str EmailSend = ''email_send''"
| "capability_as_str ConnectorAttachmentRead = ''connector_attachment_read''"
| "capability_as_str ConnectorWrite = ''connector_write''"
| "capability_as_str DriveRead = ''drive_read''"
| "capability_as_str DriveWrite = ''drive_write''"
| "capability_as_str TerminalRead = ''terminal_read''"
| "capability_as_str TerminalWrite = ''terminal_write''"
| "capability_as_str ComputerScreenshot = ''computer_screenshot''"
| "capability_as_str ComputerControl = ''computer_control''"
| "capability_as_str AppUpdateCheck = ''app_update_check''"
| "capability_as_str AppUpdateDownload = ''app_update_download''"
| "capability_as_str AppUpdateInstall = ''app_update_install''"
| "capability_as_str SkillUse = ''skill_use''"

record catalog_entry =
  cd_family :: capability_family
  cd_capability :: capability_kind
  cd_title :: string
  cd_summary :: string
  cd_risk_level :: risk_level
  cd_default_scope :: string
  cd_experimental :: bool

record exact_tool_scope =
  ets_tool_id :: string
  ets_request_fingerprint :: string
  ets_preview :: string
  ets_preview_revision :: u32
  ets_preview_hash :: string

record access_request =
  ar_id :: uuid
  ar_access_mode :: access_mode
  ar_family :: capability_family
  ar_capability :: capability_kind
  ar_title :: string
  ar_summary :: string
  ar_risk_level :: risk_level
  ar_decision :: policy_decision
  ar_status :: access_status
  ar_reason :: string
  ar_exact_tool :: "exact_tool_scope option"
  ar_created_at :: instant

record permission_resolution =
  pr_id :: uuid
  pr_request_id :: uuid
  pr_approved :: bool
  pr_note :: string
  pr_expected_request_revision :: "u64 option"
  pr_exact_preview_revision :: "u32 option"
  pr_exact_preview_hash :: "string option"
  pr_created_at :: instant

record access_record =
  acc_request :: access_request
  acc_resolution :: "permission_resolution option"
  acc_effective_status :: access_status
  acc_projection_revision :: u64
  acc_grant_state :: grant_state

record permission_audit_entry =
  pa_id :: uuid
  pa_access_mode :: access_mode
  pa_capability :: capability_kind
  pa_risk_level :: risk_level
  pa_decision :: policy_decision
  pa_reason :: string
  pa_created_at :: instant

section \<open>Risk, decision and reason\<close>

fun capability_risk :: "capability_kind \<Rightarrow> risk_level" where
  "capability_risk FileRead = Low"
| "capability_risk NetworkSearch = Low"
| "capability_risk BrowserBrowse = Low"
| "capability_risk EmailDraft = Low"
| "capability_risk DriveRead = Low"
| "capability_risk TerminalRead = Low"
| "capability_risk AppUpdateCheck = Low"
| "capability_risk SkillUse = Low"
| "capability_risk EmailRead = Medium"
| "capability_risk ComputerScreenshot = Medium"
| "capability_risk FileWrite = High"
| "capability_risk BrowserSubmit = High"
| "capability_risk DriveWrite = High"
| "capability_risk TerminalWrite = High"
| "capability_risk AppUpdateDownload = High"
| "capability_risk EmailSend = Critical"
| "capability_risk ConnectorAttachmentRead = Critical"
| "capability_risk ConnectorWrite = Critical"
| "capability_risk ComputerControl = Critical"
| "capability_risk AppUpdateInstall = Critical"

fun decide :: "access_mode \<Rightarrow> capability_kind \<Rightarrow> policy_decision" where
  "decide AskEveryStep c = Ask"
| "decide AskOnRisk c = (case capability_risk c of Low \<Rightarrow> Allow | _ \<Rightarrow> Ask)"
| "decide LimitedAuto c = (case capability_risk c of Low \<Rightarrow> Allow | Medium \<Rightarrow> Allow | _ \<Rightarrow> Ask)"
| "decide FullAccess EmailSend = Ask"
| "decide FullAccess ConnectorAttachmentRead = Ask"
| "decide FullAccess ConnectorWrite = Ask"
| "decide FullAccess ComputerControl = Ask"
| "decide FullAccess AppUpdateInstall = Ask"
| "decide FullAccess c = Allow"

definition critical_listed :: "capability_kind \<Rightarrow> bool" where
  "critical_listed c \<longleftrightarrow>
     c \<in> {EmailSend, ConnectorAttachmentRead, ConnectorWrite, ComputerControl, AppUpdateInstall}"

definition decision_reason ::
    "access_mode \<Rightarrow> capability_kind \<Rightarrow> risk_level \<Rightarrow> policy_decision \<Rightarrow> string" where
  "decision_reason mode c risk decision =
     (if critical_listed c \<and> risk = Critical
      then ''critical capability requires explicit approval''
      else if mode = AskEveryStep \<and> decision = Ask
      then ''ask_every_step requires approval before every capability''
      else if mode = AskOnRisk \<and> risk = Low \<and> decision = Allow
      then ''ask_on_risk allows low risk capability''
      else if mode = AskOnRisk \<and> decision = Ask
      then ''ask_on_risk requires approval for risky capability''
      else if mode = LimitedAuto \<and> (risk = Low \<or> risk = Medium) \<and> decision = Allow
      then ''limited_auto allows low and medium risk capability''
      else if mode = LimitedAuto \<and> risk = High \<and> decision = Ask
      then ''limited_auto requires approval for high risk capability''
      else if mode = FullAccess \<and> decision = Allow
      then ''full_access allows non-critical capability''
      else ''policy decision recorded'')"

definition evaluate_audit ::
    "uuid \<Rightarrow> instant \<Rightarrow> access_mode \<Rightarrow> capability_kind \<Rightarrow> permission_audit_entry" where
  "evaluate_audit new_id now mode c =
     (let risk = capability_risk c; decision = decide mode c in
      \<lparr>pa_id = new_id, pa_access_mode = mode, pa_capability = c, pa_risk_level = risk,
       pa_decision = decision, pa_reason = decision_reason mode c risk decision,
       pa_created_at = now\<rparr>)"

section \<open>The built-in catalog\<close>

definition descriptor ::
    "capability_family \<Rightarrow> capability_kind \<Rightarrow> string \<Rightarrow> string \<Rightarrow> string \<Rightarrow> bool
     \<Rightarrow> catalog_entry" where
  "descriptor family c title summary scope experimental =
     \<lparr>cd_family = family, cd_capability = c, cd_title = title, cd_summary = summary,
      cd_risk_level = capability_risk c, cd_default_scope = scope,
      cd_experimental = experimental\<rparr>"

definition builtin_capability_catalog :: "catalog_entry list" where
  "builtin_capability_catalog =
     [descriptor File FileRead ''Read local files''
        ''Read selected files inside the current workspace.''
        ''workspace'' False,
      descriptor File FileWrite ''Write local files''
        ''Create or modify drafts and exported artifacts in approved folders.''
        ''workspace'' False,
      descriptor Network NetworkSearch ''Network search''
        ''Search the public web and collect source links for review.''
        ''internet_search'' False,
      descriptor Browser BrowserBrowse ''Browser browsing''
        ''Open and inspect web pages through the browser capability.''
        ''web_browse'' False,
      descriptor Browser BrowserSubmit ''Browser form submission''
        ''Fill or submit forms only after policy review.''
        ''form_submission'' False,
      descriptor Email EmailRead ''Email read''
        ''Read selected mailbox threads for task evidence.''
        ''email_read'' False,
      descriptor Email EmailDraft ''Email draft''
        ''Prepare draft replies without sending them.''
        ''email_draft'' False,
      descriptor Email EmailSend ''Email send''
        ''Send approved outbound email from a connected mailbox.''
        ''email_send'' False,
      descriptor Email ConnectorAttachmentRead ''Connected attachment download''
        ''Download one approved untrusted attachment into the managed workspace.''
        ''single_connector_attachment'' True,
      descriptor Email ConnectorWrite ''Connected account change''
        ''Apply one approved external account mutation.''
        ''single_external_change'' True,
      descriptor Drive DriveRead ''Drive read''
        ''Read selected cloud-drive files and folders.''
        ''drive_read'' False,
      descriptor Drive DriveWrite ''Drive write''
        ''Upload or export approved artifacts to cloud drive.''
        ''drive_write'' False,
      descriptor Terminal TerminalRead ''Terminal read''
        ''Run read-only diagnostics and collect command output.''
        ''terminal_read'' False,
      descriptor Terminal TerminalWrite ''Terminal write''
        ''Run commands that can mutate files or machine state.''
        ''terminal_write'' False,
      descriptor ComputerUse ComputerScreenshot ''Computer screenshot''
        ''Capture or inspect the visible desktop for context.''
        ''computer_screenshot'' True,
      descriptor ComputerUse ComputerControl ''Computer control''
        ''Use mouse or keyboard actions with per-step approval.''
        ''computer_control'' True,
      descriptor AppUpdate AppUpdateCheck ''Check for DS Agent updates''
        ''Read trusted release metadata and compare it with the installed version.''
        ''trusted_release_metadata'' False,
      descriptor AppUpdate AppUpdateDownload ''Download a DS Agent update''
        ''Download a trusted Windows installer into the isolated update directory.''
        ''app_update_directory'' False,
      descriptor AppUpdate AppUpdateInstall ''Install a DS Agent update''
        ''Launch a verified installer and restart DS Agent after explicit approval.''
        ''verified_update_installer'' False,
      descriptor Skill SkillUse ''Use an installed declarative skill''
        ''Load a trusted, enabled, hash-verified declarative skill entry as planning evidence.''
        ''installed_skill_catalog'' False]"

definition capability_descriptor :: "capability_kind \<Rightarrow> catalog_entry option" where
  "capability_descriptor c = find (\<lambda>d. cd_capability d = c) builtin_capability_catalog"

definition request_capability_access ::
    "uuid \<Rightarrow> instant \<Rightarrow> access_mode \<Rightarrow> capability_kind \<Rightarrow> access_request res" where
  "request_capability_access new_id now mode c =
     bind_res (ok_or (capability_descriptor c)
                 ''capability is not declared in the built-in catalog'')
       (\<lambda>d. let risk = cd_risk_level d; decision = decide mode c;
               status = (case decision of Allow \<Rightarrow> AutoApproved | Ask \<Rightarrow> PendingApproval
                                        | Deny \<Rightarrow> Denied) in
            Inr \<lparr>ar_id = new_id, ar_access_mode = mode, ar_family = cd_family d,
                 ar_capability = c, ar_title = cd_title d, ar_summary = cd_summary d,
                 ar_risk_level = risk, ar_decision = decision, ar_status = status,
                 ar_reason = decision_reason mode c risk decision,
                 ar_exact_tool = None, ar_created_at = now\<rparr>)"

section \<open>Exact tool approvals\<close>

definition TOOL_APPROVAL_PREVIEW_REVISION :: u32 where
  "TOOL_APPROVAL_PREVIEW_REVISION = 1"

definition preview_bytes :: "u32 \<Rightarrow> string \<Rightarrow> string" where
  "preview_bytes revision preview =
     ''ds-agent.tool-approval-preview.v1'' @ [char_of (0::nat)]
     @ be_bytes 4 (unat revision) @ be_bytes 8 (length preview) @ preview"

definition exact_tool_preview_hash :: "digest \<Rightarrow> u32 \<Rightarrow> string \<Rightarrow> string" where
  "exact_tool_preview_hash sha revision preview = sha (preview_bytes revision (trim preview))"

definition bind_exact_tool ::
    "digest \<Rightarrow> access_request \<Rightarrow> string \<Rightarrow> string \<Rightarrow> string \<Rightarrow> access_request res" where
  "bind_exact_tool sha r tool_id fingerprint preview =
     (if trim tool_id = [] \<or> length tool_id > 128
         \<or> length fingerprint \<noteq> 64 \<or> \<not> list_all is_hexdigit fingerprint
         \<or> trim preview = [] \<or> length preview > 512
      then Inl ''exact tool approval scope is invalid''
      else Inr (r\<lparr>ar_exact_tool := Some
             \<lparr>ets_tool_id = tool_id, ets_request_fingerprint = fingerprint,
              ets_preview = trim preview,
              ets_preview_revision = TOOL_APPROVAL_PREVIEW_REVISION,
              ets_preview_hash =
                exact_tool_preview_hash sha TOOL_APPROVAL_PREVIEW_REVISION preview\<rparr>\<rparr>))"

definition new_resolution ::
    "uuid \<Rightarrow> instant \<Rightarrow> uuid \<Rightarrow> bool \<Rightarrow> string \<Rightarrow> permission_resolution" where
  "new_resolution new_id now request_id approved note =
     \<lparr>pr_id = new_id, pr_request_id = request_id, pr_approved = approved, pr_note = trim note,
      pr_expected_request_revision = None, pr_exact_preview_revision = None,
      pr_exact_preview_hash = None, pr_created_at = now\<rparr>"

definition new_exact_resolution ::
    "digest \<Rightarrow> uuid \<Rightarrow> instant \<Rightarrow> uuid \<Rightarrow> bool \<Rightarrow> string \<Rightarrow> u64 \<Rightarrow> exact_tool_scope
     \<Rightarrow> permission_resolution res" where
  "new_exact_resolution sha new_id now request_id approved note expected scope =
     (if ets_preview_revision scope = 0
         \<or> ets_preview_hash scope
            \<noteq> exact_tool_preview_hash sha (ets_preview_revision scope) (ets_preview scope)
      then Inl ''exact tool preview evidence is invalid''
      else Inr \<lparr>pr_id = new_id, pr_request_id = request_id, pr_approved = approved,
                pr_note = trim note, pr_expected_request_revision = Some expected,
                pr_exact_preview_revision = Some (ets_preview_revision scope),
                pr_exact_preview_hash = Some (ets_preview_hash scope), pr_created_at = now\<rparr>)"

section \<open>Lemmas\<close>

lemma catalog_kinds: "map cd_capability builtin_capability_catalog =
  [FileRead, FileWrite, NetworkSearch, BrowserBrowse, BrowserSubmit, EmailRead, EmailDraft,
   EmailSend, ConnectorAttachmentRead, ConnectorWrite, DriveRead, DriveWrite, TerminalRead,
   TerminalWrite, ComputerScreenshot, ComputerControl, AppUpdateCheck, AppUpdateDownload,
   AppUpdateInstall, SkillUse]"
  by (simp add: builtin_capability_catalog_def descriptor_def)

lemma catalog_risk:
  "d \<in> set builtin_capability_catalog \<Longrightarrow> cd_risk_level d = capability_risk (cd_capability d)"
  by (auto simp: builtin_capability_catalog_def descriptor_def)

lemma capability_descriptor_total:
  "\<exists>d. capability_descriptor c = Some d \<and> cd_capability d = c \<and> cd_risk_level d = capability_risk c"
proof -
  have "c \<in> set (map cd_capability builtin_capability_catalog)"
    unfolding catalog_kinds by (cases c) simp_all
  then obtain d where "capability_descriptor c = Some d"
    unfolding capability_descriptor_def
    by (cases "find (\<lambda>d. cd_capability d = c) builtin_capability_catalog") (auto simp: find_None_iff)
  then show ?thesis
    by (metis (mono_tags, lifting) capability_descriptor_def catalog_risk find_Some_iff nth_mem)
qed

lemma decide_not_Deny [simp]: "decide m c \<noteq> Deny"
  by (cases m; cases c) simp_all

lemma decide_cases: "decide m c = Allow \<or> decide m c = Ask"
  by (cases "decide m c") simp_all

lemma critical_listed_iff: "critical_listed c \<longleftrightarrow> capability_risk c = Critical"
  by (cases c) (simp_all add: critical_listed_def)

lemma decide_critical: "capability_risk c = Critical \<Longrightarrow> decide m c = Ask"
  by (cases m; cases c) simp_all

lemma decide_FullAccess: "decide FullAccess c = Ask \<longleftrightarrow> capability_risk c = Critical"
  by (cases c) simp_all

fun mode_rank :: "access_mode \<Rightarrow> nat" where
  "mode_rank AskEveryStep = 0"
| "mode_rank AskOnRisk = 1"
| "mode_rank LimitedAuto = 2"
| "mode_rank FullAccess = 3"

lemma decide_mono: "mode_rank m \<le> mode_rank n \<Longrightarrow> decide m c = Allow \<Longrightarrow> decide n c = Allow"
  by (cases m; cases n; cases c) simp_all

lemma bind_exact_tool_Inr_iff:
  "bind_exact_tool sha r t f p = Inr r' \<longleftrightarrow>
     trim t \<noteq> [] \<and> length t \<le> 128 \<and> length f = 64 \<and> list_all is_hexdigit f \<and>
     trim p \<noteq> [] \<and> length p \<le> 512 \<and>
     r' = r\<lparr>ar_exact_tool := Some
            \<lparr>ets_tool_id = t, ets_request_fingerprint = f, ets_preview = trim p,
             ets_preview_revision = TOOL_APPROVAL_PREVIEW_REVISION,
             ets_preview_hash =
               exact_tool_preview_hash sha TOOL_APPROVAL_PREVIEW_REVISION p\<rparr>\<rparr>"
  by (auto simp: bind_exact_tool_def not_less)

lemma bind_exact_tool_scope:
  assumes "bind_exact_tool sha r t f p = Inr r'" and "ar_exact_tool r' = Some s"
  shows "ets_preview s = trim p" and "length p \<le> 512"
    and "ets_preview_hash s = sha (preview_bytes 1 (trim p))"
  using assms unfolding bind_exact_tool_Inr_iff exact_tool_preview_hash_def
    TOOL_APPROVAL_PREVIEW_REVISION_def
  by (clarsimp; simp)+

lemma preview_bytes_inj:
  assumes "preview_bytes r p = preview_bytes s q" and "length p < 2 ^ 64" and "length q < 2 ^ 64"
  shows "r = s \<and> p = q"
proof -
  have r: "be_bytes 4 (unat r) = be_bytes 4 (unat s)" and "frame p = frame q"
    using assms(1) by (auto simp: preview_bytes_def frame_def append_eq_append_conv)
  then have "p = q" using frame_inj[of p "[]" q "[]"] assms(2,3) by simp
  moreover have "unat r = unat s"
    using unsigned_less[of r] unsigned_less[of s] by (intro be_bytes_inj[OF r]) simp_all
  ultimately show ?thesis by (simp add: word_unat_eq_iff)
qed

section \<open>Properties\<close>

text \<open>
  a request can be created for every capability in every access mode, carries the
  capability's own risk and the policy's decision, starts auto-approved exactly when the policy
  allows it and pending otherwise, is never created denied, and binds no exact tool yet.
\<close>

theorem request_access_total:
  "\<exists>r. request_capability_access i t m c = Inr r \<and> ar_id r = i \<and> ar_access_mode r = m \<and>
       ar_capability r = c \<and> ar_risk_level r = capability_risk c \<and> ar_decision r = decide m c \<and>
       ar_status r = (if decide m c = Allow then AutoApproved else PendingApproval) \<and>
       ar_exact_tool r = None"
proof -
  obtain d where "capability_descriptor c = Some d" "cd_risk_level d = capability_risk c"
    using capability_descriptor_total by blast
  then show ?thesis using decide_cases[of m c]
    by (auto simp: request_capability_access_def Let_def)
qed

lemma pending_iff_Ask:
  "(\<exists>r. request_capability_access i now m c = Inr r \<and> ar_capability r = c \<and> ar_status r = PendingApproval)
     \<longleftrightarrow> decide m c = Ask"
proof -
  obtain d where "capability_descriptor c = Some d"
    using capability_descriptor_total by metis
  then show ?thesis
    by (cases "decide m c") (simp_all add: request_capability_access_def Let_def)
qed

text \<open>
  C31: the critical capabilities are exactly those that ask in every access mode, and exactly those
  whose requests are pending in every access mode, never approved automatically; the reason recorded
  for a capability says so exactly if it is critical; and full access, which keeps its own list of
  exceptions, asks for exactly the critical ones.
\<close>

theorem critical_always_asks:
  "(decide FullAccess c = Ask \<longleftrightarrow> (\<forall>m. decide m c = Ask)) \<and>
   (capability_risk c = Critical \<longleftrightarrow> (\<forall>m. decide m c = Ask)) \<and>
   (capability_risk c = Critical \<longleftrightarrow>
      (\<forall>m. \<exists>r. request_capability_access i now m c = Inr r \<and> ar_capability r = c \<and> ar_status r = PendingApproval)) \<and>
   (capability_risk c = Critical \<longleftrightarrow>
      decision_reason m c (capability_risk c) (decide m c)
        = ''critical capability requires explicit approval'')"
proof -
  have "(capability_risk c = Critical \<longleftrightarrow> (\<forall>m. decide m c = Ask))"
    using decide_critical decide_FullAccess by blast
  moreover have "capability_risk c = Critical \<longleftrightarrow>
      decision_reason m c (capability_risk c) (decide m c)
        = ''critical capability requires explicit approval''"
    by (simp add: decision_reason_def critical_listed_iff)
  moreover have "(\<exists>r. request_capability_access i now m c = Inr r \<and> ar_capability r = c \<and>
                     ar_status r = PendingApproval) \<longleftrightarrow> decide m c = Ask" for m
    using pending_iff_Ask .
  ultimately show ?thesis using decide_FullAccess by metis
qed

text \<open>
  a more permissive access mode never withdraws a permission: what one mode allows without
  asking, every mode above it allows too, and the reason never falls through to the catch-all.
\<close>

theorem decide_monotone:
  assumes "mode_rank m \<le> mode_rank n" and "decide m c = Allow"
  shows "decide n c = Allow \<and>
         decision_reason n c (capability_risk c) (decide n c) \<noteq> ''policy decision recorded''"
  using decide_mono[OF assms]
  by (cases n; cases c) (simp_all add: decision_reason_def critical_listed_def)

theorem decide_monotone_witness:
  "mode_rank AskOnRisk \<le> mode_rank FullAccess \<and> decide FullAccess FileRead = Allow"
  using decide_monotone[of AskOnRisk FullAccess FileRead] by simp

text \<open>
  the preview hash of an exact approval stands for the preview: two requests bound to an
  exact tool call whose hashes agree were shown the same (trimmed) preview, if the digest does
  not collide on the two encoded previews.
\<close>

theorem exact_preview_hash_binds:
  assumes "bind_exact_tool sha r1 t1 f1 p1 = Inr q1" and "bind_exact_tool sha r2 t2 f2 p2 = Inr q2"
    and "ar_exact_tool q1 = Some s1" and "ar_exact_tool q2 = Some s2"
    and "inj_on sha {preview_bytes 1 (trim p1), preview_bytes 1 (trim p2)}"
    and "ets_preview_hash s1 = ets_preview_hash s2"
  shows "ets_preview s1 = ets_preview s2"
proof -
  note s1 = bind_exact_tool_scope[OF assms(1,3)]
  note s2 = bind_exact_tool_scope[OF assms(2,4)]
  have "sha (preview_bytes 1 (trim p1)) = sha (preview_bytes 1 (trim p2))"
    using assms(6) s1(3) s2(3) by simp
  then have "preview_bytes 1 (trim p1) = preview_bytes 1 (trim p2)"
    using assms(5) by (simp add: inj_on_eq_iff)
  moreover have "length (trim p1) < 2 ^ 64" "length (trim p2) < 2 ^ 64"
    using trim_length[of p1] trim_length[of p2] s1(2) s2(2) by simp_all
  ultimately show ?thesis using preview_bytes_inj s1(1) s2(1) by metis
qed

theorem exact_preview_hash_binds_witness:
  "ets_preview
     \<lparr>ets_tool_id = ''t'', ets_request_fingerprint = replicate 64 (CHR ''a''), ets_preview = ''p'',
      ets_preview_revision = 1, ets_preview_hash = preview_bytes 1 ''p''\<rparr> = ''p''"
proof -
  let ?f = "replicate 64 (CHR ''a'')"
  let ?s = "\<lparr>ets_tool_id = ''t'', ets_request_fingerprint = ?f, ets_preview = ''p'',
      ets_preview_revision = 1, ets_preview_hash = preview_bytes 1 ''p''\<rparr>"
  have tr: "trim ''p'' = ''p''" "trim ''t'' = ''t''" "trim '' p'' = ''p''"
    by code_simp+
  have f: "list_all is_hexdigit ?f" by code_simp
  define r where "r = (undefined :: access_request)\<lparr>ar_exact_tool := None\<rparr>"
  have b: "bind_exact_tool (\<lambda>x. x) r ''t'' ?f p = Inr (r\<lparr>ar_exact_tool := Some ?s\<rparr>)"
    if "trim p = ''p''" and "length p \<le> 512" for p
    using that tr f by (simp add: bind_exact_tool_def exact_tool_preview_hash_def
        TOOL_APPROVAL_PREVIEW_REVISION_def)
  show ?thesis
    using exact_preview_hash_binds[OF b[OF tr(1)] b[OF tr(3)], of ?s ?s] by simp
qed

text \<open>
  the evidence that binding an exact tool call leaves in a request is accepted when the user
  resolves the request exactly, and the resolution names the bound revision and hash.
\<close>

theorem exact_resolution_accepts_bound:
  assumes "bind_exact_tool sha r t f p = Inr r'"
  shows "\<exists>scope res. ar_exact_tool r' = Some scope \<and>
           new_exact_resolution sha i now (ar_id r') ok note expected scope = Inr res \<and>
           pr_request_id res = ar_id r \<and> pr_approved res = ok \<and>
           pr_expected_request_revision res = Some expected \<and>
           pr_exact_preview_revision res = Some 1 \<and>
           pr_exact_preview_hash res = Some (exact_tool_preview_hash sha 1 p)"
  using assms by (auto simp: bind_exact_tool_Inr_iff new_exact_resolution_def
      exact_tool_preview_hash_def TOOL_APPROVAL_PREVIEW_REVISION_def)

theorem exact_resolution_accepts_bound_witness:
  "\<exists>(r'::access_request) scope res. ar_exact_tool r' = Some scope \<and>
     new_exact_resolution (\<lambda>x. ''h'') 1 0 (ar_id r') True ''ok'' 0 scope = Inr res"
proof -
  define f where "f = replicate 64 (CHR ''a'')"
  have f: "list_all is_hexdigit f" unfolding f_def by code_simp
  have l: "length f = 64" by (simp add: f_def)
  have t: "trim ''p'' \<noteq> []" "trim ''t'' \<noteq> []" by code_simp+
  obtain r' where "bind_exact_tool (\<lambda>x. ''h'') undefined ''t'' f ''p'' = Inr r'"
    using f l t by (simp add: bind_exact_tool_def)
  from exact_resolution_accepts_bound[OF this, of 1 0 True "''ok''" 0] show ?thesis by blast
qed

end
