(* ===== verification/Computer_Use.thy ===== *)
theory Computer_Use
  imports Prelude
begin

text \<open>
  Verified computer use, \<open>kernel/computer_use_session.rs\<close>: the session and step records, the
  observation and the action binding with their fingerprints, and the operations that move a
  step through observe, approve, start, observe again and verify. Fingerprints are computed
  with the parameters collected in \<open>cu_env\<close>: the SHA-256 digest in hexadecimal, the JSON text
  of actions and postconditions (\<open>serde_json\<close>), the RFC 3339 text of instants and the text of
  identifiers, and the last instant \<open>chrono\<close> can represent. The lemmas show that every
  operation keeps \<open>ComputerUseStep::validate\<close>, that no run starts the desktop action twice,
  and what a verified step has behind it.
\<close>

section \<open>Data\<close>

type_synonym i32 = "32 word"

datatype mouse_button = LeftButton | MiddleButton | RightButton

datatype scroll_axis = Vertical | Horizontal

datatype control_action =
    Click i32 i32 mouse_button
  | Move i32 i32
  | TypeText string
  | SetAccessibilityValue string
  | SelectAccessibilityTarget
  | PressKey string
  | Hotkey "string list"
  | Scroll i32 scroll_axis

datatype step_status =
    Observed | AwaitingApproval | Ready | ActionStarted | AwaitingVerification | Verified
  | NeedsReplan | UserTakenOver | EffectUnknown | VerificationFailed | Cancelled

datatype observation_phase = PreAction | PostAction

datatype undo_capability = UndoNone | CompensationRequired

datatype postcondition = FingerprintEquals string | FingerprintChanged

datatype verification_outcome = OutcomeVerified | OutcomeEvidenceOnly | OutcomeFailed

datatype approval_actor = User | KernelLifecycle | DeepSeekModel | FrontendPayload

record cu_session =
  cs_contract_version :: string
  cs_id :: uuid
  cs_run_id :: "uuid option"
  cs_safe_goal_summary :: string
  cs_active_step_id :: "uuid option"
  cs_revision :: u64
  cs_created_at :: instant
  cs_updated_at :: instant

record observation =
  ob_id :: uuid
  ob_phase :: observation_phase
  ob_fingerprint :: string
  ob_application :: string
  ob_process :: string
  ob_window :: string
  ob_window_title :: string
  ob_frame :: string
  ob_target :: "string option"
  ob_semantic :: "string option"
  ob_evidence_ref :: string
  ob_summary :: string
  ob_captured_at :: instant
  ob_valid_until :: instant

record action_binding =
  ab_action :: control_action
  ab_summary :: string
  ab_pre_observation :: string
  ab_application :: string
  ab_process :: string
  ab_window :: string
  ab_window_title :: string
  ab_frame :: string
  ab_target :: string
  ab_pre_semantic :: "string option"
  ab_postcondition :: postcondition
  ab_fingerprint :: string

record checkpoint =
  cp_id :: uuid
  cp_undo :: undo_capability
  cp_action_fingerprint :: "string option"
  cp_created_at :: instant

record verification_receipt =
  vr_id :: uuid
  vr_action_fingerprint :: string
  vr_post_fingerprint :: string
  vr_outcome :: verification_outcome
  vr_summary :: string
  vr_verified_at :: instant

record cu_step =
  st_contract_version :: string
  st_id :: uuid
  st_session_id :: uuid
  st_sequence :: u32
  st_status :: step_status
  st_revision :: u64
  st_pre :: observation
  st_action :: "action_binding option"
  st_approval_id :: "uuid option"
  st_approval_actor :: "approval_actor option"
  st_started_at :: "instant option"
  st_start_count :: u32
  st_post :: "observation option"
  st_verification :: "verification_receipt option"
  st_checkpoint :: checkpoint
  st_reason :: "string option"
  st_created_at :: instant
  st_updated_at :: instant

record cu_env =
  env_sha :: digest
  env_action_json :: "control_action \<Rightarrow> string"
  env_postcondition_json :: "postcondition \<Rightarrow> string"
  env_timestamp_text :: "instant \<Rightarrow> string"
  env_uuid_text :: "uuid \<Rightarrow> string"
  env_max_instant :: instant

section \<open>Checks\<close>

text \<open>
  A sequence of checks with early return: the error of the first that fails.
\<close>

fun all_ok :: "unit res list \<Rightarrow> unit res" where
  "all_ok [] = Inr ()"
| "all_ok (Inl e # cs) = Inl e"
| "all_ok (Inr u # cs) = all_ok cs"

definition fail_if :: "bool \<Rightarrow> string \<Rightarrow> unit res" where
  "fail_if b e = (if b then Inl e else Inr ())"

definition discard :: "'a res \<Rightarrow> unit res" where
  "discard m = bind_res m (\<lambda>_. Inr ())"

lemma all_ok_Inr_iff [simp, res_simps]: "all_ok cs = Inr () \<longleftrightarrow> (\<forall>c \<in> set cs. c = Inr ())"
  by (induction cs rule: all_ok.induct) auto

lemma fail_if_Inr_iff [simp, res_simps]: "fail_if b e = Inr () \<longleftrightarrow> \<not> b"
  by (simp add: fail_if_def)

lemma discard_Inr_iff [simp, res_simps]: "discard m = Inr () \<longleftrightarrow> is_ok m"
  by (cases m) (simp_all add: discard_def)

definition CONTRACT_VERSION :: string where
  "CONTRACT_VERSION = ''computer-use-step/v2''"

definition FRESHNESS_SECS :: int where
  "FRESHNESS_SECS = 120"

definition MAX_SAFE_SUMMARY_CHARS :: nat where
  "MAX_SAFE_SUMMARY_CHARS = 1000"

definition safe_text :: "string \<Rightarrow> string \<Rightarrow> string res" where
  "safe_text value field =
     (let value = trim value in
      if value = [] then Inl (field @ '' is required'')
      else if char_count value > MAX_SAFE_SUMMARY_CHARS
      then Inl (field @ '' exceeds 1000 characters'')
      else Inr value)"

text \<open>\<open>str::split('/')\<close>, and the replacement of backslashes.\<close>

fun split_at :: "char \<Rightarrow> string \<Rightarrow> string list" where
  "split_at d [] = [[]]"
| "split_at d (c # cs) =
     (if c = d then [] # split_at d cs
      else (case split_at d cs of [] \<Rightarrow> [[c]] | p # ps \<Rightarrow> (c # p) # ps))"

definition slashes :: "string \<Rightarrow> string" where
  "slashes s = map (\<lambda>c. if c = CHR 0x5C then CHR 0x2F else c) s"

definition safe_evidence_ref :: "string \<Rightarrow> string res" where
  "safe_evidence_ref value =
     (let value = slashes (trim value) in
      if \<not> starts_with ''computer-screenshots/'' value
         \<or> CHR '':'' \<in> set value
         \<or> (\<exists>segment \<in> set (split_at (CHR 0x2F) value). segment = ''..'' \<or> segment = [])
      then Inl ''computer use screenshot evidence reference is not a safe local handle''
      else Inr value)"

definition is_fingerprint :: "string \<Rightarrow> bool" where
  "is_fingerprint v \<longleftrightarrow> length v = 64 \<and> list_all is_hexdigit v"

definition require_fingerprint :: "string \<Rightarrow> string \<Rightarrow> unit res" where
  "require_fingerprint value field =
     fail_if (length value \<noteq> 64 \<or> \<not> list_all is_hexdigit value)
       (field @ '' must be a SHA-256 fingerprint'')"

definition require_opt_fingerprint :: "string option \<Rightarrow> string \<Rightarrow> unit res" where
  "require_opt_fingerprint value field =
     (case value of None \<Rightarrow> Inr () | Some v \<Rightarrow> require_fingerprint v field)"

definition validate_postcondition :: "postcondition \<Rightarrow> unit res" where
  "validate_postcondition p =
     (case p of FingerprintEquals expected \<Rightarrow>
        require_fingerprint expected ''expected semantic fingerprint''
      | FingerprintChanged \<Rightarrow> Inr ())"

definition hash_parts :: "cu_env \<Rightarrow> string list \<Rightarrow> string" where
  "hash_parts env parts = env_sha env (concat (map frame parts))"

fun observation_phase_name :: "observation_phase \<Rightarrow> string" where
  "observation_phase_name PreAction = ''pre_action''"
| "observation_phase_name PostAction = ''post_action''"

text \<open>\<open>DateTime::checked_add_signed\<close>\<close>

definition checked_add :: "cu_env \<Rightarrow> instant \<Rightarrow> int \<Rightarrow> instant option" where
  "checked_add env t d = (if t + d \<le> env_max_instant env then Some (t + d) else None)"

section \<open>Sessions\<close>

definition session_new :: "uuid \<Rightarrow> uuid option \<Rightarrow> string \<Rightarrow> instant \<Rightarrow> cu_session res" where
  "session_new new_id run_id summary now =
     bind_res (safe_text summary ''safe goal summary'') (\<lambda>summary.
       Inr \<lparr>cs_contract_version = CONTRACT_VERSION, cs_id = new_id, cs_run_id = run_id,
            cs_safe_goal_summary = summary, cs_active_step_id = None, cs_revision = 0,
            cs_created_at = now, cs_updated_at = now\<rparr>)"

definition activate_step :: "cu_session \<Rightarrow> uuid \<Rightarrow> instant \<Rightarrow> cu_session res" where
  "activate_step s step_id now =
     (if is_nil step_id then Inl ''computer use active step id is invalid''
      else Inr (s\<lparr>cs_active_step_id := Some step_id, cs_revision := sat_inc (cs_revision s),
                  cs_updated_at := now\<rparr>))"

definition session_validate :: "cu_session \<Rightarrow> unit res" where
  "session_validate s =
     all_ok
       [fail_if (cs_contract_version s \<noteq> CONTRACT_VERSION \<or> is_nil (cs_id s))
          ''computer use session identity is invalid'',
        discard (safe_text (cs_safe_goal_summary s) ''safe goal summary''),
        fail_if (is_some_and (cs_active_step_id s) is_nil)
          ''computer use active step id is invalid'',
        fail_if (cs_updated_at s < cs_created_at s)
          ''computer use session timestamps are invalid'']"

section \<open>Observations\<close>

definition opt_text :: "string option \<Rightarrow> string" where
  "opt_text v = (case v of None \<Rightarrow> ''none'' | Some t \<Rightarrow> t)"

definition observation_hash ::
    "cu_env \<Rightarrow> uuid \<Rightarrow> observation_phase \<Rightarrow> string \<Rightarrow> string \<Rightarrow> string \<Rightarrow> string \<Rightarrow> string
     \<Rightarrow> string option \<Rightarrow> string option \<Rightarrow> string \<Rightarrow> instant \<Rightarrow> instant \<Rightarrow> string" where
  "observation_hash env oid phase app process window title fr target semantic evidence
       captured valid_until =
     hash_parts env
       [CONTRACT_VERSION, env_uuid_text env oid, observation_phase_name phase,
        app, process, window, title, fr, opt_text target, opt_text semantic, evidence,
        env_timestamp_text env captured, env_timestamp_text env valid_until]"

definition observation_new ::
    "cu_env \<Rightarrow> uuid \<Rightarrow> observation_phase \<Rightarrow> string \<Rightarrow> string \<Rightarrow> string \<Rightarrow> string \<Rightarrow> string
     \<Rightarrow> string option \<Rightarrow> string option \<Rightarrow> string \<Rightarrow> string \<Rightarrow> instant \<Rightarrow> observation res" where
  "observation_new env new_id phase app process window title fr target semantic evidence summary
       captured =
     bind_res
       (all_ok
          [require_fingerprint app ''application fingerprint'',
           require_fingerprint process ''process fingerprint'',
           require_fingerprint window ''window fingerprint'',
           require_fingerprint title ''window title fingerprint'',
           require_fingerprint fr ''frame fingerprint'',
           require_opt_fingerprint target ''target fingerprint'',
           require_opt_fingerprint semantic ''semantic fingerprint''])
       (\<lambda>_. bind_res (safe_evidence_ref evidence) (\<lambda>evidence.
        bind_res (safe_text summary ''observation summary'') (\<lambda>summary.
        bind_res (ok_or (checked_add env captured (seconds FRESHNESS_SECS))
                    ''computer use observation freshness window overflowed'') (\<lambda>valid_until.
          Inr \<lparr>ob_id = new_id, ob_phase = phase,
               ob_fingerprint =
                 observation_hash env new_id phase app process window title fr target semantic
                   evidence captured valid_until,
               ob_application = app, ob_process = process, ob_window = window,
               ob_window_title = title, ob_frame = fr, ob_target = target,
               ob_semantic = semantic, ob_evidence_ref = evidence, ob_summary = summary,
               ob_captured_at = captured, ob_valid_until = valid_until\<rparr>))))"

definition require_fresh_at :: "observation \<Rightarrow> instant \<Rightarrow> unit res" where
  "require_fresh_at ob now =
     all_ok
       [fail_if (now < ob_captured_at ob)
          ''computer use observation timestamp is in the future'',
        fail_if (now > ob_valid_until ob)
          ''computer use observation is stale; re-observation and a new approval are required'']"

definition observation_validate :: "cu_env \<Rightarrow> observation \<Rightarrow> unit res" where
  "observation_validate env ob =
     all_ok
       [fail_if (is_nil (ob_id ob)) ''computer use observation identity is invalid'',
        require_fingerprint (ob_fingerprint ob) ''observation fingerprint'',
        require_fingerprint (ob_application ob) ''application fingerprint'',
        require_fingerprint (ob_process ob) ''process fingerprint'',
        require_fingerprint (ob_window ob) ''window fingerprint'',
        require_fingerprint (ob_window_title ob) ''window title fingerprint'',
        require_fingerprint (ob_frame ob) ''frame fingerprint'',
        require_opt_fingerprint (ob_target ob) ''target fingerprint'',
        require_opt_fingerprint (ob_semantic ob) ''semantic fingerprint'',
        discard (safe_evidence_ref (ob_evidence_ref ob)),
        discard (safe_text (ob_summary ob) ''observation summary''),
        (case checked_add env (ob_captured_at ob) (seconds FRESHNESS_SECS) of
           None \<Rightarrow> Inl ''computer use observation freshness window overflowed''
         | Some expected \<Rightarrow>
             fail_if (ob_valid_until ob \<noteq> expected)
               ''computer use observation freshness window is inconsistent''),
        fail_if
          (observation_hash env (ob_id ob) (ob_phase ob) (ob_application ob) (ob_process ob)
             (ob_window ob) (ob_window_title ob) (ob_frame ob) (ob_target ob) (ob_semantic ob)
             (ob_evidence_ref ob) (ob_captured_at ob) (ob_valid_until ob) \<noteq> ob_fingerprint ob)
          ''computer use observation fingerprint is inconsistent'']"

section \<open>Action bindings\<close>

definition binding_parts ::
    "cu_env \<Rightarrow> string \<Rightarrow> string \<Rightarrow> string \<Rightarrow> string \<Rightarrow> string \<Rightarrow> string \<Rightarrow> string \<Rightarrow> control_action
     \<Rightarrow> postcondition \<Rightarrow> string list" where
  "binding_parts env pre app process window title fr target action post =
     [CONTRACT_VERSION, pre, app, process, window, title, fr, target,
      env_action_json env action, env_postcondition_json env post]"

definition binding_new ::
    "cu_env \<Rightarrow> observation \<Rightarrow> control_action \<Rightarrow> string \<Rightarrow> postcondition \<Rightarrow> action_binding res" where
  "binding_new env pre action summary post =
     (if ob_phase pre \<noteq> PreAction
      then Inl ''computer use action requires a pre-action observation''
      else bind_res (ok_or (ob_target pre)
                       ''computer use action requires an exact target fingerprint'') (\<lambda>target.
        bind_res (validate_postcondition post) (\<lambda>_.
        bind_res (safe_text summary ''action summary'') (\<lambda>summary.
          Inr \<lparr>ab_action = action, ab_summary = summary,
               ab_pre_observation = ob_fingerprint pre, ab_application = ob_application pre,
               ab_process = ob_process pre, ab_window = ob_window pre,
               ab_window_title = ob_window_title pre, ab_frame = ob_frame pre,
               ab_target = target, ab_pre_semantic = ob_semantic pre,
               ab_postcondition = post,
               ab_fingerprint =
                 hash_parts env
                   (binding_parts env (ob_fingerprint pre) (ob_application pre) (ob_process pre)
                      (ob_window pre) (ob_window_title pre) (ob_frame pre) target action
                      post)\<rparr>))))"

definition binding_validate :: "cu_env \<Rightarrow> action_binding \<Rightarrow> unit res" where
  "binding_validate env a =
     all_ok
       [require_fingerprint (ab_pre_observation a) ''pre-observation fingerprint'',
        require_fingerprint (ab_application a) ''application fingerprint'',
        require_fingerprint (ab_process a) ''process fingerprint'',
        require_fingerprint (ab_window a) ''window fingerprint'',
        require_fingerprint (ab_window_title a) ''pre-action window title fingerprint'',
        require_fingerprint (ab_frame a) ''frame fingerprint'',
        require_fingerprint (ab_target a) ''target fingerprint'',
        require_opt_fingerprint (ab_pre_semantic a) ''pre-action semantic fingerprint'',
        require_fingerprint (ab_fingerprint a) ''action fingerprint'',
        discard (safe_text (ab_summary a) ''action summary''),
        validate_postcondition (ab_postcondition a),
        fail_if
          (hash_parts env
             (binding_parts env (ab_pre_observation a) (ab_application a) (ab_process a)
                (ab_window a) (ab_window_title a) (ab_frame a) (ab_target a) (ab_action a)
                (ab_postcondition a)) \<noteq> ab_fingerprint a)
          ''computer use action fingerprint is inconsistent'']"

text \<open>The binding of an action to the observation it was chosen on, field by field.\<close>

definition binding_mismatch :: "action_binding \<Rightarrow> observation \<Rightarrow> bool" where
  "binding_mismatch a pre \<longleftrightarrow>
     ab_pre_observation a \<noteq> ob_fingerprint pre
     \<or> ab_application a \<noteq> ob_application pre
     \<or> ab_process a \<noteq> ob_process pre
     \<or> ab_window a \<noteq> ob_window pre
     \<or> ab_window_title a \<noteq> ob_window_title pre
     \<or> ab_frame a \<noteq> ob_frame pre
     \<or> ob_target pre \<noteq> Some (ab_target a)
     \<or> ab_pre_semantic a \<noteq> ob_semantic pre"

definition post_scope_mismatch :: "observation \<Rightarrow> action_binding \<Rightarrow> bool" where
  "post_scope_mismatch ob a \<longleftrightarrow>
     ob_application ob \<noteq> ab_application a \<or> ob_process ob \<noteq> ab_process a
     \<or> ob_window ob \<noteq> ab_window a \<or> ob_frame ob \<noteq> ab_frame a"

text \<open>The deterministic postcondition, on the semantic fingerprint after the action.\<close>

definition postcondition_satisfied :: "action_binding \<Rightarrow> string \<Rightarrow> bool" where
  "postcondition_satisfied a post_semantic \<longleftrightarrow>
     (case ab_postcondition a of
        FingerprintEquals expected \<Rightarrow> post_semantic = expected
      | FingerprintChanged \<Rightarrow> is_some_and (ab_pre_semantic a) (\<lambda>before. before \<noteq> post_semantic))"

section \<open>Steps\<close>

fun status_debug :: "step_status \<Rightarrow> string" where
  "status_debug Observed = ''Observed''"
| "status_debug AwaitingApproval = ''AwaitingApproval''"
| "status_debug Ready = ''Ready''"
| "status_debug ActionStarted = ''ActionStarted''"
| "status_debug AwaitingVerification = ''AwaitingVerification''"
| "status_debug Verified = ''Verified''"
| "status_debug NeedsReplan = ''NeedsReplan''"
| "status_debug UserTakenOver = ''UserTakenOver''"
| "status_debug EffectUnknown = ''EffectUnknown''"
| "status_debug VerificationFailed = ''VerificationFailed''"
| "status_debug Cancelled = ''Cancelled''"

definition require_status :: "cu_step \<Rightarrow> step_status \<Rightarrow> string \<Rightarrow> unit res" where
  "require_status s expected operation =
     fail_if (st_status s \<noteq> expected)
       (''computer use step in '' @ status_debug (st_status s) @ '' cannot '' @ operation)"

definition transition :: "cu_step \<Rightarrow> step_status \<Rightarrow> string \<Rightarrow> instant \<Rightarrow> cu_step" where
  "transition s status reason now =
     s\<lparr>st_status := status, st_reason := Some reason, st_revision := sat_inc (st_revision s),
       st_updated_at := now\<rparr>"

definition new_observed ::
    "uuid \<Rightarrow> uuid \<Rightarrow> uuid \<Rightarrow> u32 \<Rightarrow> observation \<Rightarrow> undo_capability \<Rightarrow> instant \<Rightarrow> cu_step res" where
  "new_observed new_id checkpoint_id session_id seqno pre undo now =
     (if seqno = 0 then Inl ''computer use step sequence must be positive''
      else if ob_phase pre \<noteq> PreAction
      then Inl ''computer use step requires a pre-action observation''
      else Inr
        \<lparr>st_contract_version = CONTRACT_VERSION, st_id = new_id, st_session_id = session_id,
         st_sequence = seqno, st_status = Observed, st_revision = 0, st_pre = pre,
         st_action = None, st_approval_id = None, st_approval_actor = None,
         st_started_at = None, st_start_count = 0, st_post = None, st_verification = None,
         st_checkpoint = \<lparr>cp_id = checkpoint_id, cp_undo = undo, cp_action_fingerprint = None,
                          cp_created_at = now\<rparr>,
         st_reason = None, st_created_at = now, st_updated_at = now\<rparr>)"

definition bind_action :: "cu_env \<Rightarrow> cu_step \<Rightarrow> action_binding \<Rightarrow> instant \<Rightarrow> cu_step res" where
  "bind_action env s a now =
     bind_res
       (all_ok
          [require_status s Observed ''bind an action'',
           require_fresh_at (st_pre s) now,
           fail_if (binding_mismatch a (st_pre s))
             ''computer use action is not bound to the current pre-action observation'',
           fail_if (ab_postcondition a = FingerprintChanged \<and> ab_pre_semantic a = None)
             ''changed-state verification requires a semantic pre-action fingerprint'',
           binding_validate env a])
       (\<lambda>_. Inr (transition
          (s\<lparr>st_checkpoint := (st_checkpoint s)\<lparr>cp_action_fingerprint := Some (ab_fingerprint a)\<rparr>,
             st_action := Some a\<rparr>)
          AwaitingApproval ''Exact desktop action is waiting for approval.'' now))"

definition approve ::
    "cu_step \<Rightarrow> uuid \<Rightarrow> string \<Rightarrow> approval_actor \<Rightarrow> instant \<Rightarrow> cu_step res" where
  "approve s request_id approved_fingerprint actor now =
     bind_res
       (all_ok
          [require_status s AwaitingApproval ''bind an approval'',
           fail_if (actor \<noteq> User)
             ''computer use approval authority can only come from a local user decision'',
           require_fresh_at (st_pre s) now,
           fail_if (is_nil request_id) ''computer use approval request id is invalid'',
           require_fingerprint approved_fingerprint ''approved action fingerprint'',
           bind_res (ok_or (st_action s) ''computer use step has no exact action to approve'')
             (\<lambda>a. fail_if (ab_fingerprint a \<noteq> approved_fingerprint)
                ''computer use approval is stale or bound to another action'')])
       (\<lambda>_. Inr (transition
          (s\<lparr>st_approval_id := Some request_id, st_approval_actor := Some actor\<rparr>)
          Ready ''Exact desktop action is approved and ready for revalidation.'' now))"

definition mark_action_started ::
    "cu_step \<Rightarrow> uuid \<Rightarrow> string \<Rightarrow> string \<Rightarrow> string \<Rightarrow> string \<Rightarrow> string \<Rightarrow> string \<Rightarrow> instant
     \<Rightarrow> cu_step res" where
  "mark_action_started s request_id app process window title fr target now =
     bind_res
       (all_ok
          [require_status s Ready ''start the external desktop action'',
           fail_if (st_start_count s \<noteq> 0 \<or> st_started_at s \<noteq> None)
             ''computer use action has already started and cannot be replayed'',
           fail_if (st_approval_id s \<noteq> Some request_id)
             ''computer use approval does not match the ready step'',
           fail_if (st_approval_actor s \<noteq> Some User)
             ''computer use step lacks local-user approval authority'',
           require_fingerprint app ''current application fingerprint'',
           require_fingerprint process ''current process fingerprint'',
           require_fingerprint window ''current window fingerprint'',
           require_fingerprint title ''current window title fingerprint'',
           require_fingerprint fr ''current frame fingerprint'',
           require_fingerprint target ''current target fingerprint'',
           bind_res (ok_or (st_action s) ''computer use step has no exact action'') (\<lambda>a.
             all_ok
               [fail_if (ab_application a \<noteq> app)
                  ''foreground application changed after approval; re-observation is required'',
                fail_if (ab_process a \<noteq> process)
                  ''foreground process changed after approval; re-observation is required'',
                fail_if (ab_window a \<noteq> window)
                  ''foreground window changed after approval; re-observation is required'',
                fail_if (ab_window_title a \<noteq> title)
                  ''foreground window title changed after approval; re-observation is required'',
                fail_if (ab_frame a \<noteq> fr)
                  ''foreground frame changed after approval; re-observation is required'',
                fail_if (ab_target a \<noteq> target)
                  ''computer use target changed after approval; re-observation is required''])])
       (\<lambda>_. Inr (transition (s\<lparr>st_started_at := Some now, st_start_count := 1\<rparr>) ActionStarted
          ''ActionStarted was durably recorded before the external desktop effect.'' now))"

definition record_post_observation ::
    "cu_env \<Rightarrow> cu_step \<Rightarrow> observation \<Rightarrow> instant \<Rightarrow> cu_step res" where
  "record_post_observation env s ob now =
     bind_res
       (all_ok
          [require_status s ActionStarted ''record a post-action observation'',
           fail_if (ob_phase ob \<noteq> PostAction)
             ''computer use post-action evidence has the wrong phase'',
           observation_validate env ob,
           bind_res (ok_or (st_action s) ''computer use step has no exact action'') (\<lambda>a.
             all_ok
               [fail_if (post_scope_mismatch ob a)
                  ''post-action observation is bound to a different application, process, window, or frame'',
                fail_if (ob_target ob \<noteq> Some (ab_target a))
                  ''post-action observation is bound to a different target'']),
           fail_if (is_some_and (st_started_at s) (\<lambda>started. ob_captured_at ob < started))
             ''post-action observation predates ActionStarted''])
       (\<lambda>_. Inr (transition (s\<lparr>st_post := Some ob\<rparr>) AwaitingVerification
          ''Post-action evidence was captured and awaits deterministic verification.'' now))"

definition record_verification :: "cu_step \<Rightarrow> verification_receipt \<Rightarrow> cu_step res" where
  "record_verification s receipt =
     bind_res
       (all_ok
          [require_status s AwaitingVerification ''record verification'',
           fail_if (is_nil (vr_id receipt))
             ''computer use verification receipt id is invalid''])
       (\<lambda>_. bind_res (safe_text (vr_summary receipt) ''verification summary'') (\<lambda>summary.
        bind_res (ok_or (st_action s) ''computer use step has no exact action'') (\<lambda>a.
        bind_res (ok_or (st_post s) ''computer use step has no post-action observation'') (\<lambda>post.
        bind_res
          (all_ok
             [fail_if (vr_action_fingerprint receipt \<noteq> ab_fingerprint a
                       \<or> vr_post_fingerprint receipt \<noteq> ob_fingerprint post)
                ''computer use verification is stale or bound to another action'',
              fail_if (vr_verified_at receipt < ob_captured_at post)
                ''computer use verification predates its evidence''])
          (\<lambda>_. bind_res
             (case vr_outcome receipt of
                OutcomeVerified \<Rightarrow>
                  bind_res (ok_or (ob_semantic post)
                     ''screenshot-only evidence cannot prove a semantic postcondition'')
                    (\<lambda>post_semantic.
                       if \<not> postcondition_satisfied a post_semantic
                       then Inl ''computer use evidence does not satisfy the deterministic postcondition''
                       else Inr Verified)
              | OutcomeEvidenceOnly \<Rightarrow> Inr AwaitingVerification
              | OutcomeFailed \<Rightarrow> Inr VerificationFailed)
             (\<lambda>next_status. Inr (transition (s\<lparr>st_verification := Some receipt\<rparr>) next_status
                summary (vr_verified_at receipt))))))))"

definition take_over :: "cu_step \<Rightarrow> string \<Rightarrow> instant \<Rightarrow> cu_step res" where
  "take_over s reason now =
     (if st_status s \<in> {Verified, NeedsReplan, UserTakenOver, EffectUnknown,
                         VerificationFailed, Cancelled}
      then Inl (''computer use step in '' @ status_debug (st_status s) @ '' cannot be taken over'')
      else bind_res (safe_text reason ''takeover reason'') (\<lambda>reason.
        Inr (transition s UserTakenOver reason now)))"

text \<open>
  The approval is cleared before the reason is checked: a refused call returns the error and leaves
  the step changed, so the step is returned on every path.
\<close>

definition require_replan :: "cu_step \<Rightarrow> string \<Rightarrow> instant \<Rightarrow> unit res \<times> cu_step" where
  "require_replan s reason now =
     (if st_status s \<notin> {Observed, AwaitingApproval, Ready}
      then (Inl (''computer use step in '' @ status_debug (st_status s)
                 @ '' cannot require replanning''), s)
      else let s = s\<lparr>st_approval_id := None, st_approval_actor := None\<rparr> in
        (case safe_text reason ''replan reason'' of
           Inl e \<Rightarrow> (Inl e, s)
         | Inr reason \<Rightarrow> (Inr (), transition s NeedsReplan reason now)))"

definition mark_effect_unknown :: "cu_step \<Rightarrow> string \<Rightarrow> instant \<Rightarrow> cu_step res" where
  "mark_effect_unknown s reason now =
     bind_res (require_status s ActionStarted ''mark its external effect unknown'') (\<lambda>_.
     bind_res (safe_text reason ''effect unknown reason'') (\<lambda>reason.
       Inr (transition s EffectUnknown reason now)))"

definition cancel :: "cu_step \<Rightarrow> string \<Rightarrow> instant \<Rightarrow> cu_step res" where
  "cancel s reason now =
     (if st_status s \<notin> {Observed, AwaitingApproval, Ready, NeedsReplan, UserTakenOver,
                            VerificationFailed}
      then Inl (''computer use step in '' @ status_debug (st_status s) @ '' cannot be cancelled'')
      else bind_res (safe_text reason ''cancellation reason'') (\<lambda>reason.
        Inr (transition s Cancelled reason now)))"

section \<open>Validation of a stored step\<close>

definition validate_action_part :: "cu_env \<Rightarrow> cu_step \<Rightarrow> unit res" where
  "validate_action_part env s =
     (case st_action s of
        Some a \<Rightarrow>
          all_ok
            [binding_validate env a,
             fail_if (binding_mismatch a (st_pre s)
                      \<or> cp_action_fingerprint (st_checkpoint s) \<noteq> Some (ab_fingerprint a))
               ''computer use action binding is inconsistent'']
      | None \<Rightarrow>
          fail_if (cp_action_fingerprint (st_checkpoint s) \<noteq> None)
            ''computer use checkpoint action binding is inconsistent'')"

definition validate_post_part :: "cu_env \<Rightarrow> cu_step \<Rightarrow> unit res" where
  "validate_post_part env s =
     (case st_post s of None \<Rightarrow> Inr ()
      | Some ob \<Rightarrow>
          all_ok
            [observation_validate env ob,
             fail_if (ob_phase ob \<noteq> PostAction)
               ''computer use post-observation phase is invalid'',
             bind_res (ok_or (st_action s)
                         ''computer use post-observation has no exact action binding'') (\<lambda>a.
               fail_if (post_scope_mismatch ob a \<or> ob_target ob \<noteq> Some (ab_target a))
                 ''computer use post-observation is bound to another application, process, window, frame, or target''),
             fail_if (is_none_or (st_started_at s) (\<lambda>started. ob_captured_at ob < started))
               ''computer use post-observation is not ordered after ActionStarted''])"

definition validate_receipt_part :: "cu_step \<Rightarrow> unit res" where
  "validate_receipt_part s =
     (case st_verification s of None \<Rightarrow> Inr ()
      | Some r \<Rightarrow>
          all_ok
            [fail_if (is_nil (vr_id r)) ''computer use verification receipt identity is invalid'',
             require_fingerprint (vr_action_fingerprint r) ''verification action fingerprint'',
             require_fingerprint (vr_post_fingerprint r)
               ''verification post-observation fingerprint'',
             discard (safe_text (vr_summary r) ''verification summary''),
             bind_res (ok_or (st_action s)
                         ''computer use verification has no exact action binding'') (\<lambda>a.
             bind_res (ok_or (st_post s)
                         ''computer use verification has no post-action evidence binding'') (\<lambda>post.
               all_ok
                 [fail_if (vr_action_fingerprint r \<noteq> ab_fingerprint a
                           \<or> vr_post_fingerprint r \<noteq> ob_fingerprint post
                           \<or> vr_verified_at r < ob_captured_at post)
                    ''computer use verification binding is inconsistent'',
                  fail_if (st_status s = AwaitingVerification \<and> vr_outcome r \<noteq> OutcomeEvidenceOnly)
                    ''computer use pending verification has an inconsistent outcome'',
                  fail_if (st_status s = VerificationFailed \<and> vr_outcome r \<noteq> OutcomeFailed)
                    ''computer use failed verification lacks a failed receipt'',
                  (if vr_outcome r = OutcomeVerified
                   then bind_res (ok_or (ob_semantic post)
                          ''computer use verified receipt lacks bounded semantic evidence'')
                         (\<lambda>sem. fail_if (\<not> postcondition_satisfied a sem)
                            ''computer use verified receipt does not satisfy its deterministic postcondition'')
                   else Inr ())]))])"

definition action_required :: "step_status \<Rightarrow> bool" where
  "action_required st \<longleftrightarrow> st \<in> {AwaitingApproval, Ready, ActionStarted, AwaitingVerification,
     Verified, EffectUnknown, VerificationFailed}"

definition approval_required :: "step_status \<Rightarrow> bool" where
  "approval_required st \<longleftrightarrow> st \<in> {Ready, ActionStarted, AwaitingVerification, Verified,
     EffectUnknown, VerificationFailed}"

definition started_required :: "step_status \<Rightarrow> bool" where
  "started_required st \<longleftrightarrow> st \<in> {ActionStarted, AwaitingVerification, Verified, EffectUnknown,
     VerificationFailed}"

definition post_required :: "step_status \<Rightarrow> bool" where
  "post_required st \<longleftrightarrow> st \<in> {AwaitingVerification, Verified, VerificationFailed}"

definition validate_status_part :: "cu_step \<Rightarrow> unit res" where
  "validate_status_part s =
     all_ok
       [fail_if (action_required (st_status s) \<and> st_action s = None)
          ''computer use step status requires an exact action'',
        fail_if ((st_approval_id s \<noteq> None) \<noteq> (st_approval_actor s \<noteq> None))
          ''computer use approval identity and actor are inconsistent'',
        fail_if (is_some_and (st_approval_id s) is_nil)
          ''computer use approval request id is invalid'',
        fail_if (is_some_and (st_approval_actor s) (\<lambda>actor. actor \<noteq> User))
          ''computer use approval evidence can only name a local user actor'',
        fail_if (approval_required (st_status s)
                 \<and> (st_approval_id s = None \<or> st_approval_actor s \<noteq> Some User))
          ''computer use step status requires exact local-user approval'',
        fail_if (started_required (st_status s)
                 \<and> (st_started_at s = None \<or> st_start_count s \<noteq> 1))
          ''computer use step status requires one ActionStarted record'',
        fail_if (post_required (st_status s) \<and> st_post s = None)
          ''computer use step status requires post-action evidence'',
        fail_if (st_status s = Verified
                 \<and> \<not> is_some_and (st_verification s) (\<lambda>r. vr_outcome r = OutcomeVerified))
          ''verified computer use step lacks a verified receipt'']"

definition step_validate :: "cu_env \<Rightarrow> cu_step \<Rightarrow> unit res" where
  "step_validate env s =
     all_ok
       [fail_if (st_contract_version s \<noteq> CONTRACT_VERSION \<or> is_nil (st_id s)
                 \<or> is_nil (st_session_id s) \<or> st_sequence s = 0)
          ''computer use step identity is invalid'',
        observation_validate env (st_pre s),
        fail_if (ob_phase (st_pre s) \<noteq> PreAction)
          ''computer use step pre-observation phase is invalid'',
        fail_if (is_nil (cp_id (st_checkpoint s)))
          ''computer use checkpoint identity is invalid'',
        fail_if (st_start_count s > 1 \<or> (st_start_count s = 1) \<noteq> (st_started_at s \<noteq> None))
          ''computer use ActionStarted record is inconsistent'',
        validate_action_part env s,
        validate_post_part env s,
        validate_receipt_part s,
        validate_status_part s]"

definition recover_after_restart :: "cu_env \<Rightarrow> cu_step \<Rightarrow> instant \<Rightarrow> cu_step res" where
  "recover_after_restart env s now =
     bind_res (step_validate env s) (\<lambda>_.
       Inr (if st_status s \<in> {Observed, AwaitingApproval, Ready}
            then transition (s\<lparr>st_approval_id := None, st_approval_actor := None\<rparr>) NeedsReplan
                   ''Desktop state may have changed after restart; re-observation is required.'' now
            else if st_status s = ActionStarted
            then transition s EffectUnknown
                   ''The desktop action may have produced an external effect before restart; automatic replay is blocked.'' now
            else s))"

section \<open>The step relation\<close>

text \<open>
  One rule per operation that succeeds, and for \<open>require_replan\<close> one rule for every outcome: any other
  operation that returns an error leaves the step as it was.
\<close>

inductive cu_next :: "cu_env \<Rightarrow> cu_step \<Rightarrow> cu_step \<Rightarrow> bool" for env where
  next_bind: "bind_action env s a now = Inr t \<Longrightarrow> cu_next env s t"
| next_approve: "approve s request_id fp actor now = Inr t \<Longrightarrow> cu_next env s t"
| next_start: "mark_action_started s request_id app process window title fr target now = Inr t \<Longrightarrow>
     cu_next env s t"
| next_post: "record_post_observation env s ob now = Inr t \<Longrightarrow> cu_next env s t"
| next_verify: "record_verification s receipt = Inr t \<Longrightarrow> cu_next env s t"
| next_take_over: "take_over s reason now = Inr t \<Longrightarrow> cu_next env s t"
| next_replan: "require_replan s reason now = (r, t) \<Longrightarrow> cu_next env s t"
| next_unknown: "mark_effect_unknown s reason now = Inr t \<Longrightarrow> cu_next env s t"
| next_recover: "recover_after_restart env s now = Inr t \<Longrightarrow> cu_next env s t"
| next_cancel: "cancel s reason now = Inr t \<Longrightarrow> cu_next env s t"

definition cu_valid :: "cu_env \<Rightarrow> cu_step \<Rightarrow> bool" where
  "cu_valid env s \<longleftrightarrow> step_validate env s = Inr ()"

section \<open>What a successful operation did\<close>

lemma transition_sel [simp]:
  "st_status (transition s st r t) = st" "st_reason (transition s st r t) = Some r"
  "st_revision (transition s st r t) = sat_inc (st_revision s)"
  "st_updated_at (transition s st r t) = t"
  "st_contract_version (transition s st r t) = st_contract_version s"
  "st_id (transition s st r t) = st_id s" "st_session_id (transition s st r t) = st_session_id s"
  "st_sequence (transition s st r t) = st_sequence s" "st_pre (transition s st r t) = st_pre s"
  "st_action (transition s st r t) = st_action s"
  "st_approval_id (transition s st r t) = st_approval_id s"
  "st_approval_actor (transition s st r t) = st_approval_actor s"
  "st_started_at (transition s st r t) = st_started_at s"
  "st_start_count (transition s st r t) = st_start_count s"
  "st_post (transition s st r t) = st_post s"
  "st_verification (transition s st r t) = st_verification s"
  "st_checkpoint (transition s st r t) = st_checkpoint s"
  by (simp_all add: transition_def)

lemma require_fingerprint_iff [simp, res_simps]:
  "require_fingerprint v f = Inr () \<longleftrightarrow> is_fingerprint v"
  by (simp add: require_fingerprint_def is_fingerprint_def)

lemma require_opt_fingerprint_iff [simp, res_simps]:
  "require_opt_fingerprint v f = Inr () \<longleftrightarrow> (\<forall>x. v = Some x \<longrightarrow> is_fingerprint x)"
  by (cases v) (simp_all add: require_opt_fingerprint_def)

lemma require_status_iff [simp, res_simps]: "require_status s e f = Inr () \<longleftrightarrow> st_status s = e"
  by (simp add: require_status_def)

lemma safe_text_Inr_iff [res_simps]:
  "safe_text v f = Inr w \<longleftrightarrow> w = trim v \<and> w \<noteq> [] \<and> char_count w \<le> MAX_SAFE_SUMMARY_CHARS"
  by (auto simp: safe_text_def Let_def not_less)

lemma safe_text_ok_iff [res_simps]:
  "is_ok (safe_text v f) \<longleftrightarrow> trim v \<noteq> [] \<and> char_count (trim v) \<le> MAX_SAFE_SUMMARY_CHARS"
  by (auto simp: safe_text_def Let_def)

lemma bind_unit_Inr_iff [res_simps]:
  "bind_res m (\<lambda>_. k) = Inr t \<longleftrightarrow> m = Inr () \<and> k = Inr t" for m :: "unit res"
  by (cases m) auto

lemma bind_action_Inr:
  "bind_action env s a now = Inr t \<longleftrightarrow>
     st_status s = Observed \<and> require_fresh_at (st_pre s) now = Inr () \<and>
     \<not> binding_mismatch a (st_pre s) \<and>
     \<not> (ab_postcondition a = FingerprintChanged \<and> ab_pre_semantic a = None) \<and>
     binding_validate env a = Inr () \<and>
     t = transition
          (s\<lparr>st_checkpoint := (st_checkpoint s)\<lparr>cp_action_fingerprint := Some (ab_fingerprint a)\<rparr>,
             st_action := Some a\<rparr>)
          AwaitingApproval ''Exact desktop action is waiting for approval.'' now"
  unfolding bind_action_def bind_unit_Inr_iff all_ok_Inr_iff by auto

lemma approve_Inr:
  "approve s q fp actor now = Inr t \<longleftrightarrow>
     st_status s = AwaitingApproval \<and> actor = User \<and> require_fresh_at (st_pre s) now = Inr () \<and>
     \<not> is_nil q \<and> is_fingerprint fp \<and> (\<exists>a. st_action s = Some a \<and> ab_fingerprint a = fp) \<and>
     t = transition (s\<lparr>st_approval_id := Some q, st_approval_actor := Some User\<rparr>) Ready
           ''Exact desktop action is approved and ready for revalidation.'' now"
  unfolding approve_def bind_unit_Inr_iff all_ok_Inr_iff
  by (cases "st_action s") auto

lemma mark_action_started_Inr:
  "mark_action_started s q app process window title fr target now = Inr t \<Longrightarrow>
     st_status s = Ready \<and> st_start_count s = 0 \<and> st_started_at s = None \<and>
     st_approval_id s = Some q \<and> st_approval_actor s = Some User \<and>
     (\<exists>a. st_action s = Some a \<and> ab_application a = app \<and> ab_process a = process \<and>
          ab_window a = window \<and> ab_window_title a = title \<and> ab_frame a = fr \<and>
          ab_target a = target) \<and>
     t = transition (s\<lparr>st_started_at := Some now, st_start_count := 1\<rparr>) ActionStarted
           ''ActionStarted was durably recorded before the external desktop effect.'' now"
  unfolding mark_action_started_def bind_unit_Inr_iff all_ok_Inr_iff
  by (cases "st_action s") auto

lemma record_post_observation_Inr:
  "record_post_observation env s ob now = Inr t \<Longrightarrow>
     st_status s = ActionStarted \<and> ob_phase ob = PostAction \<and> observation_validate env ob = Inr () \<and>
     (\<exists>a. st_action s = Some a \<and> \<not> post_scope_mismatch ob a \<and> ob_target ob = Some (ab_target a)) \<and>
     \<not> is_some_and (st_started_at s) (\<lambda>started. ob_captured_at ob < started) \<and>
     t = transition (s\<lparr>st_post := Some ob\<rparr>) AwaitingVerification
           ''Post-action evidence was captured and awaits deterministic verification.'' now"
  unfolding record_post_observation_def bind_unit_Inr_iff all_ok_Inr_iff
  by (cases "st_action s") auto

definition next_of :: "verification_outcome \<Rightarrow> step_status" where
  "next_of out = (case out of OutcomeVerified \<Rightarrow> Verified
     | OutcomeEvidenceOnly \<Rightarrow> AwaitingVerification | OutcomeFailed \<Rightarrow> VerificationFailed)"

lemma record_verification_Inr:
  "record_verification s r = Inr t \<Longrightarrow>
     st_status s = AwaitingVerification \<and> \<not> is_nil (vr_id r) \<and>
     is_ok (safe_text (vr_summary r) ''verification summary'') \<and>
     (\<exists>a post. st_action s = Some a \<and> st_post s = Some post \<and>
        vr_action_fingerprint r = ab_fingerprint a \<and> vr_post_fingerprint r = ob_fingerprint post \<and>
        ob_captured_at post \<le> vr_verified_at r \<and>
        (vr_outcome r = OutcomeVerified \<longrightarrow>
           (\<exists>sem. ob_semantic post = Some sem \<and> postcondition_satisfied a sem))) \<and>
     t = transition (s\<lparr>st_verification := Some r\<rparr>) (next_of (vr_outcome r))
           (trim (vr_summary r)) (vr_verified_at r)"
  unfolding record_verification_def bind_unit_Inr_iff all_ok_Inr_iff
  by (cases "vr_outcome r")
     (auto simp: bind_res_Inr_iff ok_or_Inr_iff next_of_def safe_text_Inr_iff safe_text_ok_iff
        not_less split: if_splits)

lemma take_over_Inr:
  "take_over s reason now = Inr t \<Longrightarrow>
     st_status s \<in> {Observed, AwaitingApproval, Ready, ActionStarted, AwaitingVerification} \<and>
     t = transition s UserTakenOver (trim reason) now"
  unfolding take_over_def
  by (cases "st_status s") (auto simp: bind_res_Inr_iff safe_text_Inr_iff)

lemma require_replan_outcome:
  "require_replan s reason now = (r, t) \<Longrightarrow>
     (t = s \<and> st_status s \<notin> {Observed, AwaitingApproval, Ready} \<and> \<not> is_ok r) \<or>
     (st_status s \<in> {Observed, AwaitingApproval, Ready} \<and> \<not> is_ok r \<and>
      t = s\<lparr>st_approval_id := None, st_approval_actor := None\<rparr>) \<or>
     (st_status s \<in> {Observed, AwaitingApproval, Ready} \<and> is_ok r \<and>
      t = transition (s\<lparr>st_approval_id := None, st_approval_actor := None\<rparr>) NeedsReplan (trim reason) now)"
proof -
  assume a: "require_replan s reason now = (r, t)"
  show ?thesis
  proof (cases "safe_text reason ''replan reason''")
    case (Inl e)
    then show ?thesis using a by (auto simp: require_replan_def Let_def split: if_splits)
  next
    case (Inr x)
    then have "x = trim reason" by (simp add: safe_text_Inr_iff)
    then show ?thesis using a Inr by (auto simp: require_replan_def Let_def split: if_splits)
  qed
qed

lemma mark_effect_unknown_Inr:
  "mark_effect_unknown s reason now = Inr t \<Longrightarrow>
     st_status s = ActionStarted \<and> t = transition s EffectUnknown (trim reason) now"
  unfolding mark_effect_unknown_def
  by (auto simp: bind_res_Inr_iff safe_text_Inr_iff)

lemma cancel_Inr:
  "cancel s reason now = Inr t \<Longrightarrow>
     st_status s \<in> {Observed, AwaitingApproval, Ready, NeedsReplan, UserTakenOver,
                     VerificationFailed} \<and>
     t = transition s Cancelled (trim reason) now"
  unfolding cancel_def
  by (auto simp: bind_res_Inr_iff safe_text_Inr_iff split: if_splits)

section \<open>Validity as a conjunction\<close>

definition action_bound :: "cu_env \<Rightarrow> cu_step \<Rightarrow> bool" where
  "action_bound env s \<longleftrightarrow>
     (case st_action s of None \<Rightarrow> cp_action_fingerprint (st_checkpoint s) = None
      | Some a \<Rightarrow> binding_validate env a = Inr () \<and> \<not> binding_mismatch a (st_pre s) \<and>
          cp_action_fingerprint (st_checkpoint s) = Some (ab_fingerprint a))"

definition post_bound :: "cu_env \<Rightarrow> cu_step \<Rightarrow> bool" where
  "post_bound env s \<longleftrightarrow>
     (\<forall>ob. st_post s = Some ob \<longrightarrow> observation_validate env ob = Inr () \<and> ob_phase ob = PostAction \<and>
        (\<exists>a start. st_action s = Some a \<and> st_started_at s = Some start \<and>
           \<not> post_scope_mismatch ob a \<and> ob_target ob = Some (ab_target a) \<and>
           start \<le> ob_captured_at ob))"

definition receipt_bound :: "cu_step \<Rightarrow> bool" where
  "receipt_bound s \<longleftrightarrow>
     (\<forall>r. st_verification s = Some r \<longrightarrow>
        \<not> is_nil (vr_id r) \<and> is_fingerprint (vr_action_fingerprint r) \<and>
        is_fingerprint (vr_post_fingerprint r) \<and> is_ok (safe_text (vr_summary r) ''verification summary'') \<and>
        (\<exists>a post. st_action s = Some a \<and> st_post s = Some post \<and>
           vr_action_fingerprint r = ab_fingerprint a \<and> vr_post_fingerprint r = ob_fingerprint post \<and>
           ob_captured_at post \<le> vr_verified_at r \<and>
           (st_status s = AwaitingVerification \<longrightarrow> vr_outcome r = OutcomeEvidenceOnly) \<and>
           (st_status s = VerificationFailed \<longrightarrow> vr_outcome r = OutcomeFailed) \<and>
           (vr_outcome r = OutcomeVerified \<longrightarrow>
              (\<exists>sem. ob_semantic post = Some sem \<and> postcondition_satisfied a sem))))"

definition status_bound :: "cu_step \<Rightarrow> bool" where
  "status_bound s \<longleftrightarrow>
     \<not> (action_required (st_status s) \<and> st_action s = None) \<and>
     (st_approval_id s \<noteq> None) = (st_approval_actor s \<noteq> None) \<and>
     \<not> is_some_and (st_approval_id s) is_nil \<and>
     \<not> is_some_and (st_approval_actor s) (\<lambda>actor. actor \<noteq> User) \<and>
     \<not> (approval_required (st_status s) \<and>
        (st_approval_id s = None \<or> st_approval_actor s \<noteq> Some User)) \<and>
     \<not> (started_required (st_status s) \<and> (st_started_at s = None \<or> st_start_count s \<noteq> 1)) \<and>
     \<not> (post_required (st_status s) \<and> st_post s = None) \<and>
     \<not> (st_status s = Verified \<and>
        \<not> is_some_and (st_verification s) (\<lambda>r. vr_outcome r = OutcomeVerified))"

definition identity_bound :: "cu_env \<Rightarrow> cu_step \<Rightarrow> bool" where
  "identity_bound env s \<longleftrightarrow>
     st_contract_version s = CONTRACT_VERSION \<and> \<not> is_nil (st_id s) \<and> \<not> is_nil (st_session_id s) \<and>
     st_sequence s \<noteq> 0 \<and> observation_validate env (st_pre s) = Inr () \<and>
     ob_phase (st_pre s) = PreAction \<and> \<not> is_nil (cp_id (st_checkpoint s)) \<and>
     st_start_count s \<le> 1 \<and> (st_start_count s = 1 \<longleftrightarrow> st_started_at s \<noteq> None)"

lemma validate_action_part_iff: "validate_action_part env s = Inr () \<longleftrightarrow> action_bound env s"
  by (cases "st_action s") (auto simp: validate_action_part_def action_bound_def)

lemma validate_post_part_iff: "validate_post_part env s = Inr () \<longleftrightarrow> post_bound env s"
  by (cases "st_post s"; cases "st_action s"; cases "st_started_at s")
     (auto simp: validate_post_part_def post_bound_def not_less)

lemma validate_receipt_part_iff: "validate_receipt_part s = Inr () \<longleftrightarrow> receipt_bound s"
proof (cases "st_verification s")
  case None
  then show ?thesis by (simp add: validate_receipt_part_def receipt_bound_def)
next
  case (Some r)
  then show ?thesis
    by (cases "st_action s"; cases "st_post s"; cases "ob_semantic (the (st_post s))")
       (auto simp: validate_receipt_part_def receipt_bound_def not_less)
qed

lemma validate_status_part_iff: "validate_status_part s = Inr () \<longleftrightarrow> status_bound s"
  unfolding validate_status_part_def status_bound_def all_ok_Inr_iff by simp

lemma cu_valid_iff:
  "cu_valid env s \<longleftrightarrow> identity_bound env s \<and> action_bound env s \<and> post_bound env s \<and>
     receipt_bound s \<and> status_bound s"
  unfolding cu_valid_def step_validate_def all_ok_Inr_iff
  by (auto simp: validate_action_part_iff validate_post_part_iff validate_receipt_part_iff
      validate_status_part_iff identity_bound_def not_less)

lemmas required_defs = action_required_def approval_required_def started_required_def
  post_required_def

section \<open>Every operation keeps validity\<close>

text \<open>
  Validity alone is not kept: a stored step in an early status could carry evidence of a later
  one. The invariant adds what the operations keep true: before the action starts there is no
  evidence, and an observed step has no action and no approval.
\<close>

definition stage_clean :: "cu_step \<Rightarrow> bool" where
  "stage_clean s \<longleftrightarrow>
     (st_status s \<in> {Observed, AwaitingApproval, Ready} \<longrightarrow>
        st_start_count s = 0 \<and> st_started_at s = None) \<and>
     (st_status s \<in> {Observed, AwaitingApproval, Ready, ActionStarted} \<longrightarrow>
        st_post s = None \<and> st_verification s = None) \<and>
     (st_status s = Observed \<longrightarrow> st_action s = None) \<and>
     (st_status s \<in> {Observed, AwaitingApproval} \<longrightarrow>
        st_approval_id s = None \<and> st_approval_actor s = None)"

text \<open>A refused call of \<open>require_replan\<close> leaves a ready step without its approval, which is not valid.\<close>

definition approval_lost :: "cu_step \<Rightarrow> bool" where
  "approval_lost s \<longleftrightarrow> st_status s = Ready \<and> st_approval_id s = None \<and> st_approval_actor s = None"

definition cu_inv :: "cu_env \<Rightarrow> cu_step \<Rightarrow> bool" where
  "cu_inv env s \<longleftrightarrow> identity_bound env s \<and> action_bound env s \<and> post_bound env s \<and> receipt_bound s \<and>
     (if approval_lost s then st_action s \<noteq> None else status_bound s) \<and> stage_clean s"

lemma status_not_lost: "status_bound s \<Longrightarrow> \<not> approval_lost s"
  by (auto simp: status_bound_def approval_lost_def required_defs)

lemma cu_invI:
  "identity_bound env s \<Longrightarrow> action_bound env s \<Longrightarrow> post_bound env s \<Longrightarrow> receipt_bound s \<Longrightarrow>
   status_bound s \<Longrightarrow> stage_clean s \<Longrightarrow> cu_inv env s"
  using status_not_lost by (simp add: cu_inv_def)

lemma cu_invD:
  assumes "cu_inv env s"
  shows "identity_bound env s" "action_bound env s" "post_bound env s" "receipt_bound s"
    "\<not> approval_lost s \<Longrightarrow> status_bound s" "stage_clean s"
  using assms by (simp_all add: cu_inv_def split: if_splits)

lemma cu_inv_valid: "cu_inv env s \<Longrightarrow> cu_valid env s \<longleftrightarrow> \<not> approval_lost s"
  unfolding cu_inv_def cu_valid_iff using status_not_lost by metis

lemma action_frame:
  "action_bound env s \<Longrightarrow> st_action t = st_action s \<Longrightarrow> st_pre t = st_pre s \<Longrightarrow>
   st_checkpoint t = st_checkpoint s \<Longrightarrow> action_bound env t"
  unfolding action_bound_def by (cases "st_action s") simp_all

lemma post_frame:
  "post_bound env s \<Longrightarrow> st_post t = st_post s \<Longrightarrow> st_action t = st_action s \<Longrightarrow>
   st_started_at t = st_started_at s \<Longrightarrow> post_bound env t"
  by (simp add: post_bound_def)

lemma bind_action_inv [inv_intros]:
  assumes "cu_inv env s" and "bind_action env s a now = Inr t"
  shows "cu_inv env t"
proof -
  note s = cu_invD[OF assms(1)]
  note t = assms(2)[unfolded bind_action_Inr]
  then have c: "st_post s = None" "st_verification s = None" "st_start_count s = 0"
    "st_started_at s = None" "st_approval_id s = None" "st_approval_actor s = None"
    using s(6) by (simp_all add: stage_clean_def)
  show ?thesis
  proof (rule cu_invI)
    show "identity_bound env t" using s(1) t by (simp add: identity_bound_def)
    show "action_bound env t" using t by (simp add: action_bound_def)
    show "post_bound env t" "receipt_bound t" using t c
      by (simp_all add: post_bound_def receipt_bound_def)
    show "status_bound t" using t c by (simp add: status_bound_def required_defs)
    show "stage_clean t" using t c by (simp add: stage_clean_def)
  qed
qed

lemma approve_inv [inv_intros]:
  assumes "cu_inv env s" and "approve s q fp actor now = Inr t"
  shows "cu_inv env t"
proof -
  note s = cu_invD[OF assms(1)]
  note t = assms(2)[unfolded approve_Inr]
  then have c: "st_post s = None" "st_verification s = None" "st_start_count s = 0"
    "st_started_at s = None" "st_action s \<noteq> None"
    using s(6) by (auto simp: stage_clean_def)
  show ?thesis
  proof (rule cu_invI)
    show "identity_bound env t" using s(1) t by (simp add: identity_bound_def)
    show "action_bound env t" using s(2) by (rule action_frame) (simp_all add: t)
    show "post_bound env t" "receipt_bound t" using t c
      by (simp_all add: post_bound_def receipt_bound_def)
    show "status_bound t" using t c by (simp add: status_bound_def required_defs)
    show "stage_clean t" using t c by (simp add: stage_clean_def)
  qed
qed

lemma mark_action_started_inv [inv_intros]:
  assumes "cu_inv env s"
    and "mark_action_started s q app process window title fr target now = Inr t"
  shows "cu_inv env t"
proof -
  note s = cu_invD[OF assms(1)]
  note t = mark_action_started_Inr[OF assms(2)]
  then have c: "st_post s = None" "st_verification s = None" "st_action s \<noteq> None"
    using s(6) by (auto simp: stage_clean_def)
  show ?thesis
  proof (rule cu_invI)
    show "identity_bound env t" using s(1) t by (simp add: identity_bound_def)
    show "action_bound env t" using s(2) by (rule action_frame) (simp_all add: t)
    show "post_bound env t" "receipt_bound t" using t c
      by (simp_all add: post_bound_def receipt_bound_def)
    have "\<not> approval_lost s" using t by (auto simp: approval_lost_def)
    then show "status_bound t" using s(5) t c by (simp add: status_bound_def required_defs)
    show "stage_clean t" using t c by (simp add: stage_clean_def)
  qed
qed

lemma record_post_observation_inv [inv_intros]:
  assumes "cu_inv env s" and "record_post_observation env s ob now = Inr t"
  shows "cu_inv env t"
proof -
  note s = cu_invD[OF assms(1)]
  note t = record_post_observation_Inr[OF assms(2)]
  then have c: "st_verification s = None" using s(6) by (simp add: stage_clean_def)
  have st: "status_bound s" using s(5) t by (auto simp: approval_lost_def)
  have started: "\<exists>start. st_started_at s = Some start"
    using st t by (auto simp: status_bound_def required_defs)
  show ?thesis
  proof (rule cu_invI)
    show "identity_bound env t" using s(1) t by (simp add: identity_bound_def)
    show "action_bound env t" using s(2) by (rule action_frame) (simp_all add: t)
    show "post_bound env t" using t started by (auto simp: post_bound_def not_less)
    show "receipt_bound t" using t c by (simp add: receipt_bound_def)
    show "status_bound t" using st t by (simp add: status_bound_def required_defs)
    show "stage_clean t" using t by (simp add: stage_clean_def)
  qed
qed

lemma next_of_simps [simp]:
  "next_of OutcomeVerified = Verified" "next_of OutcomeEvidenceOnly = AwaitingVerification"
  "next_of OutcomeFailed = VerificationFailed"
  by (simp_all add: next_of_def)

lemma record_verification_inv [inv_intros]:
  assumes "cu_inv env s" and "record_verification s r = Inr t"
  shows "cu_inv env t"
proof -
  note s = cu_invD[OF assms(1)]
  note v = record_verification_Inr[OF assms(2)]
  then obtain a post where ap: "st_action s = Some a" "st_post s = Some post"
    "vr_action_fingerprint r = ab_fingerprint a" "vr_post_fingerprint r = ob_fingerprint post"
    "ob_captured_at post \<le> vr_verified_at r"
    "vr_outcome r = OutcomeVerified \<longrightarrow>
       (\<exists>sem. ob_semantic post = Some sem \<and> postcondition_satisfied a sem)"
    by auto
  have t: "t = transition (s\<lparr>st_verification := Some r\<rparr>) (next_of (vr_outcome r))
      (trim (vr_summary r)) (vr_verified_at r)" and st: "st_status s = AwaitingVerification"
    and r: "\<not> is_nil (vr_id r)" "is_ok (safe_text (vr_summary r) ''verification summary'')"
    using v by auto
  have fp: "is_fingerprint (ab_fingerprint a)" "is_fingerprint (ob_fingerprint post)"
    using s(2,3) ap(1,2) by (auto simp: action_bound_def post_bound_def binding_validate_def
        observation_validate_def)
  show ?thesis
  proof (rule cu_invI)
    show "identity_bound env t" using s(1) t by (simp add: identity_bound_def)
    show "action_bound env t" using s(2) by (rule action_frame) (simp_all add: t)
    show "post_bound env t" using s(3) t by (simp add: post_bound_def)
    show "receipt_bound t"
      using t ap r fp by (cases "vr_outcome r") (simp_all add: receipt_bound_def)
    show "status_bound t"
      using s(5) t st by (cases "vr_outcome r") (simp_all add: status_bound_def required_defs approval_lost_def)
    show "stage_clean t" using t by (cases "vr_outcome r") (simp_all add: stage_clean_def)
  qed
qed

text \<open>
  The operations that only give up on a step change nothing but its status and its approval.
\<close>

lemma identity_frame:
  "identity_bound env s \<Longrightarrow> st_contract_version t = st_contract_version s \<Longrightarrow> st_id t = st_id s \<Longrightarrow>
   st_session_id t = st_session_id s \<Longrightarrow> st_sequence t = st_sequence s \<Longrightarrow> st_pre t = st_pre s \<Longrightarrow>
   st_checkpoint t = st_checkpoint s \<Longrightarrow> st_start_count t = st_start_count s \<Longrightarrow>
   st_started_at t = st_started_at s \<Longrightarrow> identity_bound env t"
  by (simp add: identity_bound_def)

lemma give_up_inv:
  assumes "cu_inv env s" and "st' = UserTakenOver \<or> st' = Cancelled"
  shows "cu_inv env (transition s st' reason now)"
proof -
  note s = cu_invD[OF assms(1)]
  show ?thesis
  proof (rule cu_invI)
    show "identity_bound env (transition s st' reason now)"
      using s(1) by (rule identity_frame) simp_all
    show "action_bound env (transition s st' reason now)"
      using s(2) by (rule action_frame) simp_all
    show "post_bound env (transition s st' reason now)"
      using s(3) by (rule post_frame) simp_all
    show "receipt_bound (transition s st' reason now)"
      using s(4) assms(2) unfolding receipt_bound_def transition_sel by fastforce
    show "status_bound (transition s st' reason now)"
    proof (cases "approval_lost s")
      case True
      then show ?thesis using assms(2) by (auto simp: status_bound_def required_defs approval_lost_def)
    next
      case False
      then show ?thesis
        using s(5) assms(2) unfolding status_bound_def required_defs transition_sel by (elim disjE) simp_all
    qed
    show "stage_clean (transition s st' reason now)"
      using assms(2) unfolding stage_clean_def transition_sel by (elim disjE) simp_all
  qed
qed

lemma replan_inv:
  assumes "cu_inv env s" and "st_status s \<in> {Observed, AwaitingApproval, Ready}"
  shows "cu_inv env (transition (s\<lparr>st_approval_id := None, st_approval_actor := None\<rparr>)
           NeedsReplan reason now)"
proof -
  note s = cu_invD[OF assms(1)]
  have c: "st_post s = None" "st_verification s = None"
    using s(6) assms(2) by (auto simp: stage_clean_def)
  show ?thesis (is "cu_inv env ?t")
  proof (rule cu_invI)
    show "identity_bound env ?t" using s(1) by (rule identity_frame) simp_all
    show "action_bound env ?t" using s(2) by (rule action_frame) simp_all
    show "post_bound env ?t" "receipt_bound ?t" "stage_clean ?t"
      using c by (simp_all add: post_bound_def receipt_bound_def stage_clean_def)
    show "status_bound ?t" by (simp add: status_bound_def required_defs)
  qed
qed

lemma unknown_inv:
  assumes "cu_inv env s" and "st_status s = ActionStarted"
  shows "cu_inv env (transition s EffectUnknown reason now)" (is "cu_inv env ?t")
proof -
  note s = cu_invD[OF assms(1)]
  have c: "st_post s = None" "st_verification s = None"
    using s(6) assms(2) by (auto simp: stage_clean_def)
  show ?thesis
  proof (rule cu_invI)
    show "identity_bound env ?t" using s(1) by (rule identity_frame) simp_all
    show "action_bound env ?t" using s(2) by (rule action_frame) simp_all
    show "post_bound env ?t" "receipt_bound ?t" "stage_clean ?t"
      using c by (simp_all add: post_bound_def receipt_bound_def stage_clean_def)
    have "\<not> approval_lost s" using assms(2) by (simp add: approval_lost_def)
    then show "status_bound ?t" using s(5) assms(2) by (simp add: status_bound_def required_defs)
  qed
qed

lemma cleared_inv:
  assumes "cu_inv env s" and "st_status s \<in> {Observed, AwaitingApproval, Ready}"
  shows "cu_inv env (s\<lparr>st_approval_id := None, st_approval_actor := None\<rparr>)" (is "cu_inv env ?t")
proof (cases "st_status s = Ready")
  case True
  note s = cu_invD[OF assms(1)]
  have "st_action s \<noteq> None"
    using assms(1) True by (auto simp: cu_inv_def status_bound_def required_defs split: if_splits)
  moreover have "identity_bound env ?t" using s(1) by (rule identity_frame) simp_all
  moreover have "action_bound env ?t" using s(2) by (rule action_frame) simp_all
  moreover have "post_bound env ?t" using s(3) by (rule post_frame) simp_all
  moreover have "receipt_bound ?t" "stage_clean ?t"
    using s(4,6) True by (simp_all add: receipt_bound_def stage_clean_def)
  ultimately show ?thesis using True by (simp add: cu_inv_def approval_lost_def)
next
  case False
  then have "st_approval_id s = None" "st_approval_actor s = None"
    using assms cu_invD(6)[OF assms(1)] by (auto simp: stage_clean_def)
  then have "?t = s" by simp
  then show ?thesis using assms(1) by simp
qed

lemma recover_Inr:
  "recover_after_restart env s now = Inr t \<Longrightarrow>
     (st_status s \<in> {Observed, AwaitingApproval, Ready} \<and>
      (\<exists>reason. t = transition (s\<lparr>st_approval_id := None, st_approval_actor := None\<rparr>)
                     NeedsReplan reason now)) \<or>
     (st_status s = ActionStarted \<and> (\<exists>reason. t = transition s EffectUnknown reason now)) \<or>
     (st_status s \<notin> {Observed, AwaitingApproval, Ready, ActionStarted} \<and> t = s)"
  unfolding recover_after_restart_def bind_unit_Inr_iff by (auto split: if_splits)

lemma cu_next_inv: "cu_next env s t \<Longrightarrow> cu_inv env s \<Longrightarrow> cu_inv env t"
proof (induction rule: cu_next.induct)
  case (next_take_over s reason now t)
  then show ?case by (auto dest: take_over_Inr intro: give_up_inv)
next
  case (next_replan s reason now r t)
  then show ?case using require_replan_outcome [of s reason now r t] replan_inv cleared_inv by metis
next
  case (next_unknown s reason now t)
  then show ?case by (auto dest: mark_effect_unknown_Inr intro: unknown_inv)
next
  case (next_recover s now t)
  then show ?case using recover_Inr replan_inv unknown_inv by metis
next
  case (next_cancel s reason now t)
  then show ?case by (auto dest: cancel_Inr intro: give_up_inv)
qed (auto intro: inv_intros)

interpretation cu: transition_system "cu_next env" "cu_inv env" for env
  by unfold_locales (rule cu_next_inv)

section \<open>Counters and final statuses\<close>

definition cu_final :: "cu_step \<Rightarrow> bool" where
  "cu_final s \<longleftrightarrow> st_status s = Verified \<or> st_status s = EffectUnknown \<or> st_status s = Cancelled"

lemma cu_next_final:
  "cu_next env s t \<Longrightarrow> cu_final s \<Longrightarrow> t = s"
proof (induction rule: cu_next.induct)
  case (next_recover s now t)
  then show ?case using recover_Inr by (fastforce simp: cu_final_def)
qed (auto simp: cu_final_def bind_action_Inr approve_Inr dest: mark_action_started_Inr
      record_post_observation_Inr record_verification_Inr take_over_Inr require_replan_outcome
      mark_effect_unknown_Inr cancel_Inr)

interpretation cu_done: final_system "cu_next env" "cu_inv env" cu_final "\<lambda>s. s" for env
  by unfold_locales (auto dest: cu_next_final)

text \<open>
  Every step of the machine ends in a transition, but for a recovery with nothing to do and a refused
  call of \<open>require_replan\<close>.
\<close>

lemma cu_next_revision:
  "cu_next env s t \<Longrightarrow> st_revision t = st_revision s \<or> st_revision t = sat_inc (st_revision s)"
proof (induction rule: cu_next.induct)
  case (next_recover s now t)
  then show ?case by (auto dest: recover_Inr)
qed (auto simp: bind_action_Inr approve_Inr dest!: mark_action_started_Inr
      record_post_observation_Inr record_verification_Inr take_over_Inr require_replan_outcome
      mark_effect_unknown_Inr cancel_Inr)

interpretation cu_revision: counted_system "cu_next env" "cu_inv env" "\<lambda>s. unat (st_revision s)" for env
proof
  fix s t assume "cu_next env s t"
  then show "unat (st_revision s) \<le> unat (st_revision t)"
    using cu_next_revision sat_inc_ge by (metis order_refl word_le_nat_alt)
qed

text \<open>A step that has started keeps its action, its start instant and its start count.\<close>

definition started_view :: "cu_step \<Rightarrow> action_binding option \<times> instant option \<times> u32" where
  "started_view s = (st_action s, st_started_at s, st_start_count s)"

lemma cu_next_started:
  "cu_next env s t \<Longrightarrow> cu_inv env s \<Longrightarrow> st_start_count s = 1 \<Longrightarrow> started_view t = started_view s"
proof (induction rule: cu_next.induct)
  case (next_bind s a now t)
  then show ?case by (auto simp: bind_action_Inr cu_inv_def stage_clean_def)
next
  case (next_recover s now t)
  then show ?case by (auto simp: started_view_def dest: recover_Inr)
qed (auto simp: started_view_def approve_Inr dest!: mark_action_started_Inr
      record_post_observation_Inr record_verification_Inr take_over_Inr require_replan_outcome
      mark_effect_unknown_Inr cancel_Inr)

interpretation cu_started: final_system "cu_next env" "cu_inv env" "\<lambda>s. st_start_count s = 1"
    started_view for env
  by unfold_locales (auto simp: started_view_def dest: cu_next_started)

section \<open>Constructors produce valid records\<close>

lemma digest_hex_fingerprint: "digest_hex sha \<Longrightarrow> is_fingerprint (sha x)"
  by (auto simp: digest_hex_def is_fingerprint_def list_all_iff intro: lower_hex_is_hexdigit)

lemma hash_parts_fingerprint: "digest_hex (env_sha env) \<Longrightarrow> is_fingerprint (hash_parts env ps)"
  by (simp add: hash_parts_def digest_hex_fingerprint)

lemma slash_code: "code (if c = CHR 0x5C then CHR 0x2F else c) =
    (if code c = 92 then 47 else code c)"
proof (cases "c = CHR 0x5C")
  case True
  then show ?thesis by (simp add: code_def)
next
  case False
  have n: "code (CHR 0x5C) = 92" by (simp add: code_def)
  have "code c \<noteq> 92"
  proof
    assume "code c = 92"
    then have "code c = code (CHR 0x5C)" using n by (rule trans [OF _ sym])
    then show False using False by simp
  qed
  then show ?thesis using False by simp
qed

lemma ws_slash:
  fixes f :: "char \<Rightarrow> char"
  defines "f \<equiv> \<lambda>c. if c = CHR 0x5C then CHR 0x2F else c"
  shows "ws1 (f a) = ws1 a" and "ws2 (f a) (f b) = ws2 a b" and "ws3 (f a) (f b) (f c) = ws3 a b c"
  unfolding f_def ws1_def ws2_def ws3_def slash_code by auto

lemma ws_len_slashes [simp]: "ws_len (slashes s) = ws_len s"
  by (cases s rule: ws_len.cases) (simp_all only: slashes_def list.map ws_len.simps ws_slash)

lemma ws_len_rev_slashes [simp]: "ws_len_rev (rev (slashes s)) = ws_len_rev (rev s)"
proof -
  have "ws_len_rev (slashes x) = ws_len_rev x" for x
    by (cases x rule: ws_len_rev.cases) (simp_all only: slashes_def list.map ws_len_rev.simps ws_slash)
  from this[of "rev s"] show ?thesis by (simp add: slashes_def rev_map)
qed

lemma slashes_idem [simp]: "slashes (slashes s) = slashes s"
  by (simp add: slashes_def)

lemma safe_evidence_ref_again: "safe_evidence_ref v = Inr w \<Longrightarrow> safe_evidence_ref w = Inr w"
proof -
  assume a: "safe_evidence_ref v = Inr w"
  then have w: "w = slashes (trim v)" by (auto simp: safe_evidence_ref_def Let_def split: if_splits)
  have "trim w = w" unfolding w by (rule trim_fixed) simp_all
  then have "slashes (trim w) = w" using w by simp
  then show ?thesis using a w by (simp add: safe_evidence_ref_def)
qed

lemma observation_new_Inr:
  assumes "observation_new env i ph app process window title fr target sem ev summary captured = Inr ob"
  shows "is_fingerprint app" "is_fingerprint process" "is_fingerprint window" "is_fingerprint title"
    "is_fingerprint fr" "\<forall>x. target = Some x \<longrightarrow> is_fingerprint x"
    "\<forall>x. sem = Some x \<longrightarrow> is_fingerprint x"
    "\<exists>e. safe_evidence_ref ev = Inr e \<and> trim summary \<noteq> [] \<and>
       char_count (trim summary) \<le> MAX_SAFE_SUMMARY_CHARS \<and>
       captured + seconds FRESHNESS_SECS \<le> env_max_instant env \<and>
       ob = \<lparr>ob_id = i, ob_phase = ph,
             ob_fingerprint = observation_hash env i ph app process window title fr target sem e
               captured (captured + seconds FRESHNESS_SECS),
             ob_application = app, ob_process = process, ob_window = window, ob_window_title = title,
             ob_frame = fr, ob_target = target, ob_semantic = sem, ob_evidence_ref = e,
             ob_summary = trim summary, ob_captured_at = captured,
             ob_valid_until = captured + seconds FRESHNESS_SECS\<rparr>"
  using assms unfolding observation_new_def
  by (auto simp: bind_res_Inr_iff safe_text_Inr_iff ok_or_Inr_iff checked_add_def split: if_splits)

lemma observation_new_valid:
  assumes n: "observation_new env i ph app process window title fr target sem ev summary captured
                = Inr ob"
    and "\<not> is_nil i" and "digest_hex (env_sha env)"
  shows "observation_validate env ob = Inr () \<and> ob_phase ob = ph"
proof -
  note o = observation_new_Inr[OF n]
  then obtain e where e: "safe_evidence_ref ev = Inr e" and s: "trim summary \<noteq> []"
    "char_count (trim summary) \<le> MAX_SAFE_SUMMARY_CHARS"
    and m: "captured + seconds FRESHNESS_SECS \<le> env_max_instant env"
    and ob: "ob = \<lparr>ob_id = i, ob_phase = ph,
             ob_fingerprint = observation_hash env i ph app process window title fr target sem e
               captured (captured + seconds FRESHNESS_SECS),
             ob_application = app, ob_process = process, ob_window = window, ob_window_title = title,
             ob_frame = fr, ob_target = target, ob_semantic = sem, ob_evidence_ref = e,
             ob_summary = trim summary, ob_captured_at = captured,
             ob_valid_until = captured + seconds FRESHNESS_SECS\<rparr>"
    by blast
  show ?thesis
    using o(1-7) s m assms(2,3) safe_evidence_ref_again[OF e]
    unfolding ob observation_validate_def all_ok_Inr_iff
    by (simp add: observation_hash_def hash_parts_fingerprint checked_add_def safe_text_ok_iff)
qed

lemma binding_new_Inr:
  "binding_new env pre act summary post = Inr a \<longleftrightarrow>
     ob_phase pre = PreAction \<and> validate_postcondition post = Inr () \<and>
     is_ok (safe_text summary ''action summary'') \<and>
     (\<exists>target. ob_target pre = Some target \<and>
        a = \<lparr>ab_action = act, ab_summary = trim summary,
             ab_pre_observation = ob_fingerprint pre, ab_application = ob_application pre,
             ab_process = ob_process pre, ab_window = ob_window pre,
             ab_window_title = ob_window_title pre, ab_frame = ob_frame pre,
             ab_target = target, ab_pre_semantic = ob_semantic pre, ab_postcondition = post,
             ab_fingerprint = hash_parts env
               (binding_parts env (ob_fingerprint pre) (ob_application pre) (ob_process pre)
                  (ob_window pre) (ob_window_title pre) (ob_frame pre) target act post)\<rparr>)"
  unfolding binding_new_def
  by (cases "validate_postcondition post")
     (auto simp: bind_res_Inr_iff safe_text_Inr_iff safe_text_ok_iff ok_or_Inr_iff)

lemma binding_new_valid:
  assumes "binding_new env pre act summary post = Inr a" and "observation_validate env pre = Inr ()"
    and "digest_hex (env_sha env)"
  shows "binding_validate env a = Inr () \<and> \<not> binding_mismatch a pre \<and> ab_action a = act \<and>
     ab_postcondition a = post \<and> ab_pre_semantic a = ob_semantic pre"
  using assms unfolding binding_new_Inr binding_validate_def observation_validate_def all_ok_Inr_iff
  by (auto simp: hash_parts_fingerprint binding_mismatch_def safe_text_ok_iff)

section \<open>Runs from a new step\<close>

lemma new_observed_inv:
  assumes "new_observed i cp sess n pre undo now = Inr s"
    and "observation_validate env pre = Inr ()" and "\<not> is_nil i" "\<not> is_nil cp" "\<not> is_nil sess"
  shows "cu_inv env s"
proof -
  have s: "n \<noteq> 0" "ob_phase pre = PreAction"
    "s = \<lparr>st_contract_version = CONTRACT_VERSION, st_id = i, st_session_id = sess,
         st_sequence = n, st_status = Observed, st_revision = 0, st_pre = pre,
         st_action = None, st_approval_id = None, st_approval_actor = None,
         st_started_at = None, st_start_count = 0, st_post = None, st_verification = None,
         st_checkpoint = \<lparr>cp_id = cp, cp_undo = undo, cp_action_fingerprint = None,
                          cp_created_at = now\<rparr>,
         st_reason = None, st_created_at = now, st_updated_at = now\<rparr>"
    using assms(1) by (auto simp: new_observed_def split: if_splits)
  then show ?thesis using assms(2-)
    by (intro cu_invI) (simp_all add: identity_bound_def action_bound_def post_bound_def
        receipt_bound_def status_bound_def required_defs stage_clean_def)
qed

lemma new_observed_sel:
  "new_observed i cp sess n pre undo now = Inr s \<Longrightarrow>
     st_status s = Observed \<and> st_pre s = pre \<and> st_start_count s = 0 \<and> st_action s = None"
  by (auto simp: new_observed_def split: if_splits)

lemma verified_evidence:
  assumes "cu_inv env s" and "st_status s = Verified"
  shows "\<exists>a post r sem start. st_action s = Some a \<and> st_post s = Some post \<and>
     st_verification s = Some r \<and> st_started_at s = Some start \<and> st_start_count s = 1 \<and>
     st_approval_actor s = Some User \<and> \<not> binding_mismatch a (st_pre s) \<and>
     vr_outcome r = OutcomeVerified \<and> vr_action_fingerprint r = ab_fingerprint a \<and>
     vr_post_fingerprint r = ob_fingerprint post \<and> \<not> post_scope_mismatch post a \<and>
     ob_target post = Some (ab_target a) \<and> ob_semantic post = Some sem \<and>
     postcondition_satisfied a sem \<and> start \<le> ob_captured_at post \<and>
     ob_captured_at post \<le> vr_verified_at r"
proof -
  note s = cu_invD[OF assms(1)]
  have s5: "status_bound s" using s(5) assms(2) by (simp add: approval_lost_def)
  obtain r where r: "st_verification s = Some r" "vr_outcome r = OutcomeVerified"
    using s5 assms(2) by (cases "st_verification s") (auto simp: status_bound_def)
  obtain a post where ap: "st_action s = Some a" "st_post s = Some post"
    "vr_action_fingerprint r = ab_fingerprint a" "vr_post_fingerprint r = ob_fingerprint post"
    "ob_captured_at post \<le> vr_verified_at r"
    "\<exists>sem. ob_semantic post = Some sem \<and> postcondition_satisfied a sem"
    using s(4) r unfolding receipt_bound_def by blast
  have "\<not> binding_mismatch a (st_pre s)" using s(2) ap(1) by (simp add: action_bound_def)
  moreover obtain start where "st_started_at s = Some start" "\<not> post_scope_mismatch post a"
    "ob_target post = Some (ab_target a)" "start \<le> ob_captured_at post"
    using s(3) ap(1,2) by (auto simp: post_bound_def)
  moreover have "st_start_count s = 1" "st_approval_actor s = Some User"
    using s5 assms(2) by (auto simp: status_bound_def required_defs)
  ultimately show ?thesis using r ap by blast
qed

text \<open>The evidence is fresh when the action is bound and when it is approved.\<close>

definition fresh_inv :: "cu_step \<Rightarrow> bool" where
  "fresh_inv s \<longleftrightarrow> (st_status s = AwaitingApproval \<or> st_status s = Ready \<longrightarrow>
     ob_captured_at (st_pre s) \<le> st_updated_at s \<and>
     st_updated_at s \<le> ob_captured_at (st_pre s) + seconds FRESHNESS_SECS)"

lemma validate_freshness:
  "observation_validate env ob = Inr () \<Longrightarrow>
     ob_valid_until ob = ob_captured_at ob + seconds FRESHNESS_SECS"
  unfolding observation_validate_def all_ok_Inr_iff
  by (auto simp: checked_add_def split: if_splits)

lemma require_fresh_iff:
  "require_fresh_at ob now = Inr () \<longleftrightarrow> ob_captured_at ob \<le> now \<and> now \<le> ob_valid_until ob"
  by (auto simp: require_fresh_at_def not_less)

lemma cu_next_fresh: "cu_next env s t \<Longrightarrow> cu_inv env s \<Longrightarrow> fresh_inv s \<Longrightarrow> fresh_inv t"
proof (induction rule: cu_next.induct)
  case (next_bind s a now t)
  then have "ob_valid_until (st_pre s) = ob_captured_at (st_pre s) + seconds FRESHNESS_SECS"
    by (auto simp: cu_inv_def identity_bound_def intro: validate_freshness)
  with next_bind show ?case by (auto simp: bind_action_Inr fresh_inv_def require_fresh_iff)
next
  case (next_approve s request_id fp actor now t)
  then have "ob_valid_until (st_pre s) = ob_captured_at (st_pre s) + seconds FRESHNESS_SECS"
    by (auto simp: cu_inv_def identity_bound_def intro: validate_freshness)
  with next_approve show ?case by (auto simp: approve_Inr fresh_inv_def require_fresh_iff)
next
  case (next_verify s r t)
  then show ?case
    by (cases "vr_outcome r") (auto simp: fresh_inv_def dest!: record_verification_Inr)
next
  case (next_recover s now t)
  then show ?case by (auto simp: fresh_inv_def dest: recover_Inr)
qed (auto simp: fresh_inv_def dest!: mark_action_started_Inr record_post_observation_Inr
      take_over_Inr require_replan_outcome mark_effect_unknown_Inr cancel_Inr)

text \<open>The way from a new step to a verified one, with every guard discharged.\<close>

lemma verified_path_helper:
  assumes pre: "observation_validate env pre = Inr ()" "ob_target pre = Some tg"
    and hex: "digest_hex (env_sha env)"
    and bind: "binding_new env pre act summary (FingerprintEquals e) = Inr a"
    and new: "new_observed i cp sess n pre undo t0 = Inr s0"
    and time: "ob_captured_at pre \<le> t1" "t1 \<le> ob_valid_until pre" "ob_captured_at pre \<le> t2"
      "t2 \<le> ob_valid_until pre" "t3 \<le> ob_captured_at post"
    and q: "\<not> is_nil q"
    and post: "observation_validate env post = Inr ()" "ob_phase post = PostAction"
      "ob_application post = ob_application pre" "ob_process post = ob_process pre"
      "ob_window post = ob_window pre" "ob_frame post = ob_frame pre"
      "ob_target post = Some tg" "ob_semantic post = Some e"
    and r: "r = \<lparr>vr_id = rid, vr_action_fingerprint = ab_fingerprint a,
      vr_post_fingerprint = ob_fingerprint post, vr_outcome = OutcomeVerified,
      vr_summary = note_text, vr_verified_at = t5\<rparr>" "\<not> is_nil rid" "trim note_text \<noteq> []"
      "char_count (trim note_text) \<le> MAX_SAFE_SUMMARY_CHARS" "ob_captured_at post \<le> t5"
  shows "\<exists>s1 s2 s3 s4 s5. bind_action env s0 a t1 = Inr s1 \<and>
     approve s1 q (ab_fingerprint a) User t2 = Inr s2 \<and>
     mark_action_started s2 q (ob_application pre) (ob_process pre) (ob_window pre)
       (ob_window_title pre) (ob_frame pre) tg t3 = Inr s3 \<and>
     record_post_observation env s3 post t4 = Inr s4 \<and>
     record_verification s4 r = Inr s5 \<and> st_status s5 = Verified"
proof -
  note b = binding_new_valid[OF bind pre(1) hex]
  have a: "ab_application a = ob_application pre" "ab_process a = ob_process pre"
    "ab_window a = ob_window pre" "ab_window_title a = ob_window_title pre"
    "ab_frame a = ob_frame pre" "ab_target a = tg"
    using bind pre(2) unfolding binding_new_Inr by auto
  have s0: "st_status s0 = Observed" "st_pre s0 = pre" "st_start_count s0 = 0" "st_started_at s0 = None"
    using new by (auto simp: new_observed_def split: if_splits)
  obtain s1 where s1: "bind_action env s0 a t1 = Inr s1" "st_status s1 = AwaitingApproval"
    "st_pre s1 = pre" "st_action s1 = Some a" "st_start_count s1 = 0" "st_started_at s1 = None"
    using b s0 time(1,2) by (simp add: bind_action_Inr require_fresh_iff)
  have fp: "is_fingerprint (ab_fingerprint a)"
    using b unfolding binding_validate_def all_ok_Inr_iff by simp
  obtain s2 where s2: "approve s1 q (ab_fingerprint a) User t2 = Inr s2" "st_status s2 = Ready"
    "st_action s2 = Some a" "st_approval_id s2 = Some q" "st_approval_actor s2 = Some User"
    "st_start_count s2 = 0" "st_started_at s2 = None"
    using s1 time(3,4) q fp by (simp add: approve_Inr require_fresh_iff)
  have fps: "is_fingerprint (ob_application pre)" "is_fingerprint (ob_process pre)"
    "is_fingerprint (ob_window pre)" "is_fingerprint (ob_window_title pre)"
    "is_fingerprint (ob_frame pre)" "is_fingerprint tg"
    using pre unfolding observation_validate_def all_ok_Inr_iff by simp_all
  obtain s3 where s3: "mark_action_started s2 q (ob_application pre) (ob_process pre)
       (ob_window pre) (ob_window_title pre) (ob_frame pre) tg t3 = Inr s3"
    "st_status s3 = ActionStarted" "st_action s3 = Some a" "st_started_at s3 = Some t3"
    using s2 a fps unfolding mark_action_started_def bind_unit_Inr_iff all_ok_Inr_iff by simp
  obtain s4 where s4: "record_post_observation env s3 post t4 = Inr s4"
    "st_status s4 = AwaitingVerification" "st_action s4 = Some a" "st_post s4 = Some post"
    using s3 a post time(5) unfolding record_post_observation_def bind_unit_Inr_iff all_ok_Inr_iff
    by (simp add: post_scope_mismatch_def)
  have "postcondition_satisfied a e"
    using b by (simp add: postcondition_satisfied_def)
  then obtain s5 where "record_verification s4 r = Inr s5" "st_status s5 = Verified"
    using s4 r post(8) unfolding record_verification_def bind_unit_Inr_iff all_ok_Inr_iff
    by (simp add: safe_text_def Let_def fail_if_def)
  then show ?thesis using s1(1) s2(1) s3(1) s4(1) by blast
qed

end
