(* ===== verification/Computer_Use_Safety.thy ===== *)
theory Computer_Use_Safety
  imports Computer_Use
begin

text \<open>
  What verified computer use promises over whole runs of a step, and concrete steps at which
  the promises are evaluated. A run starts at a step that \<open>ComputerUseStep::new_observed\<close>
  returned for a valid pre-action observation and takes any operations in any order.
\<close>

section \<open>Runs\<close>

definition cu_initial :: "cu_env \<Rightarrow> cu_step \<Rightarrow> bool" where
  "cu_initial env s \<longleftrightarrow>
     (\<exists>i cp sess n pre undo now. new_observed i cp sess n pre undo now = Inr s \<and>
        observation_validate env pre = Inr () \<and> \<not> is_nil i \<and> \<not> is_nil cp \<and> \<not> is_nil sess)"

abbreviation cu_run :: "cu_env \<Rightarrow> cu_step \<Rightarrow> cu_step \<Rightarrow> bool" where
  "cu_run env \<equiv> (cu_next env)\<^sup>*\<^sup>*"

lemma cu_initial_inv: "cu_initial env s \<Longrightarrow> cu_inv env s"
  by (auto simp: cu_initial_def intro: new_observed_inv)

lemma cu_run_inv: "cu_initial env s0 \<Longrightarrow> cu_run env s0 s \<Longrightarrow> cu_inv env s"
  using cu.run_inv cu_initial_inv by blast

lemma cu_initial_fresh: "cu_initial env s \<Longrightarrow> fresh_inv s"
  by (auto simp: cu_initial_def fresh_inv_def dest!: new_observed_sel)

lemma cu_run_fresh: "cu_initial env s0 \<Longrightarrow> cu_run env s0 s \<Longrightarrow> fresh_inv s"
  by (erule cu.run_keeps) (auto intro: cu_initial_inv cu_initial_fresh cu_next_fresh)

lemma not_startable_started: "st_start_count t = 1 \<Longrightarrow>
    \<not> is_ok (mark_action_started t q app process window title fr target now)"
  by (cases "mark_action_started t q app process window title fr target now")
     (auto dest: mark_action_started_Inr)

lemma not_startable_status: "st_status t \<noteq> Ready \<Longrightarrow>
    \<not> is_ok (mark_action_started t q app process window title fr target now)"
  by (cases "mark_action_started t q app process window title fr target now")
     (auto dest: mark_action_started_Inr)

text \<open>A step that was given up, or lost its approval, is only given up again.\<close>

definition cu_parked :: "cu_step \<Rightarrow> bool" where
  "cu_parked s \<longleftrightarrow> approval_lost s \<or> st_status s \<in> {NeedsReplan, UserTakenOver, Cancelled}"

lemma not_startable_parked: "cu_parked t \<Longrightarrow>
    \<not> is_ok (mark_action_started t q app process window title fr target now)"
  by (cases "mark_action_started t q app process window title fr target now")
     (auto simp: cu_parked_def approval_lost_def dest!: mark_action_started_Inr)

lemma cu_next_parked: "cu_next env s t \<Longrightarrow> cu_parked s \<Longrightarrow> cu_parked t \<and> started_view t = started_view s"
proof (induction rule: cu_next.induct)
  case (next_recover s now t)
  then show ?case using recover_Inr by (fastforce simp: cu_parked_def approval_lost_def started_view_def)
next
  case (next_replan s reason now r t)
  then show ?case by (auto simp: cu_parked_def approval_lost_def started_view_def dest!: require_replan_outcome)
qed (auto simp: cu_parked_def approval_lost_def started_view_def bind_action_Inr approve_Inr
      dest!: mark_action_started_Inr record_post_observation_Inr record_verification_Inr take_over_Inr
      mark_effect_unknown_Inr cancel_Inr)

interpretation cu_parked: final_system "cu_next env" "cu_inv env" cu_parked started_view for env
  by unfold_locales (auto dest: cu_next_parked)

lemma recover_inv:
  "cu_inv env s \<Longrightarrow> recover_after_restart env s now = Inr t \<Longrightarrow> cu_inv env t"
  by (rule cu_next_inv [OF next_recover])

lemma recover_total: "cu_inv env s \<Longrightarrow> \<not> approval_lost s \<Longrightarrow> \<exists>t. recover_after_restart env s now = Inr t"
  using cu_inv_valid [of env s] by (simp add: cu_valid_def recover_after_restart_def)

lemma lost_is_invalid:
  assumes "cu_inv env s" and "approval_lost s"
  shows "step_validate env s = Inl ''computer use step status requires exact local-user approval''"
proof -
  note s = cu_invD [OF assms(1)]
  have p: "validate_action_part env s = Inr ()" "validate_post_part env s = Inr ()" "validate_receipt_part s = Inr ()"
    using s(2-4) by (simp_all add: validate_action_part_iff validate_post_part_iff validate_receipt_part_iff)
  have l: "st_status s = Ready" "st_approval_id s = None" "st_approval_actor s = None" "st_action s \<noteq> None"
    using assms by (simp_all add: cu_inv_def approval_lost_def)
  have v: "validate_status_part s = Inl ''computer use step status requires exact local-user approval''"
    using l by (simp add: validate_status_part_def required_defs fail_if_def)
  show ?thesis using s(1) p v by (simp add: step_validate_def identity_bound_def fail_if_def not_less)
qed

section \<open>A concrete step\<close>

definition demo_fp :: string where
  "demo_fp = replicate 64 CHR ''a''"

definition demo_env :: cu_env where
  "demo_env = \<lparr>env_sha = (\<lambda>x. demo_fp), env_action_json = (\<lambda>a. ''{}''),
     env_postcondition_json = (\<lambda>p. ''{}''), env_timestamp_text = (\<lambda>t. ''t''),
     env_uuid_text = (\<lambda>u. ''u''), env_max_instant = 10 ^ 30\<rparr>"

definition demo_observation :: "observation_phase \<Rightarrow> instant \<Rightarrow> observation" where
  "demo_observation ph t =
     \<lparr>ob_id = 1, ob_phase = ph, ob_fingerprint = demo_fp, ob_application = demo_fp,
      ob_process = demo_fp, ob_window = demo_fp, ob_window_title = demo_fp, ob_frame = demo_fp,
      ob_target = Some demo_fp, ob_semantic = Some demo_fp,
      ob_evidence_ref = ''computer-screenshots/a.png'', ob_summary = ''Window'',
      ob_captured_at = t, ob_valid_until = t + seconds FRESHNESS_SECS\<rparr>"

definition demo_binding :: action_binding where
  "demo_binding = \<lparr>ab_action = Click 1 2 LeftButton, ab_summary = ''Save'',
     ab_pre_observation = demo_fp, ab_application = demo_fp, ab_process = demo_fp,
     ab_window = demo_fp, ab_window_title = demo_fp, ab_frame = demo_fp, ab_target = demo_fp,
     ab_pre_semantic = Some demo_fp, ab_postcondition = FingerprintEquals demo_fp,
     ab_fingerprint = demo_fp\<rparr>"

definition demo_receipt :: verification_receipt where
  "demo_receipt = \<lparr>vr_id = 4, vr_action_fingerprint = demo_fp, vr_post_fingerprint = demo_fp,
     vr_outcome = OutcomeVerified, vr_summary = ''Done'', vr_verified_at = 40\<rparr>"

definition demo_step :: cu_step where
  "demo_step = \<lparr>st_contract_version = CONTRACT_VERSION, st_id = 1, st_session_id = 3,
     st_sequence = 1, st_status = Observed, st_revision = 0, st_pre = demo_observation PreAction 0,
     st_action = None, st_approval_id = None, st_approval_actor = None, st_started_at = None,
     st_start_count = 0, st_post = None, st_verification = None,
     st_checkpoint = \<lparr>cp_id = 2, cp_undo = UndoNone, cp_action_fingerprint = None,
                      cp_created_at = 0\<rparr>,
     st_reason = None, st_created_at = 0, st_updated_at = 0\<rparr>"

lemma demo_fp_ok [simp]: "is_fingerprint demo_fp"
  by code_simp

lemma demo_digest [simp]: "digest_hex (env_sha demo_env)"
proof -
  have "list_all lower_hex demo_fp" "length demo_fp = 64" by code_simp+
  then show ?thesis by (simp add: digest_hex_def demo_env_def)
qed

lemma demo_texts [simp]:
  "trim ''Window'' = ''Window''" "trim ''Save'' = ''Save''" "trim ''Done'' = ''Done''"
  by code_simp+

lemma demo_counts [simp]: "char_count ''Window'' = 6" "char_count ''Save'' = 4" "char_count ''Done'' = 4"
  by code_simp+

lemma demo_ref [simp]:
  "safe_evidence_ref ''computer-screenshots/a.png'' = Inr ''computer-screenshots/a.png''"
  by code_simp

lemma demo_observation_valid [simp]:
  "t \<le> 1000 \<Longrightarrow> observation_validate demo_env (demo_observation ph t) = Inr ()"
  unfolding observation_validate_def all_ok_Inr_iff
  by (simp add: demo_observation_def observation_hash_def hash_parts_def demo_env_def
      checked_add_def seconds_def FRESHNESS_SECS_def safe_text_ok_iff MAX_SAFE_SUMMARY_CHARS_def
      is_nil_def)

lemma demo_observation_sel [simp]:
  "ob_phase (demo_observation ph t) = ph" "ob_captured_at (demo_observation ph t) = t"
  "ob_valid_until (demo_observation ph t) = t + seconds FRESHNESS_SECS"
  "ob_target (demo_observation ph t) = Some demo_fp"
  "ob_semantic (demo_observation ph t) = Some demo_fp"
  "ob_application (demo_observation ph t) = demo_fp" "ob_process (demo_observation ph t) = demo_fp"
  "ob_window (demo_observation ph t) = demo_fp" "ob_frame (demo_observation ph t) = demo_fp"
  "ob_window_title (demo_observation ph t) = demo_fp"
  "ob_fingerprint (demo_observation ph t) = demo_fp"
  by (simp_all add: demo_observation_def)

lemma demo_binding_new:
  "binding_new demo_env (demo_observation PreAction 0) (Click 1 2 LeftButton) ''Save''
     (FingerprintEquals demo_fp) = Inr demo_binding"
  by (simp add: binding_new_Inr validate_postcondition_def safe_text_ok_iff
      MAX_SAFE_SUMMARY_CHARS_def demo_binding_def hash_parts_def demo_env_def)

lemma demo_new:
  "new_observed 1 2 3 1 (demo_observation PreAction 0) UndoNone 0 = Inr demo_step"
  by (simp add: new_observed_def demo_step_def)

lemma demo_initial [simp]: "cu_initial demo_env demo_step"
  unfolding cu_initial_def using demo_new by (fastforce simp: is_nil_def)

lemma demo_binding_fp: "ab_fingerprint demo_binding = demo_fp"
  by (simp add: demo_binding_def)

lemma demo_path:
  "\<exists>s1 s2 s3 s4 s5. bind_action demo_env demo_step demo_binding 1 = Inr s1 \<and>
     approve s1 7 demo_fp User 2 = Inr s2 \<and>
     mark_action_started s2 7 demo_fp demo_fp demo_fp demo_fp demo_fp demo_fp 3 = Inr s3 \<and>
     record_post_observation demo_env s3 (demo_observation PostAction 30) 31 = Inr s4 \<and>
     record_verification s4 demo_receipt = Inr s5 \<and> st_status s5 = Verified"
  using verified_path_helper [OF _ _ demo_digest demo_binding_new demo_new, where tg = demo_fp
      and ?t1.0 = 1 and ?t2.0 = 2 and ?t3.0 = 3 and ?t4.0 = 31 and ?t5.0 = 40 and q = 7
      and post = "demo_observation PostAction 30" and r = demo_receipt and rid = 4 and note_text = "''Done''"]
  by (simp add: demo_binding_fp seconds_def FRESHNESS_SECS_def is_nil_def demo_receipt_def
      MAX_SAFE_SUMMARY_CHARS_def)

lemma demo_started:
  "\<exists>s2 s3. cu_run demo_env demo_step s2 \<and> st_status s2 = Ready \<and>
     mark_action_started s2 7 demo_fp demo_fp demo_fp demo_fp demo_fp demo_fp 3 = Inr s3 \<and>
     cu_run demo_env demo_step s3 \<and> st_status s3 = ActionStarted"
proof -
  obtain s1 s2 s3 where s: "bind_action demo_env demo_step demo_binding 1 = Inr s1"
    "approve s1 7 demo_fp User 2 = Inr s2"
    "mark_action_started s2 7 demo_fp demo_fp demo_fp demo_fp demo_fp demo_fp 3 = Inr s3"
    using demo_path by blast
  then have "cu_run demo_env demo_step s2"
    by (meson converse_rtranclp_into_rtranclp next_approve next_bind rtranclp.rtrancl_refl)
  moreover have "cu_next demo_env s2 s3" using s(3) by (rule next_start)
  moreover have "st_status s2 = Ready" "st_status s3 = ActionStarted"
    using s(3) by (auto dest: mark_action_started_Inr)
  ultimately show ?thesis using s(3) by (meson rtranclp.rtrancl_into_rtrancl)
qed

lemma demo_verified:
  "\<exists>s. cu_run demo_env demo_step s \<and> st_status s = Verified"
proof -
  obtain s1 s2 s3 s4 s5 where s: "bind_action demo_env demo_step demo_binding 1 = Inr s1"
    "approve s1 7 demo_fp User 2 = Inr s2"
    "mark_action_started s2 7 demo_fp demo_fp demo_fp demo_fp demo_fp demo_fp 3 = Inr s3"
    "record_post_observation demo_env s3 (demo_observation PostAction 30) 31 = Inr s4"
    "record_verification s4 demo_receipt = Inr s5" "st_status s5 = Verified"
    using demo_path by blast
  then have "cu_run demo_env demo_step s5"
    by (meson converse_rtranclp_into_rtranclp next_bind next_approve next_start next_post next_verify
        rtranclp.rtrancl_refl)
  then show ?thesis using s(6) by blast
qed

lemma demo_lost: "\<exists>s. cu_run demo_env demo_step s \<and> approval_lost s"
proof -
  obtain s2 where s: "cu_run demo_env demo_step s2" "st_status s2 = Ready" using demo_started by blast
  have "trim [] = []" by code_simp
  then obtain e where "safe_text [] ''replan reason'' = Inl e"
    by (cases "safe_text [] ''replan reason''") (auto simp: safe_text_Inr_iff)
  then have "require_replan s2 [] 3 = (Inl e, s2\<lparr>st_approval_id := None, st_approval_actor := None\<rparr>)"
    using s(2) by (simp add: require_replan_def Let_def)
  then have "cu_next demo_env s2 (s2\<lparr>st_approval_id := None, st_approval_actor := None\<rparr>)" by (rule next_replan)
  then show ?thesis using s by (auto simp: approval_lost_def intro: rtranclp.rtrancl_into_rtrancl)
qed

section \<open>Properties\<close>

text \<open>
  C28: whatever operations are applied to a new step, in whatever order, the step that results
  passes \<open>ComputerUseStep::validate\<close> (identities, both observations, the action binding and
  its checkpoint, the receipt and everything its status requires), with one exception: a ready step
  without its approval, as a refused call of \<open>require_replan\<close> leaves it. Such a step fails validation for
  its missing approval, and its action cannot be started.
\<close>

theorem cu_run_valid:
  assumes "cu_initial env s0" and "cu_run env s0 s"
  shows "step_validate env s = Inr () \<or>
    (st_status s = Ready \<and> st_approval_id s = None \<and> st_approval_actor s = None \<and>
     step_validate env s = Inl ''computer use step status requires exact local-user approval'' \<and>
     \<not> is_ok (mark_action_started s q app process window title fr target now))"
proof (cases "approval_lost s")
  case True
  then show ?thesis
    using lost_is_invalid [OF cu_run_inv [OF assms]] not_startable_parked by (auto simp: approval_lost_def cu_parked_def)
next
  case False
  then show ?thesis using cu_inv_valid [OF cu_run_inv [OF assms]] by (simp add: cu_valid_def)
qed

theorem cu_run_valid_witness:
  "(\<exists>s. cu_run demo_env demo_step s \<and> st_status s = Verified \<and> step_validate demo_env s = Inr ()) \<and>
   (\<exists>s. cu_run demo_env demo_step s \<and> st_status s = Ready \<and> step_validate demo_env s \<noteq> Inr ())"
proof -
  obtain s where "cu_run demo_env demo_step s" "st_status s = Verified" using demo_verified by blast
  then have "\<exists>s. cu_run demo_env demo_step s \<and> st_status s = Verified \<and> step_validate demo_env s = Inr ()"
    using cu_run_valid [OF demo_initial, of s] by fastforce
  moreover obtain u where u: "cu_run demo_env demo_step u" "approval_lost u" using demo_lost by blast
  moreover have "step_validate demo_env u \<noteq> Inr ()"
    using lost_is_invalid [OF cu_run_inv [OF demo_initial u(1)] u(2)] by simp
  ultimately show ?thesis by (auto simp: approval_lost_def)
qed

text \<open>
  C8: a step only becomes \<open>Verified\<close> with its whole chain of evidence: a bound action that
  matches the pre-action observation, a local user's approval, one recorded start, an
  observation captured after that start in the same application, process, window, frame and
  target, and a receipt for exactly this action and observation whose deterministic
  postcondition holds of the observed semantic fingerprint.
\<close>

theorem verified_has_full_evidence:
  assumes "cu_initial env s0" and "cu_run env s0 s" and "st_status s = Verified"
  shows "\<exists>a post r sem start. st_action s = Some a \<and> st_post s = Some post \<and>
     st_verification s = Some r \<and> st_started_at s = Some start \<and> st_start_count s = 1 \<and>
     st_approval_actor s = Some User \<and> \<not> binding_mismatch a (st_pre s) \<and>
     vr_outcome r = OutcomeVerified \<and> vr_action_fingerprint r = ab_fingerprint a \<and>
     vr_post_fingerprint r = ob_fingerprint post \<and> \<not> post_scope_mismatch post a \<and>
     ob_target post = Some (ab_target a) \<and> ob_semantic post = Some sem \<and>
     postcondition_satisfied a sem \<and> start \<le> ob_captured_at post \<and>
     ob_captured_at post \<le> vr_verified_at r"
  using verified_evidence [OF cu_run_inv [OF assms(1,2)] assms(3)] .

theorem verified_has_full_evidence_witness:
  "\<exists>s r. cu_run demo_env demo_step s \<and> st_verification s = Some r \<and> vr_outcome r = OutcomeVerified"
  using demo_verified verified_has_full_evidence [OF demo_initial] by blast

text \<open>
  C7: the desktop action is never replayed. Once \<open>mark_action_started\<close> has succeeded on a
  step, no continuation of the run (approvals, restarts, cancellations, anything) can make it
  succeed again, and the action, the instant and the count of its start never change.
\<close>

theorem desktop_action_never_replayed:
  assumes "cu_initial env s0" and "cu_run env s0 s"
    and "mark_action_started s q app process window title fr target now = Inr s1"
    and "cu_run env s1 t"
  shows "st_started_at t = Some now \<and> st_start_count t = 1 \<and> st_action t = st_action s \<and>
     (\<forall>q' app' process' window' title' fr' target' now'.
        \<not> is_ok (mark_action_started t q' app' process' window' title' fr' target' now'))"
proof -
  note s1 = mark_action_started_Inr [OF assms(3)]
  have "cu_inv env s1" using cu_run_inv [OF assms(1,2)] mark_action_started_inv assms(3) by blast
  moreover have "st_start_count s1 = 1" using s1 by simp
  ultimately have "st_start_count t = 1 \<and> started_view t = started_view s1"
    using cu_started.run_final assms(4) by blast
  then show ?thesis using s1 by (simp add: started_view_def not_startable_started)
qed

theorem desktop_action_never_replayed_witness:
  "\<exists>s1. st_started_at s1 = Some 3 \<and>
     \<not> is_ok (mark_action_started s1 7 demo_fp demo_fp demo_fp demo_fp demo_fp demo_fp 3)"
proof -
  obtain s2 s3 where "cu_run demo_env demo_step s2"
    "mark_action_started s2 7 demo_fp demo_fp demo_fp demo_fp demo_fp demo_fp 3 = Inr s3"
    using demo_started by blast
  then show ?thesis
    using desktop_action_never_replayed [OF demo_initial _ _ rtranclp.rtrancl_refl] by blast
qed

text \<open>
  C21: a restart never repeats and never resumes a desktop action. Recovery of a step in a run
  succeeds except on a ready step without its approval, as a refused \<open>require_replan\<close> leaves it; there it
  fails, and the action of that step cannot be started, then or later. Otherwise an action that had started
  becomes \<open>EffectUnknown\<close> and stays that way for good; a step that was waiting loses its approval, must
  be planned again and can never start; every other step is left as it is.
\<close>

theorem restart_blocks_replay:
  assumes "cu_initial env s0" and "cu_run env s0 s"
  shows "if st_status s = Ready \<and> st_approval_id s = None \<and> st_approval_actor s = None
    then recover_after_restart env s now = Inl ''computer use step status requires exact local-user approval'' \<and>
      (\<forall>u q app process window title fr target later. cu_run env s u \<longrightarrow>
         \<not> is_ok (mark_action_started u q app process window title fr target later))
    else \<exists>t. recover_after_restart env s now = Inr t \<and>
     (st_status s = ActionStarted \<longrightarrow> st_status t = EffectUnknown \<and> (\<forall>u. cu_run env t u \<longrightarrow> u = t)) \<and>
     (st_status s \<in> {Observed, AwaitingApproval, Ready} \<longrightarrow>
        st_status t = NeedsReplan \<and> st_approval_id t = None \<and> st_approval_actor t = None \<and>
        (\<forall>u q app process window title fr target later. cu_run env t u \<longrightarrow>
           \<not> is_ok (mark_action_started u q app process window title fr target later))) \<and>
     (st_status s \<notin> {Observed, AwaitingApproval, Ready, ActionStarted} \<longrightarrow> t = s)"
proof -
  have inv: "cu_inv env s" by (rule cu_run_inv [OF assms])
  have parked: "\<not> is_ok (mark_action_started u q app process window title fr target later)"
    if "cu_inv env t" "cu_parked t" "cu_run env t u" for t u q app process window title fr target later
    using cu_parked.run_final [OF that(3,1,2)] not_startable_parked by blast
  show ?thesis
  proof (cases "approval_lost s")
    case True
    then have "recover_after_restart env s now = Inl ''computer use step status requires exact local-user approval''"
      using lost_is_invalid [OF inv] by (simp add: recover_after_restart_def)
    then show ?thesis using True parked [OF inv] by (simp add: approval_lost_def cu_parked_def)
  next
    case False
    then obtain t where t: "recover_after_restart env s now = Inr t" using recover_total [OF inv] by blast
    have it: "cu_inv env t" using recover_inv [OF inv t] .
    have final: "cu_final t \<Longrightarrow> cu_run env t u \<Longrightarrow> u = t" for u
      using cu_done.run_final [OF _ it] by blast
    have st: "st_status s = ActionStarted \<longrightarrow> st_status t = EffectUnknown"
      "st_status s \<in> {Observed, AwaitingApproval, Ready} \<longrightarrow>
          st_status t = NeedsReplan \<and> st_approval_id t = None \<and> st_approval_actor t = None"
      "st_status s \<notin> {Observed, AwaitingApproval, Ready, ActionStarted} \<longrightarrow> t = s"
      using recover_Inr [OF t] by auto
    have "\<not> (st_status s = Ready \<and> st_approval_id s = None \<and> st_approval_actor s = None)"
      using False by (simp add: approval_lost_def)
    then show ?thesis using t st final parked [OF it] by (auto simp: cu_final_def cu_parked_def)
  qed
qed

theorem restart_blocks_replay_witness:
  "(\<exists>s t. st_status s = ActionStarted \<and> recover_after_restart demo_env s 99 = Inr t \<and> st_status t = EffectUnknown) \<and>
   (\<exists>s. cu_run demo_env demo_step s \<and> st_status s = Ready \<and> \<not> is_ok (recover_after_restart demo_env s 99))"
proof -
  obtain s where s: "cu_run demo_env demo_step s" "st_status s = ActionStarted" using demo_started by blast
  obtain u where u: "cu_run demo_env demo_step u" "approval_lost u" using demo_lost by blast
  show ?thesis
    using restart_blocks_replay [OF demo_initial s(1), where now = 99] s
      restart_blocks_replay [OF demo_initial u(1), where now = 99] u by (auto simp: approval_lost_def)
qed



text \<open>
  an action is bound and approved only on fresh evidence: while a step waits for approval
  or is ready, the instant of its last change lies within the 120 seconds after the capture of
  the pre-action observation.
\<close>

theorem approval_window:
  assumes "cu_initial env s0" and "cu_run env s0 s"
    and "st_status s = AwaitingApproval \<or> st_status s = Ready"
  shows "ob_captured_at (st_pre s) \<le> st_updated_at s \<and>
     st_updated_at s \<le> ob_captured_at (st_pre s) + seconds FRESHNESS_SECS"
  using cu_run_fresh [OF assms(1,2)] assms(3) by (simp add: fresh_inv_def)

theorem approval_window_witness:
  "\<exists>s. cu_run demo_env demo_step s \<and> st_status s = Ready \<and>
     st_updated_at s \<le> ob_captured_at (st_pre s) + seconds FRESHNESS_SECS"
  using demo_started approval_window [OF demo_initial] by blast

text \<open>
  C34: the fingerprint a user approves stands for one action on one screen. If the digest does
  not collide on the two encodings and the JSON texts tell the two actions and postconditions
  apart, two bindings with the same fingerprint agree on the observation, application, process,
  window, title, frame, target, action and postcondition; so no text of one field can be
  shifted into the next.
\<close>

theorem action_fingerprint_binds:
  assumes "binding_new env pre act summary post = Inr a"
    and "binding_new env pre' act' summary' post' = Inr a'"
    and "ps = binding_parts env (ob_fingerprint pre) (ob_application pre) (ob_process pre)
            (ob_window pre) (ob_window_title pre) (ob_frame pre) (ab_target a) act post"
    and "qs = binding_parts env (ob_fingerprint pre') (ob_application pre') (ob_process pre')
            (ob_window pre') (ob_window_title pre') (ob_frame pre') (ab_target a') act' post'"
    and "inj_on (env_sha env) {concat (map frame ps), concat (map frame qs)}"
    and "inj_on (env_action_json env) {act, act'}"
    and "inj_on (env_postcondition_json env) {post, post'}"
    and "\<forall>p \<in> set ps \<union> set qs. length p < 2 ^ 64"
    and "ab_fingerprint a = ab_fingerprint a'"
  shows "ab_pre_observation a = ab_pre_observation a' \<and> ab_application a = ab_application a' \<and>
     ab_process a = ab_process a' \<and> ab_window a = ab_window a' \<and>
     ab_window_title a = ab_window_title a' \<and> ab_frame a = ab_frame a' \<and>
     ab_target a = ab_target a' \<and> act = act' \<and> post = post'"
proof -
  have "hash_parts env ps = hash_parts env qs"
    using assms(1-4,9) by (auto simp: binding_new_Inr)
  then have "concat (map frame ps) = concat (map frame qs)"
    using assms(5) by (simp add: hash_parts_def inj_on_eq_iff)
  then have "ps = qs" using frames_inj assms(8) by blast
  then show ?thesis
    using assms(1-4,6,7) by (auto simp: binding_parts_def binding_new_Inr inj_on_eq_iff)
qed

theorem action_fingerprint_binds_witness:
  "\<exists>(a :: action_binding) (a' :: action_binding). ab_summary a \<noteq> ab_summary a' \<and> ab_window a = ab_window a'"
proof -
  define env where "env = demo_env\<lparr>env_sha := \<lambda>x. x\<rparr>"
  define pre where "pre = demo_observation PreAction 0"
  define ps where "ps = binding_parts env (ob_fingerprint pre) (ob_application pre) (ob_process pre)
    (ob_window pre) (ob_window_title pre) (ob_frame pre) demo_fp (Move 1 2)
    (FingerprintEquals demo_fp)"
  have e: "\<exists>a. binding_new env pre (Move 1 2) w (FingerprintEquals demo_fp) = Inr a \<and>
      ab_summary a = w \<and> ab_target a = demo_fp \<and> ab_fingerprint a = hash_parts env ps"
    if "w = ''Save'' \<or> w = ''Done''" for w
    using that by (auto simp: binding_new_Inr pre_def ps_def safe_text_ok_iff
        MAX_SAFE_SUMMARY_CHARS_def validate_postcondition_def)
  obtain a where a: "binding_new env pre (Move 1 2) ''Save'' (FingerprintEquals demo_fp) = Inr a"
    "ab_summary a = ''Save''" "ab_target a = demo_fp" "ab_fingerprint a = hash_parts env ps"
    using e by blast
  obtain a' where a': "binding_new env pre (Move 1 2) ''Done'' (FingerprintEquals demo_fp) = Inr a'"
    "ab_summary a' = ''Done''" "ab_target a' = demo_fp" "ab_fingerprint a' = hash_parts env ps"
    using e by blast
  have len: "\<forall>p \<in> set ps \<union> set ps. length p < 2 ^ 64"
    by (simp add: ps_def binding_parts_def CONTRACT_VERSION_def pre_def env_def demo_env_def demo_fp_def)
  have "ab_window a = ab_window a'"
    using action_fingerprint_binds [OF a(1) a'(1), of ps ps] a(3,4) a'(3,4) len
    by (simp add: ps_def)
  moreover have "ab_summary a \<noteq> ab_summary a'" using a(2) a'(2) by simp
  ultimately show ?thesis by blast
qed

text \<open>
  an observation the constructor accepts is one the validator accepts, in the phase asked
  for, and it is fresh exactly from its capture to 120 seconds later.
\<close>

theorem observation_new_valid_and_fresh:
  assumes "observation_new env i ph app process window title fr target sem ev summary captured
             = Inr ob"
    and "\<not> is_nil i" and "digest_hex (env_sha env)"
  shows "observation_validate env ob = Inr () \<and> ob_phase ob = ph \<and>
     (\<forall>now. require_fresh_at ob now = Inr () \<longleftrightarrow>
        captured \<le> now \<and> now \<le> captured + seconds FRESHNESS_SECS)"
proof -
  have "ob_captured_at ob = captured" "ob_valid_until ob = captured + seconds FRESHNESS_SECS"
    using observation_new_Inr(8) [OF assms(1)] by auto
  then show ?thesis using observation_new_valid [OF assms] by (simp add: require_fresh_iff)
qed

theorem observation_new_valid_and_fresh_witness:
  "require_fresh_at (demo_observation PreAction 5) 100 = Inr () \<and>
   require_fresh_at (demo_observation PreAction 5) 4 \<noteq> Inr ()"
proof -
  have "observation_new demo_env 1 PreAction demo_fp demo_fp demo_fp demo_fp demo_fp (Some demo_fp)
      (Some demo_fp) ''computer-screenshots/a.png'' ''Window'' 5 = Inr (demo_observation PreAction 5)"
    unfolding observation_new_def bind_unit_Inr_iff all_ok_Inr_iff
    by (simp add: checked_add_def safe_text_def Let_def MAX_SAFE_SUMMARY_CHARS_def seconds_def
        FRESHNESS_SECS_def demo_observation_def observation_hash_def hash_parts_def demo_env_def)
  from observation_new_valid_and_fresh [OF this _ demo_digest]
  show ?thesis by (simp add: is_nil_def seconds_def FRESHNESS_SECS_def)
qed

end
