(* ===== verification/Event_Log.thy ===== *)
theory Event_Log
  imports Prelude
begin

text \<open>
  What the components of the event store (\<open>kernel/event_store.rs\<close>) share: its error type, the
  rows of \<open>kernel_events\<close>, and tables with a primary key. A table is the list of its rows in
  rowid order; \<open>INSERT ... ON CONFLICT DO UPDATE\<close> changes a row in place and \<open>INSERT\<close> appends
  one. A transaction is a function from the old state to an error or the new state, so a
  transaction that fails leaves the store as it was.
\<close>

datatype store_error = SqliteError string | NotFound string | InvalidState string

type_synonym 'a store_res = "store_error + 'a"

record 'p kernel_event =
  ke_id :: uuid
  ke_payload :: 'p
  ke_created_at :: instant

text \<open>A result of the domain types as a store error: \<open>map_err(EventStoreError::InvalidState)\<close>.\<close>

definition invalid_state :: "'a res \<Rightarrow> 'a store_res" where
  "invalid_state m = (case m of Inl e \<Rightarrow> Inl (InvalidState e) | Inr x \<Rightarrow> Inr x)"

lemma invalid_state_simps [simp]:
  "invalid_state (Inl e) = Inl (InvalidState e)" "invalid_state (Inr x) = Inr x"
  by (simp_all add: invalid_state_def)

lemma invalid_state_Inr_iff [res_simps]: "invalid_state m = Inr x \<longleftrightarrow> m = Inr x"
  by (cases m) simp_all

section \<open>Tables with a primary key\<close>

definition row_of :: "('r \<Rightarrow> 'k) \<Rightarrow> 'r list \<Rightarrow> 'k \<Rightarrow> 'r option" where
  "row_of key rows k = find (\<lambda>w. key w = k) rows"

definition update_row :: "('r \<Rightarrow> 'k) \<Rightarrow> 'k \<Rightarrow> ('r \<Rightarrow> 'r) \<Rightarrow> 'r list \<Rightarrow> 'r list" where
  "update_row key k f rows = map (\<lambda>w. if key w = k then f w else w) rows"

definition upsert_row :: "('r \<Rightarrow> 'k) \<Rightarrow> 'k \<Rightarrow> 'r \<Rightarrow> ('r \<Rightarrow> 'r) \<Rightarrow> 'r list \<Rightarrow> 'r list" where
  "upsert_row key k new f rows =
     (if row_of key rows k = None then rows @ [new] else update_row key k f rows)"

lemma row_of_Nil [simp]: "row_of key [] k = None"
  by (simp add: row_of_def)

lemma row_of_Cons: "row_of key (w # ws) k = (if key w = k then Some w else row_of key ws k)"
  by (simp add: row_of_def)

lemma row_of_SomeD: "row_of key rows k = Some w \<Longrightarrow> w \<in> set rows \<and> key w = k"
  by (induction rows) (auto simp: row_of_Cons split: if_splits)

lemma row_of_None_iff: "row_of key rows k = None \<longleftrightarrow> k \<notin> key ` set rows"
  by (induction rows) (auto simp: row_of_Cons)

lemma row_of_append:
  "row_of key (rows @ ys) k = (case row_of key rows k of None \<Rightarrow> row_of key ys k | w \<Rightarrow> w)"
  by (induction rows) (auto simp: row_of_Cons)

lemma row_of_mem:
  "distinct (map key rows) \<Longrightarrow> w \<in> set rows \<Longrightarrow> row_of key rows (key w) = Some w"
  by (induction rows) (auto simp: row_of_Cons)

lemma row_of_update:
  assumes "\<And>w. key w = k \<Longrightarrow> key (f w) = k"
  shows "row_of key (update_row key k f rows) j =
     (if j = k then map_option f (row_of key rows k) else row_of key rows j)"
  using assms by (induction rows) (auto simp: update_row_def row_of_Cons)

lemma keys_update:
  assumes "\<And>w. key w = k \<Longrightarrow> key (f w) = k"
  shows "map key (update_row key k f rows) = map key rows"
  using assms by (auto simp: update_row_def)

lemma row_of_upsert:
  assumes "key new = k" and "\<And>w. key w = k \<Longrightarrow> key (f w) = k"
  shows "row_of key (upsert_row key k new f rows) j =
     (if j = k then Some (case row_of key rows k of None \<Rightarrow> new | Some w \<Rightarrow> f w)
      else row_of key rows j)"
  using assms
  by (cases "row_of key rows k")
     (auto simp: upsert_row_def row_of_update row_of_append row_of_Cons split: option.splits)

lemma distinct_upsert:
  assumes "distinct (map key rows)" and "key new = k" and "\<And>w. key w = k \<Longrightarrow> key (f w) = k"
  shows "distinct (map key (upsert_row key k new f rows))"
proof (cases "row_of key rows k")
  case None
  then show ?thesis using assms by (auto simp: upsert_row_def row_of_None_iff)
next
  case (Some w)
  then show ?thesis using assms(1) keys_update[of key k f rows] assms(3)
    by (simp add: upsert_row_def)
qed

lemma set_update: "set (update_row key k f rows) = (\<lambda>w. if key w = k then f w else w) ` set rows"
  by (auto simp: update_row_def)

text \<open>
  A table as the interface its clients use: reading after writing. It is interpreted for the
  rows above under every key.
\<close>

locale keyed_table =
  fixes get :: "'t \<Rightarrow> 'k \<Rightarrow> 'r option"
    and put :: "'k \<Rightarrow> 'r \<Rightarrow> ('r \<Rightarrow> 'r) \<Rightarrow> 't \<Rightarrow> 't"
    and fits :: "'k \<Rightarrow> 'r \<Rightarrow> ('r \<Rightarrow> 'r) \<Rightarrow> bool"
  assumes get_put: "fits k new f \<Longrightarrow>
    get (put k new f t) j =
      (if j = k then Some (case get t k of None \<Rightarrow> new | Some w \<Rightarrow> f w) else get t j)"
begin

lemma get_put_same: "fits k new f \<Longrightarrow> get t k = Some w \<Longrightarrow> get (put k new f t) k = Some (f w)"
  by (simp add: get_put)

lemma get_put_new: "fits k new f \<Longrightarrow> get t k = None \<Longrightarrow> get (put k new f t) k = Some new"
  by (simp add: get_put)

lemma get_put_other: "fits k new f \<Longrightarrow> j \<noteq> k \<Longrightarrow> get (put k new f t) j = get t j"
  by (simp add: get_put)

lemma put_keeps:
  assumes "fits k new f" and "get t j = Some w" and "P w"
    and "\<And>v. P v \<Longrightarrow> j = k \<Longrightarrow> P (f v)"
  shows "\<exists>v. get (put k new f t) j = Some v \<and> P v"
  using assms by (cases "j = k") (auto simp: get_put)

end

definition row_fits :: "('r \<Rightarrow> 'k) \<Rightarrow> 'k \<Rightarrow> 'r \<Rightarrow> ('r \<Rightarrow> 'r) \<Rightarrow> bool" where
  "row_fits key k new f \<longleftrightarrow> key new = k \<and> (\<forall>w. key w = k \<longrightarrow> key (f w) = k)"

interpretation rows: keyed_table "row_of key" "upsert_row key" "row_fits key" for key
  by unfold_locales (auto simp: row_fits_def row_of_upsert)

section \<open>Folding a fallible step over a log\<close>

fun fold_res :: "('e \<Rightarrow> 's \<Rightarrow> 'err + 's) \<Rightarrow> 'e list \<Rightarrow> 's \<Rightarrow> 'err + 's" where
  "fold_res f [] s = Inr s"
| "fold_res f (e # es) s = bind_res (f e s) (fold_res f es)"

lemma fold_res_append:
  "fold_res f (xs @ ys) s = bind_res (fold_res f xs s) (fold_res f ys)"
proof (induction xs arbitrary: s)
  case Nil
  then show ?case by simp
next
  case (Cons x xs)
  then show ?case by (cases "f x s") simp_all
qed

lemma fold_res_skip: "(\<And>e. e \<in> set es \<Longrightarrow> f e s = Inr s) \<Longrightarrow> fold_res f es s = Inr s"
  by (induction es) simp_all

end
