(* ===== verification/Access_Store.thy ===== *)
theory Access_Store
  imports Event_Log Policy
begin

text \<open>
  Capability access in the event store (\<open>kernel/event_store.rs\<close>): the events that request a
  capability, resolve a request, record a tool and record a capability invocation, the
  projection tables they maintain in the same transaction, the replay of the log into these
  tables when the store is opened, the views of requests and grants, and the two resolvers a
  user's decision goes through. The consumption tables of connector mutations and attachments
  and the requests owned by a grouped approval are written by other components; they are sets
  of request ids here.
\<close>

section \<open>Data\<close>

datatype tool_status = ToolWaitingForConfirmation | ToolRunning | ToolSucceeded | ToolFailed | ToolBlocked

record tool_evidence =
  te_kind :: string
  te_reference :: string
  te_summary :: string

record tool_verification =
  tv_passed :: bool
  tv_summary :: string
  tv_checked_at :: instant

text \<open>The JSON value of \<open>output\<close> is its text.\<close>

record tool_invocation =
  ti_id :: uuid
  ti_run_id :: "uuid option"
  ti_tool_id :: string
  ti_tool_version :: string
  ti_capability :: capability_kind
  ti_status :: tool_status
  ti_policy_decision :: policy_decision
  ti_approval_request_id :: "uuid option"
  ti_input_summary :: string
  ti_request_fingerprint :: string
  ti_output :: "string option"
  ti_evidence :: "tool_evidence list"
  ti_verification :: tool_verification
  ti_error :: "string option"
  ti_recovery_hint :: string
  ti_elapsed_ms :: "128 word"
  ti_created_at :: instant
  ti_finished_at :: "instant option"

datatype invocation_status = InvocationSucceeded | InvocationPendingApproval | InvocationFailed

record capability_invocation =
  ci_id :: uuid
  ci_capability :: capability_kind
  ci_status :: invocation_status
  ci_policy_decision :: policy_decision
  ci_approval_request_id :: "uuid option"
  ci_requested_resource :: "string option"
  ci_evidence_ref :: "string option"
  ci_requested_url :: "string option"
  ci_evidence_url :: "string option"
  ci_title :: "string option"
  ci_excerpt :: "string option"
  ci_warnings :: "string list"
  ci_elapsed_ms :: "128 word"
  ci_created_at :: instant

text \<open>The payloads the projection reads; any other event is its type and its JSON text.\<close>

datatype access_payload =
    AccessRequested access_request
  | PermissionResolved permission_resolution
  | ToolRecorded tool_invocation
  | CapabilityRecorded capability_invocation
  | OtherPayload string string

type_synonym access_event = "access_payload kernel_event"

record access_row =
  aw_request :: access_request
  aw_resolution :: "permission_resolution option"
  aw_status :: access_status
  aw_revision :: u64
  aw_created_at :: instant
  aw_updated_at :: instant

record tool_row =
  tr_invocation :: tool_invocation
  tr_revision :: u64
  tr_created_at :: instant
  tr_updated_at :: instant

text \<open>
  What a tool invocation is bound to: the run's goal, and the revision and fingerprint of the
  frozen goal, with the fingerprint of the request.
\<close>

record frozen_view =
  fv_revision :: string
  fv_fingerprint :: string

record goal_binding =
  gb_invocation :: uuid
  gb_goal :: uuid
  gb_revision :: string
  gb_fingerprint :: string
  gb_request_fingerprint :: string
  gb_bound_at :: instant

text \<open>
  The store. Rows of \<open>kernel_events\<close> are never deleted, so the rowid of an event is its place
  in \<open>xs_events\<close>, counted from 1, and the cursor is a length. \<open>xs_goals\<close> is what
  \<open>goal_envelope_projection_from_connection\<close> reads: an error for a row that does not decode,
  no goal, a goal that is not frozen, or its frozen envelope.
\<close>

record exec_store =
  xs_events :: "access_event list"
  xs_access :: "access_row list"
  xs_tools :: "tool_row list"
  xs_applied :: "uuid list"
  xs_consumed :: "(uuid \<times> uuid) list"
  xs_cursor :: nat
  xs_connector_consumed :: "uuid set"
  xs_attachment_consumed :: "uuid set"
  xs_grouped :: "uuid set"
  xs_goals :: "uuid \<Rightarrow> (frozen_view option) option store_res"
  xs_bindings :: "goal_binding list"

definition access_key :: "access_row \<Rightarrow> uuid" where
  "access_key w = ar_id (aw_request w)"

definition tool_key :: "tool_row \<Rightarrow> uuid" where
  "tool_key w = ti_id (tr_invocation w)"

definition access_row_of :: "exec_store \<Rightarrow> uuid \<Rightarrow> access_row option" where
  "access_row_of st i = row_of access_key (xs_access st) i"

section \<open>The projection\<close>

definition project_request :: "access_request \<Rightarrow> instant \<Rightarrow> access_row list \<Rightarrow> access_row list" where
  "project_request r at rows =
     upsert_row access_key (ar_id r)
       \<lparr>aw_request = r, aw_resolution = None, aw_status = ar_status r, aw_revision = 0,
        aw_created_at = at, aw_updated_at = at\<rparr>
       (\<lambda>w. w\<lparr>aw_request := r,
              aw_status := (if aw_resolution w = None then ar_status r else aw_status w),
              aw_revision := aw_revision w + 1, aw_updated_at := at\<rparr>) rows"

definition resolved_status :: "permission_resolution \<Rightarrow> access_status" where
  "resolved_status p = (if pr_approved p then Approved else Rejected)"

definition project_resolution ::
    "permission_resolution \<Rightarrow> instant \<Rightarrow> access_row list \<Rightarrow> access_row list store_res" where
  "project_resolution p at rows =
     bind_res
       (case pr_expected_request_revision p of None \<Rightarrow> Inr ()
        | Some expected \<Rightarrow>
            (case row_of access_key rows (pr_request_id p) of
               None \<Rightarrow> Inl (InvalidState ''permission resolution projection has no request'')
             | Some w \<Rightarrow> if aw_revision w \<noteq> expected
                 then Inl (InvalidState ''permission resolution projection revision changed'')
                 else Inr ()))
       (\<lambda>_. if row_of access_key rows (pr_request_id p) = None
            then Inl (InvalidState ''permission resolution projection has no request'')
            else Inr (update_row access_key (pr_request_id p)
              (\<lambda>w. w\<lparr>aw_resolution := Some p, aw_status := resolved_status p,
                     aw_revision := aw_revision w + 1, aw_updated_at := at\<rparr>) rows))"

definition project_tool :: "tool_invocation \<Rightarrow> instant \<Rightarrow> tool_row list \<Rightarrow> tool_row list" where
  "project_tool v at rows =
     upsert_row tool_key (ti_id v)
       \<lparr>tr_invocation = v, tr_revision = 0, tr_created_at = at, tr_updated_at = at\<rparr>
       (\<lambda>w. w\<lparr>tr_invocation := v, tr_revision := tr_revision w + 1, tr_updated_at := at\<rparr>) rows"

text \<open>
  \<open>INSERT OR IGNORE INTO capability_approval_consumptions\<close>: the request id is the primary key
  and the invocation id is unique.
\<close>

definition consume :: "uuid \<Rightarrow> uuid \<Rightarrow> (uuid \<times> uuid) list \<Rightarrow> (uuid \<times> uuid) list" where
  "consume request invocation rows =
     (if (\<exists>p \<in> set rows. fst p = request \<or> snd p = invocation) then rows
      else rows @ [(request, invocation)])"

definition project_capability ::
    "capability_invocation \<Rightarrow> (uuid \<times> uuid) list \<Rightarrow> (uuid \<times> uuid) list" where
  "project_capability v rows =
     (if ci_status v \<noteq> InvocationPendingApproval
      then (case ci_approval_request_id v of None \<Rightarrow> rows
            | Some request \<Rightarrow> consume request (ci_id v) rows)
      else rows)"

definition is_projected :: "access_payload \<Rightarrow> bool" where
  "is_projected p = (case p of OtherPayload _ _ \<Rightarrow> False | _ \<Rightarrow> True)"

definition apply_execution_projection :: "access_event \<Rightarrow> exec_store \<Rightarrow> exec_store store_res" where
  "apply_execution_projection e st =
     (if \<not> is_projected (ke_payload e) \<or> ke_id e \<in> set (xs_applied st) then Inr st
      else let st = st\<lparr>xs_applied := xs_applied st @ [ke_id e]\<rparr> in
        (case ke_payload e of
           AccessRequested r \<Rightarrow>
             Inr (st\<lparr>xs_access := project_request r (ke_created_at e) (xs_access st)\<rparr>)
         | PermissionResolved p \<Rightarrow>
             bind_res (project_resolution p (ke_created_at e) (xs_access st)) (\<lambda>rows.
               Inr (st\<lparr>xs_access := rows\<rparr>))
         | ToolRecorded v \<Rightarrow>
             Inr (st\<lparr>xs_tools := project_tool v (ke_created_at e) (xs_tools st)\<rparr>)
         | CapabilityRecorded v \<Rightarrow>
             Inr (st\<lparr>xs_consumed := project_capability v (xs_consumed st)\<rparr>)
         | OtherPayload _ _ \<Rightarrow> Inr st))"

definition replay_execution_projection_events :: "exec_store \<Rightarrow> exec_store store_res" where
  "replay_execution_projection_events st =
     (let pending = filter (\<lambda>(n, e). n > xs_cursor st \<and> is_projected (ke_payload e))
                      (zip [1 ..< Suc (length (xs_events st))] (xs_events st));
          newest = (if pending = [] then xs_cursor st else fst (last pending)) in
      bind_res (fold_res apply_execution_projection (map snd pending) st) (\<lambda>st.
        Inr (st\<lparr>xs_cursor := newest\<rparr>)))"

section \<open>Appending events\<close>

definition insert_kernel_event :: "access_event \<Rightarrow> exec_store \<Rightarrow> exec_store store_res" where
  "insert_kernel_event e st =
     (if ke_id e \<in> ke_id ` set (xs_events st)
      then Inl (SqliteError ''UNIQUE constraint failed: kernel_events.id'')
      else apply_execution_projection e (st\<lparr>xs_events := xs_events st @ [e]\<rparr>))"

definition AGENT_RUN_FINISHED_EVENT :: string where
  "AGENT_RUN_FINISHED_EVENT = ''agent_run.finished''"

definition append_event :: "access_event \<Rightarrow> exec_store \<Rightarrow> exec_store store_res" where
  "append_event e st =
     bind_res
       (case ke_payload e of
          OtherPayload ty _ \<Rightarrow>
            if ty = AGENT_RUN_FINISHED_EVENT
            then Inl (InvalidState
              ''agent run finish events require the dedicated completion guard'')
            else if starts_with ''task_grouped_approval.'' ty
            then Inl (InvalidState
              ''task grouped approval events require the dedicated transactional state machine'')
            else if starts_with ''goal_context_checkpoint.'' ty
            then Inl (InvalidState
              ''goal context checkpoint events require the dedicated Kernel state machine'')
            else Inr ()
        | PermissionResolved p \<Rightarrow>
            if pr_request_id p \<in> xs_grouped st
            then Inl (InvalidState
              ''task grouped approval resolution cannot use the generic event path'')
            else Inr ()
        | AccessRequested r \<Rightarrow>
            if ar_id r \<in> xs_grouped st
            then Inl (InvalidState
              ''task grouped approval request cannot be replaced through the generic event path'')
            else Inr ()
        | _ \<Rightarrow> Inr ())
       (\<lambda>_. insert_kernel_event e st)"

text \<open>\<open>KernelEvent::new\<close> with the identifier and the instant it draws, then \<open>append\<close>.\<close>

definition record_event ::
    "uuid \<Rightarrow> instant \<Rightarrow> access_payload \<Rightarrow> exec_store \<Rightarrow> exec_store store_res" where
  "record_event event_id now p st =
     append_event \<lparr>ke_id = event_id, ke_payload = p, ke_created_at = now\<rparr> st"

definition append_capability_access_request ::
    "uuid \<Rightarrow> instant \<Rightarrow> access_request \<Rightarrow> exec_store \<Rightarrow> exec_store store_res" where
  "append_capability_access_request event_id now r st = record_event event_id now (AccessRequested r) st"

definition append_permission_resolution ::
    "uuid \<Rightarrow> instant \<Rightarrow> permission_resolution \<Rightarrow> exec_store \<Rightarrow> exec_store store_res" where
  "append_permission_resolution event_id now p st =
     record_event event_id now (PermissionResolved p) st"

definition append_capability_invocation ::
    "uuid \<Rightarrow> instant \<Rightarrow> capability_invocation \<Rightarrow> exec_store \<Rightarrow> exec_store store_res" where
  "append_capability_invocation event_id now v st =
     record_event event_id now (CapabilityRecorded v) st"

definition goal_binding_row :: "goal_binding list \<Rightarrow> uuid \<Rightarrow> goal_binding option" where
  "goal_binding_row rows i = row_of gb_invocation rows i"

definition bind_tool_goal ::
    "instant \<Rightarrow> tool_invocation \<Rightarrow> uuid \<Rightarrow> frozen_view option \<Rightarrow> exec_store \<Rightarrow> exec_store store_res" where
  "bind_tool_goal now v run_id frozen st =
     (case frozen of
        None \<Rightarrow> Inl (InvalidState ''tool invocation goal binding requires a frozen goal'')
      | Some fv \<Rightarrow>
          if ti_request_fingerprint v = []
          then Inl (InvalidState ''tool invocation goal binding requires a request fingerprint'')
          else (case goal_binding_row (xs_bindings st) (ti_id v) of
                  Some b \<Rightarrow>
                    if gb_goal b = run_id \<and> gb_revision b = fv_revision fv
                       \<and> gb_fingerprint b = fv_fingerprint fv
                       \<and> gb_request_fingerprint b = ti_request_fingerprint v
                    then Inr st
                    else Inl (InvalidState ''tool invocation goal binding changed'')
                | None \<Rightarrow> Inr (st\<lparr>xs_bindings := xs_bindings st @
                    [\<lparr>gb_invocation = ti_id v, gb_goal = run_id, gb_revision = fv_revision fv,
                      gb_fingerprint = fv_fingerprint fv,
                      gb_request_fingerprint = ti_request_fingerprint v, gb_bound_at = now\<rparr>]\<rparr>)))"

definition append_tool_invocation ::
    "uuid \<Rightarrow> instant \<Rightarrow> tool_invocation \<Rightarrow> exec_store \<Rightarrow> exec_store store_res" where
  "append_tool_invocation event_id now v st =
     bind_res
       (if ti_status v = ToolRunning
        then (case ti_run_id v of None \<Rightarrow> Inr st
              | Some run_id \<Rightarrow>
                  bind_res (xs_goals st run_id) (\<lambda>goal.
                    (case goal of None \<Rightarrow> Inr st
                     | Some frozen \<Rightarrow> bind_tool_goal now v run_id frozen st)))
        else Inr st)
       (insert_kernel_event
          \<lparr>ke_id = event_id, ke_payload = ToolRecorded v, ke_created_at = now\<rparr>)"

section \<open>Views\<close>

text \<open>
  \<open>sort_by_key(Reverse(..))\<close> is stable: newest first, rows of one instant in table order.
  \<open>ORDER BY created_at DESC, rowid DESC\<close> is the stable sort of the reversed table.
\<close>

definition newest_first :: "('a \<Rightarrow> instant) \<Rightarrow> 'a list \<Rightarrow> 'a list" where
  "newest_first at xs = sort_key (\<lambda>x. - at x) xs"

definition list_capability_access_requests :: "exec_store \<Rightarrow> access_request list" where
  "list_capability_access_requests st = newest_first ar_created_at (map aw_request (xs_access st))"

definition list_permission_resolutions :: "exec_store \<Rightarrow> permission_resolution list" where
  "list_permission_resolutions st =
     newest_first pr_created_at (List.map_filter aw_resolution (xs_access st))"

definition consumptions :: "exec_store \<Rightarrow> uuid set" where
  "consumptions st = xs_connector_consumed st \<union> xs_attachment_consumed st \<union> fst ` set (xs_consumed st)"

definition capability_grant_state ::
    "access_request \<Rightarrow> permission_resolution option \<Rightarrow> access_status \<Rightarrow> capability_invocation list
     \<Rightarrow> uuid set \<Rightarrow> grant_state" where
  "capability_grant_state r resolution status invocations consumed =
     (if status \<noteq> Approved then NotGranted
      else let risk = capability_risk (ar_capability r);
               one_shot = ar_access_mode r = AskEveryStep \<or> risk = High \<or> risk = Critical in
        if \<not> one_shot then Reusable
        else (case resolution of None \<Rightarrow> NotGranted
              | Some p \<Rightarrow>
                  if ar_id r \<in> consumed
                     \<or> (\<exists>v \<in> set invocations. ci_capability v = ar_capability r
                          \<and> \<not> ci_created_at v < pr_created_at p
                          \<and> ci_approval_request_id v = Some (ar_id r))
                  then OneShotConsumed else OneShotAvailable))"

definition record_of_row :: "exec_store \<Rightarrow> access_row \<Rightarrow> access_record" where
  "record_of_row st w =
     \<lparr>acc_request = aw_request w, acc_resolution = aw_resolution w, acc_effective_status = aw_status w,
      acc_projection_revision = aw_revision w,
      acc_grant_state =
        capability_grant_state (aw_request w) (aw_resolution w) (aw_status w) [] (consumptions st)\<rparr>"

definition list_capability_access_records :: "exec_store \<Rightarrow> access_record list" where
  "list_capability_access_records st =
     map (record_of_row st) (newest_first aw_created_at (rev (xs_access st)))"

definition list_pending_capability_access_records :: "exec_store \<Rightarrow> access_record list" where
  "list_pending_capability_access_records st =
     filter (\<lambda>c. acc_effective_status c = PendingApproval \<and> ar_id (acc_request c) \<notin> xs_grouped st)
       (list_capability_access_records st)"

definition available_capability_grant_request_id ::
    "exec_store \<Rightarrow> capability_kind \<Rightarrow> uuid option" where
  "available_capability_grant_request_id st c =
     map_option (\<lambda>x. ar_id (acc_request x))
       (find (\<lambda>x. ar_capability (acc_request x) = c
                  \<and> (acc_grant_state x = Reusable \<or> acc_grant_state x = OneShotAvailable))
          (list_capability_access_records st))"

definition has_user_approved_capability :: "exec_store \<Rightarrow> capability_kind \<Rightarrow> bool" where
  "has_user_approved_capability st c \<longleftrightarrow> available_capability_grant_request_id st c \<noteq> None"

definition capability_access_record_by_id :: "exec_store \<Rightarrow> uuid \<Rightarrow> access_record store_res" where
  "capability_access_record_by_id st i =
     (case access_row_of st i of
        None \<Rightarrow> Inl (NotFound ''connector attachment approval'')
      | Some w \<Rightarrow> Inr
          \<lparr>acc_request = aw_request w, acc_resolution = aw_resolution w,
           acc_effective_status = aw_status w, acc_projection_revision = aw_revision w,
           acc_grant_state =
             (if aw_status w \<noteq> Approved then NotGranted
              else if i \<in> consumptions st then OneShotConsumed
              else if capability_risk (ar_capability (aw_request w)) = Critical
              then OneShotAvailable else Reusable)\<rparr>)"

definition list_tool_invocations :: "exec_store \<Rightarrow> tool_invocation list" where
  "list_tool_invocations st =
     map tr_invocation (take 500 (newest_first tr_updated_at (rev (xs_tools st))))"

definition tool_invocation_by_id :: "exec_store \<Rightarrow> uuid \<Rightarrow> tool_invocation store_res" where
  "tool_invocation_by_id st i =
     (case row_of tool_key (xs_tools st) i of
        None \<Rightarrow> Inl (NotFound ''connector attachment tool'')
      | Some w \<Rightarrow> Inr (tr_invocation w))"

section \<open>Resolving a request\<close>

definition resolve_capability_access_request ::
    "uuid \<Rightarrow> uuid \<Rightarrow> instant \<Rightarrow> instant \<Rightarrow> uuid \<Rightarrow> bool \<Rightarrow> string \<Rightarrow> exec_store
     \<Rightarrow> (permission_resolution \<times> exec_store) store_res" where
  "resolve_capability_access_request new_id event_id now later request_id approved note st =
     (if request_id \<in> xs_grouped st
      then Inl (InvalidState ''task grouped approval requires the single exact-task resolver'')
      else bind_res (capability_access_record_by_id st request_id) (\<lambda>record.
        if ar_capability (acc_request record) = ConnectorAttachmentRead
        then Inl (InvalidState
          ''connector attachment approval requires the dedicated exact-preview resolver'')
        else if acc_resolution record \<noteq> None
        then Inl (InvalidState ''capability access request is already resolved'')
        else if acc_effective_status record \<noteq> PendingApproval
        then Inl (InvalidState ''capability access request does not require approval'')
        else let p = (new_resolution new_id now request_id approved note)
                       \<lparr>pr_expected_request_revision := Some (acc_projection_revision record)\<rparr> in
          bind_res (append_permission_resolution event_id later p st) (\<lambda>st. Inr (p, st))))"

definition CONNECTOR_MUTATE_TOOL_ID :: string where
  "CONNECTOR_MUTATE_TOOL_ID = ''connector.mutate''"

definition resolve_connector_mutation_access_request ::
    "digest \<Rightarrow> uuid \<Rightarrow> uuid \<Rightarrow> instant \<Rightarrow> instant \<Rightarrow> uuid \<Rightarrow> bool \<Rightarrow> string \<Rightarrow> u64 \<Rightarrow> u32 \<Rightarrow> string
     \<Rightarrow> exec_store \<Rightarrow> (permission_resolution \<times> exec_store) store_res" where
  "resolve_connector_mutation_access_request sha new_id event_id now later request_id approved note
       expected_revision expected_preview_revision expected_preview_hash st =
     (if request_id \<in> xs_grouped st
      then Inl (InvalidState ''task grouped approval requires the single exact-task resolver'')
      else bind_res (capability_access_record_by_id st request_id) (\<lambda>record.
        if ar_capability (acc_request record) \<noteq> ConnectorWrite
           \<or> acc_effective_status record \<noteq> PendingApproval
           \<or> acc_resolution record \<noteq> None
           \<or> acc_projection_revision record \<noteq> expected_revision
        then Inl (InvalidState ''connector mutation approval is stale or unavailable'')
        else (case ar_exact_tool (acc_request record) of
            None \<Rightarrow> Inl (InvalidState ''connector mutation approval has no exact preview evidence'')
          | Some scope \<Rightarrow>
              if ets_tool_id scope \<noteq> CONNECTOR_MUTATE_TOOL_ID
                 \<or> ets_preview_revision scope \<noteq> expected_preview_revision
                 \<or> ets_preview_hash scope \<noteq> expected_preview_hash
              then Inl (InvalidState ''connector mutation approval preview changed'')
              else bind_res (invalid_state (new_exact_resolution sha new_id now request_id approved
                                note expected_revision scope)) (\<lambda>p.
                bind_res (append_permission_resolution event_id later p st) (\<lambda>st. Inr (p, st))))))"

section \<open>The step relation\<close>

text \<open>
  One rule per operation that commits. Grouped approvals insert their events directly, without
  the guards of \<open>append\<close>; the other components may consume an approval, take requests into a
  group, or change a goal at any time. Nothing undoes a consumption.
\<close>

inductive access_next :: "exec_store \<Rightarrow> exec_store \<Rightarrow> bool" where
  next_append: "append_event e st = Inr st' \<Longrightarrow> access_next st st'"
| next_insert: "insert_kernel_event e st = Inr st' \<Longrightarrow> access_next st st'"
| next_tool: "append_tool_invocation event_id now v st = Inr st' \<Longrightarrow> access_next st st'"
| next_resolve: "resolve_capability_access_request new_id event_id now later i ok note st = Inr (p, st')
     \<Longrightarrow> access_next st st'"
| next_resolve_exact:
    "resolve_connector_mutation_access_request sha new_id event_id now later i ok note er epr eph st
       = Inr (p, st') \<Longrightarrow> access_next st st'"
| next_replay: "replay_execution_projection_events st = Inr st' \<Longrightarrow> access_next st st'"
| next_consume:
    "access_next st (st\<lparr>xs_connector_consumed := xs_connector_consumed st \<union> C,
                        xs_attachment_consumed := xs_attachment_consumed st \<union> A,
                        xs_consumed := xs_consumed st @ cs\<rparr>)"
| next_group: "access_next st (st\<lparr>xs_grouped := G\<rparr>)"
| next_goals: "access_next st (st\<lparr>xs_goals := g\<rparr>)"

text \<open>A new database: no events and empty projections.\<close>

definition access_initial :: "exec_store \<Rightarrow> bool" where
  "access_initial st \<longleftrightarrow> xs_events st = [] \<and> xs_access st = [] \<and> xs_tools st = [] \<and>
     xs_applied st = [] \<and> xs_consumed st = [] \<and> xs_cursor st = 0 \<and> xs_bindings st = []"

section \<open>What a projection changes\<close>

text \<open>The part of the store the projection reads and writes, consumptions apart.\<close>

definition proj :: "exec_store \<Rightarrow> access_row list \<times> tool_row list \<times> uuid list" where
  "proj st = (xs_access st, xs_tools st, xs_applied st)"

definition blank :: "exec_store" where
  "blank = \<lparr>xs_events = [], xs_access = [], xs_tools = [], xs_applied = [], xs_consumed = [],
     xs_cursor = 0, xs_connector_consumed = {}, xs_attachment_consumed = {}, xs_grouped = {},
     xs_goals = (\<lambda>_. Inr None), xs_bindings = []\<rparr>"

lemma apply_proj:
  assumes "apply_execution_projection e st = Inr st'" and "proj u = proj st"
  shows "\<exists>u'. apply_execution_projection e u = Inr u' \<and> proj u' = proj st'"
  using assms unfolding apply_execution_projection_def
  by (cases "ke_payload e") (auto simp: proj_def Let_def bind_res_Inr_iff split: if_splits)

lemma apply_frame:
  assumes "apply_execution_projection e st = Inr st'"
  shows "xs_events st' = xs_events st" "xs_cursor st' = xs_cursor st"
    "xs_connector_consumed st' = xs_connector_consumed st"
    "xs_attachment_consumed st' = xs_attachment_consumed st" "xs_grouped st' = xs_grouped st"
    "xs_goals st' = xs_goals st" "xs_bindings st' = xs_bindings st"
  using assms unfolding apply_execution_projection_def
  by (cases "ke_payload e"; auto simp: Let_def bind_res_Inr_iff split: if_splits)+

lemma apply_applied:
  assumes "apply_execution_projection e st = Inr st'"
  shows "set (xs_applied st') =
     set (xs_applied st) \<union> (if is_projected (ke_payload e) then {ke_id e} else {})"
  using assms unfolding apply_execution_projection_def
  by (cases "ke_payload e") (auto simp: is_projected_def Let_def bind_res_Inr_iff split: if_splits)

lemma apply_skip: "\<not> is_projected (ke_payload e) \<or> ke_id e \<in> set (xs_applied st) \<Longrightarrow>
    apply_execution_projection e st = Inr st"
  by (auto simp: apply_execution_projection_def)

section \<open>The log determines the projection\<close>

definition rebuilds :: "exec_store \<Rightarrow> bool" where
  "rebuilds st \<longleftrightarrow>
     (\<exists>r. fold_res apply_execution_projection (xs_events st) blank = Inr r \<and> proj r = proj st)"

definition access_inv :: "exec_store \<Rightarrow> bool" where
  "access_inv st \<longleftrightarrow> rebuilds st \<and> xs_cursor st \<le> length (xs_events st) \<and>
     distinct (map ke_id (xs_events st)) \<and>
     set (xs_applied st) = ke_id ` {e \<in> set (xs_events st). is_projected (ke_payload e)} \<and>
     distinct (map access_key (xs_access st)) \<and>
     (\<forall>w \<in> set (xs_access st). \<forall>p. aw_resolution w = Some p \<longrightarrow>
        pr_request_id p = access_key w \<and> aw_status w = resolved_status p)"

lemma access_inv_frame:
  "access_inv st \<Longrightarrow> xs_events st' = xs_events st \<Longrightarrow> proj st' = proj st \<Longrightarrow>
   xs_cursor st' \<le> length (xs_events st) \<Longrightarrow> access_inv st'"
  by (simp add: access_inv_def rebuilds_def proj_def)

lemma access_initial_inv: "access_initial st \<Longrightarrow> access_inv st"
  by (simp add: access_initial_def access_inv_def rebuilds_def proj_def blank_def)

lemma project_request_rows:
  assumes "distinct (map access_key rows)"
    and "\<forall>w \<in> set rows. \<forall>p. aw_resolution w = Some p \<longrightarrow>
           pr_request_id p = access_key w \<and> aw_status w = resolved_status p"
  shows "distinct (map access_key (project_request r at rows)) \<and>
     (\<forall>w \<in> set (project_request r at rows). \<forall>p. aw_resolution w = Some p \<longrightarrow>
        pr_request_id p = access_key w \<and> aw_status w = resolved_status p)"
proof
  show "distinct (map access_key (project_request r at rows))"
    unfolding project_request_def
    by (rule distinct_upsert) (simp_all add: assms(1) access_key_def)
  show "\<forall>w \<in> set (project_request r at rows). \<forall>p. aw_resolution w = Some p \<longrightarrow>
        pr_request_id p = access_key w \<and> aw_status w = resolved_status p"
    using assms(2)
    by (auto simp: project_request_def upsert_row_def set_update access_key_def split: if_splits)
qed

lemma project_resolution_Inr:
  "project_resolution p at rows = Inr rows' \<Longrightarrow>
     (\<exists>w. row_of access_key rows (pr_request_id p) = Some w \<and>
        (\<forall>n. pr_expected_request_revision p = Some n \<longrightarrow> aw_revision w = n)) \<and>
     rows' = update_row access_key (pr_request_id p)
       (\<lambda>w. w\<lparr>aw_resolution := Some p, aw_status := resolved_status p,
              aw_revision := aw_revision w + 1, aw_updated_at := at\<rparr>) rows"
  unfolding project_resolution_def
  by (cases "pr_expected_request_revision p"; cases "row_of access_key rows (pr_request_id p)")
     (auto split: if_splits)

lemma row_of_resolution:
  "row_of access_key (update_row access_key k
     (\<lambda>w. w\<lparr>aw_resolution := q, aw_status := st, aw_revision := aw_revision w + 1,
            aw_updated_at := at\<rparr>) rows) j =
   (if j = k then map_option (\<lambda>w. w\<lparr>aw_resolution := q, aw_status := st,
      aw_revision := aw_revision w + 1, aw_updated_at := at\<rparr>) (row_of access_key rows k)
    else row_of access_key rows j)"
  by (rule row_of_update) (simp add: access_key_def)

lemma project_resolution_rows:
  assumes "project_resolution p at rows = Inr rows'"
    and "distinct (map access_key rows)"
    and "\<forall>w \<in> set rows. \<forall>p. aw_resolution w = Some p \<longrightarrow>
           pr_request_id p = access_key w \<and> aw_status w = resolved_status p"
  shows "distinct (map access_key rows') \<and>
     (\<forall>w \<in> set rows'. \<forall>p. aw_resolution w = Some p \<longrightarrow>
        pr_request_id p = access_key w \<and> aw_status w = resolved_status p)"
proof -
  note r = project_resolution_Inr [OF assms(1), THEN conjunct2]
  have "map access_key rows' = map access_key rows"
    unfolding r by (rule keys_update) (simp add: access_key_def)
  then show ?thesis using assms(2,3) by (auto simp: r set_update access_key_def)
qed

lemma apply_rows:
  assumes "apply_execution_projection e st = Inr st'"
    and "distinct (map access_key (xs_access st))"
    and "\<forall>w \<in> set (xs_access st). \<forall>p. aw_resolution w = Some p \<longrightarrow>
           pr_request_id p = access_key w \<and> aw_status w = resolved_status p"
  shows "distinct (map access_key (xs_access st')) \<and>
     (\<forall>w \<in> set (xs_access st'). \<forall>p. aw_resolution w = Some p \<longrightarrow>
        pr_request_id p = access_key w \<and> aw_status w = resolved_status p)"
proof (cases "\<not> is_projected (ke_payload e) \<or> ke_id e \<in> set (xs_applied st)")
  case True
  then show ?thesis using assms apply_skip by force
next
  case False
  then show ?thesis
    using assms project_request_rows [OF assms(2,3)] project_resolution_rows [OF _ assms(2,3)]
    unfolding apply_execution_projection_def
    by (cases "ke_payload e") (auto simp: Let_def bind_res_Inr_iff)
qed

lemma insert_Inr:
  "insert_kernel_event e st = Inr st' \<longleftrightarrow>
     ke_id e \<notin> ke_id ` set (xs_events st) \<and>
     apply_execution_projection e (st\<lparr>xs_events := xs_events st @ [e]\<rparr>) = Inr st'"
  by (auto simp: insert_kernel_event_def)

lemma insert_inv:
  assumes "access_inv st" and "insert_kernel_event e st = Inr st'"
  shows "access_inv st'"
proof -
  let ?st = "st\<lparr>xs_events := xs_events st @ [e]\<rparr>"
  have new: "ke_id e \<notin> ke_id ` set (xs_events st)"
    and ap: "apply_execution_projection e ?st = Inr st'"
    using assms(2) by (auto simp: insert_Inr)
  obtain r where r: "fold_res apply_execution_projection (xs_events st) blank = Inr r"
    "proj r = proj st"
    using assms(1) by (auto simp: access_inv_def rebuilds_def)
  have "proj r = proj ?st" using r(2) by (simp add: proj_def)
  then obtain r' where "apply_execution_projection e r = Inr r'" "proj r' = proj st'"
    using apply_proj [OF ap] by blast
  then have "rebuilds st'"
    using r(1) apply_frame(1) [OF ap] by (simp add: rebuilds_def fold_res_append)
  moreover have "set (xs_applied st') = ke_id ` {e \<in> set (xs_events st'). is_projected (ke_payload e)}"
    using apply_applied [OF ap] assms(1) apply_frame(1) [OF ap]
    by (auto simp: access_inv_def)
  ultimately show ?thesis
    using assms(1) new apply_frame(1,2) [OF ap] apply_rows [OF ap]
    by (simp add: access_inv_def)
qed

lemma append_event_insert: "append_event e st = Inr st' \<Longrightarrow> insert_kernel_event e st = Inr st'"
  unfolding append_event_def by (auto simp: bind_res_Inr_iff)

lemma append_tool_insert:
  assumes "append_tool_invocation event_id now v st = Inr st'"
  shows "\<exists>bs. insert_kernel_event \<lparr>ke_id = event_id, ke_payload = ToolRecorded v, ke_created_at = now\<rparr>
      (st\<lparr>xs_bindings := bs\<rparr>) = Inr st'"
proof -
  have same: "\<exists>bs. u = u\<lparr>xs_bindings := bs\<rparr>" for u :: exec_store
    by (rule exI [of _ "xs_bindings u"]) simp
  have bind: "bind_tool_goal now v i fr st = Inr u \<Longrightarrow> \<exists>bs. u = st\<lparr>xs_bindings := bs\<rparr>" for i fr u
    unfolding bind_tool_goal_def
    by (cases fr; cases "goal_binding_row (xs_bindings st) (ti_id v)")
       (auto split: if_splits intro: same)
  show ?thesis
    using assms same [of st] unfolding append_tool_invocation_def
    by (auto simp: bind_res_Inr_iff split: if_splits option.splits dest!: bind) metis+
qed

text \<open>Replay finds every event already applied.\<close>

lemma pending_position:
  assumes "x \<in> set (filter (\<lambda>(n, e). n > c \<and> P e) (zip [1 ..< Suc k] es))"
  shows "c < fst x \<and> fst x \<le> k"
proof -
  obtain n e where x: "x = (n, e)" by (cases x)
  have "(n, e) \<in> set (zip [1 ..< Suc k] es)" "c < n" using assms unfolding x by auto
  then have "n \<in> set [1 ..< Suc k]" by (blast dest: set_zip_leftD)
  then show ?thesis using \<open>c < n\<close> unfolding x set_upt by simp
qed

lemma replay_Inr:
  assumes "access_inv st"
  shows "\<exists>n. replay_execution_projection_events st = Inr (st\<lparr>xs_cursor := n\<rparr>) \<and>
     xs_cursor st \<le> n \<and> n \<le> length (xs_events st)"
proof -
  define pend where "pend = filter (\<lambda>(n, e). n > xs_cursor st \<and> is_projected (ke_payload e))
                      (zip [1 ..< Suc (length (xs_events st))] (xs_events st))"
  define n where "n = (if pend = [] then xs_cursor st else fst (last pend))"
  have "ke_id (snd x) \<in> set (xs_applied st)" if "x \<in> set pend" for x
  proof -
    have "snd x \<in> set (xs_events st)" "is_projected (ke_payload (snd x))"
      using that unfolding pend_def by (auto dest: set_zip_rightD)
    then show ?thesis using assms by (auto simp: access_inv_def)
  qed
  then have "fold_res apply_execution_projection (map snd pend) st = Inr st"
    by (intro fold_res_skip) (auto intro: apply_skip)
  then have "replay_execution_projection_events st = Inr (st\<lparr>xs_cursor := n\<rparr>)"
    unfolding replay_execution_projection_events_def Let_def pend_def [symmetric] n_def by simp
  moreover have "xs_cursor st \<le> n \<and> n \<le> length (xs_events st)"
  proof (cases "pend = []")
    case True
    then show ?thesis using assms by (simp add: n_def access_inv_def)
  next
    case False
    then have "last pend \<in> set pend" by simp
    then have "xs_cursor st < fst (last pend) \<and> fst (last pend) \<le> length (xs_events st)"
      unfolding pend_def by (rule pending_position)
    then show ?thesis using False by (simp add: n_def)
  qed
  ultimately show ?thesis by blast
qed

section \<open>The machine\<close>

lemma resolve_Inr:
  assumes "resolve_capability_access_request new_id event_id now later i ok note st = Inr (p, st')"
  shows "i \<notin> xs_grouped st \<and>
     (\<exists>w. access_row_of st i = Some w \<and> aw_resolution w = None \<and> aw_status w = PendingApproval \<and>
        ar_capability (aw_request w) \<noteq> ConnectorAttachmentRead \<and>
        p = (new_resolution new_id now i ok note)\<lparr>pr_expected_request_revision := Some (aw_revision w)\<rparr>) \<and>
     insert_kernel_event
       \<lparr>ke_id = event_id, ke_payload = PermissionResolved p, ke_created_at = later\<rparr> st = Inr st'"
  using assms unfolding resolve_capability_access_request_def capability_access_record_by_id_def
  by (cases "access_row_of st i")
     (auto simp: Let_def bind_res_Inr_iff append_permission_resolution_def record_event_def
        dest!: append_event_insert split: if_splits)

lemma resolve_exact_Inr:
  assumes "resolve_connector_mutation_access_request sha new_id event_id now later i ok note er epr
      eph st = Inr (p, st')"
  shows "i \<notin> xs_grouped st \<and>
     (\<exists>w scope. access_row_of st i = Some w \<and> aw_resolution w = None \<and>
        aw_status w = PendingApproval \<and> aw_revision w = er \<and>
        ar_capability (aw_request w) = ConnectorWrite \<and> ar_exact_tool (aw_request w) = Some scope \<and>
        ets_tool_id scope = CONNECTOR_MUTATE_TOOL_ID \<and> ets_preview_revision scope = epr \<and>
        ets_preview_hash scope = eph \<and>
        new_exact_resolution sha new_id now i ok note er scope = Inr p) \<and>
     insert_kernel_event
       \<lparr>ke_id = event_id, ke_payload = PermissionResolved p, ke_created_at = later\<rparr> st = Inr st'"
  using assms unfolding resolve_connector_mutation_access_request_def capability_access_record_by_id_def
  by (cases "access_row_of st i")
     (auto simp: bind_res_Inr_iff append_permission_resolution_def record_event_def invalid_state_Inr_iff
        dest!: append_event_insert split: if_splits option.splits)

text \<open>A step inserts one event, moves the cursor, or changes what other components own.\<close>

lemma access_next_insert:
  assumes "access_next st st'" and "access_inv st"
  shows "(\<exists>e bs. insert_kernel_event e (st\<lparr>xs_bindings := bs\<rparr>) = Inr st') \<or>
     (xs_events st' = xs_events st \<and> proj st' = proj st \<and> xs_cursor st' \<le> length (xs_events st) \<and>
      consumptions st \<subseteq> consumptions st')"
proof -
  have ins: "insert_kernel_event e st = Inr st' \<Longrightarrow>
      \<exists>e bs. insert_kernel_event e (st\<lparr>xs_bindings := bs\<rparr>) = Inr st'" for e
    by (rule exI [of _ e], rule exI [of _ "xs_bindings st"]) simp
  show ?thesis
    using assms(1)
  proof (cases rule: access_next.cases)
    case next_replay
    then show ?thesis using replay_Inr [OF assms(2)] by (auto simp: proj_def consumptions_def)
  qed (use assms(2) in \<open>auto simp: proj_def consumptions_def access_inv_def
        dest!: append_event_insert append_tool_insert resolve_Inr resolve_exact_Inr intro: ins\<close>)
qed

lemma access_next_inv: "access_inv st \<Longrightarrow> access_next st st' \<Longrightarrow> access_inv st'"
proof -
  assume a: "access_inv st" and n: "access_next st st'"
  have "access_inv (st\<lparr>xs_bindings := bs\<rparr>)" for bs
    by (rule access_inv_frame [OF a]) (use a in \<open>simp_all add: proj_def access_inv_def\<close>)
  then show "access_inv st'"
    using access_next_insert [OF n a] insert_inv access_inv_frame [OF a] by blast
qed

interpretation access: transition_system access_next access_inv
  by unfold_locales (rule access_next_inv)

text \<open>A resolved request stays resolved.\<close>

definition resolved_in :: "uuid \<Rightarrow> exec_store \<Rightarrow> bool" where
  "resolved_in i st \<longleftrightarrow> (\<exists>w. access_row_of st i = Some w \<and> aw_resolution w \<noteq> None)"

lemma apply_resolved:
  assumes "apply_execution_projection e st = Inr st'" and "resolved_in i st"
  shows "resolved_in i st'"
proof (cases "\<not> is_projected (ke_payload e) \<or> ke_id e \<in> set (xs_applied st)")
  case True
  then show ?thesis using assms apply_skip by force
next
  case False
  obtain w where w: "row_of access_key (xs_access st) i = Some w" "aw_resolution w \<noteq> None"
    using assms(2) by (auto simp: resolved_in_def access_row_of_def)
  show ?thesis
  proof (cases "ke_payload e")
    case (AccessRequested r)
    have "\<exists>v. row_of access_key (project_request r (ke_created_at e) (xs_access st)) i = Some v \<and>
        aw_resolution v \<noteq> None"
      unfolding project_request_def
      by (rule rows.put_keeps [OF _ w(1)]) (use w(2) in \<open>auto simp: row_fits_def access_key_def\<close>)
    then show ?thesis
      using assms(1) False AccessRequested
      by (auto simp: apply_execution_projection_def resolved_in_def access_row_of_def Let_def)
  next
    case (PermissionResolved p)
    then show ?thesis
      using assms(1) False w
      by (auto simp: apply_execution_projection_def resolved_in_def access_row_of_def Let_def
          bind_res_Inr_iff row_of_resolution dest!: project_resolution_Inr)
  qed (use assms w False in \<open>auto simp: apply_execution_projection_def resolved_in_def
        access_row_of_def Let_def\<close>)
qed

lemma access_next_resolved:
  assumes "access_inv st" and "resolved_in i st" and "access_next st st'"
  shows "resolved_in i st'"
proof -
  have "resolved_in i (st\<lparr>xs_bindings := bs, xs_events := es\<rparr>)" for bs es
    using assms(2) by (simp add: resolved_in_def access_row_of_def)
  then show ?thesis
    using access_next_insert [OF assms(3,1)] apply_resolved assms(2)
    by (auto simp: insert_Inr resolved_in_def access_row_of_def proj_def)
qed

interpretation resolved: final_system access_next access_inv "resolved_in i" "\<lambda>_. ()" for i
  by unfold_locales (auto intro: access_next_resolved)

text \<open>A consumed approval stays consumed.\<close>

lemma project_capability_mono: "set rows \<subseteq> set (project_capability v rows)"
  by (auto simp: project_capability_def consume_def split: option.splits)

lemma apply_consumed:
  "apply_execution_projection e st = Inr st' \<Longrightarrow> consumptions st \<subseteq> consumptions st'"
  using project_capability_mono unfolding apply_execution_projection_def consumptions_def
  by (cases "ke_payload e") (fastforce simp: Let_def bind_res_Inr_iff split: if_splits)+

lemma access_next_consumed:
  assumes "access_inv st" and "i \<in> consumptions st" and "access_next st st'"
  shows "i \<in> consumptions st'"
  using access_next_insert [OF assms(3,1)] assms(2)
  by (fastforce simp: insert_Inr consumptions_def [of "st\<lparr>xs_bindings := _, xs_events := _\<rparr>"]
      consumptions_def [of st] dest!: apply_consumed)

interpretation consumed: final_system access_next access_inv "\<lambda>st. i \<in> consumptions st" "\<lambda>_. ()" for i
  by unfold_locales (auto intro: access_next_consumed)

section \<open>Where rows come from\<close>

text \<open>Every request and every resolution in the projection is in the log.\<close>

definition sourced :: "exec_store \<Rightarrow> bool" where
  "sourced st \<longleftrightarrow>
     (\<forall>w \<in> set (xs_access st). AccessRequested (aw_request w) \<in> ke_payload ` set (xs_events st) \<and>
        (aw_resolution w = None \<longrightarrow> aw_status w = ar_status (aw_request w)) \<and>
        (\<forall>p. aw_resolution w = Some p \<longrightarrow> PermissionResolved p \<in> ke_payload ` set (xs_events st)))"

definition rows_from :: "access_payload set \<Rightarrow> access_row list \<Rightarrow> bool" where
  "rows_from P rows \<longleftrightarrow>
     (\<forall>w \<in> set rows. AccessRequested (aw_request w) \<in> P \<and>
        (aw_resolution w = None \<longrightarrow> aw_status w = ar_status (aw_request w)) \<and>
        (\<forall>p. aw_resolution w = Some p \<longrightarrow> PermissionResolved p \<in> P))"

lemma sourced_rows: "sourced st \<longleftrightarrow> rows_from (ke_payload ` set (xs_events st)) (xs_access st)"
  by (simp add: sourced_def rows_from_def)

lemma rows_from_mono: "rows_from P rows \<Longrightarrow> P \<subseteq> Q \<Longrightarrow> rows_from Q rows"
  unfolding rows_from_def by blast

lemma project_request_from:
  "rows_from P rows \<Longrightarrow> AccessRequested r \<in> P \<Longrightarrow> rows_from P (project_request r at rows)"
  by (auto simp: rows_from_def project_request_def upsert_row_def set_update)

lemma project_resolution_from:
  "rows_from P rows \<Longrightarrow> PermissionResolved p \<in> P \<Longrightarrow> project_resolution p at rows = Inr rows' \<Longrightarrow>
   rows_from P rows'"
  by (auto simp: rows_from_def set_update dest!: project_resolution_Inr)

lemma apply_from:
  assumes "apply_execution_projection e st = Inr st'" and "rows_from P (xs_access st)"
    and "ke_payload e \<in> P"
  shows "rows_from P (xs_access st')"
proof (cases "\<not> is_projected (ke_payload e) \<or> ke_id e \<in> set (xs_applied st)")
  case True
  then show ?thesis using assms apply_skip by force
next
  case False
  then show ?thesis
    using assms unfolding apply_execution_projection_def
    by (cases "ke_payload e")
       (auto simp: Let_def bind_res_Inr_iff intro: project_request_from project_resolution_from)
qed

lemma access_next_sourced:
  assumes "access_inv st" and "sourced st" and "access_next st st'"
  shows "sourced st'"
proof (cases "\<exists>e bs. insert_kernel_event e (st\<lparr>xs_bindings := bs\<rparr>) = Inr st'")
  case True
  then obtain e bs where
    ap: "apply_execution_projection e (st\<lparr>xs_bindings := bs, xs_events := xs_events st @ [e]\<rparr>) = Inr st'"
    by (auto simp: insert_Inr)
  have "rows_from (ke_payload ` set (xs_events st @ [e])) (xs_access st)"
    using assms(2) unfolding sourced_rows by (rule rows_from_mono) auto
  then have "rows_from (ke_payload ` set (xs_events st @ [e])) (xs_access st')"
    by (intro apply_from [OF ap]) auto
  then show ?thesis using apply_frame(1) [OF ap] by (simp add: sourced_rows)
next
  case False
  then show ?thesis
    using access_next_insert [OF assms(3,1)] assms(2) by (auto simp: sourced_def proj_def)
qed

lemma access_run_sourced:
  assumes "access_initial st0" and "access_next\<^sup>*\<^sup>* st0 st"
  shows "sourced st"
proof (rule access.run_keeps [where P = sourced, OF assms(2) access_initial_inv [OF assms(1)]])
  show "sourced st0" using assms(1) by (simp add: access_initial_def sourced_def)
qed (rule access_next_sourced)

lemma access_run_inv: "access_initial st0 \<Longrightarrow> access_next\<^sup>*\<^sup>* st0 st \<Longrightarrow> access_inv st"
  using access.run_inv access_initial_inv by blast

section \<open>Grants\<close>

definition one_shot :: "access_request \<Rightarrow> bool" where
  "one_shot r \<longleftrightarrow> ar_access_mode r = AskEveryStep \<or> capability_risk (ar_capability r) = High \<or>
     capability_risk (ar_capability r) = Critical"

lemma set_newest_first [simp]: "set (newest_first at xs) = set xs"
  by (simp add: newest_first_def)

lemma set_records: "set (list_capability_access_records st) = record_of_row st ` set (xs_access st)"
  by (simp add: list_capability_access_records_def)

lemma available_Some:
  "available_capability_grant_request_id st c = Some i \<Longrightarrow>
     \<exists>w \<in> set (xs_access st). access_key w = i \<and> ar_capability (aw_request w) = c \<and>
       aw_status w = Approved \<and> (one_shot (aw_request w) \<longrightarrow> i \<notin> consumptions st)"
proof -
  assume a: "available_capability_grant_request_id st c = Some i"
  then obtain x where x: "x \<in> set (list_capability_access_records st)" "ar_id (acc_request x) = i"
    "ar_capability (acc_request x) = c" "acc_grant_state x = Reusable \<or> acc_grant_state x = OneShotAvailable"
    unfolding available_capability_grant_request_id_def
    by (auto simp: find_Some_iff) (metis nth_mem)+
  then obtain w where "w \<in> set (xs_access st)" "x = record_of_row st w"
    by (auto simp: set_records)
  then show ?thesis using x(2-4)
    by (intro bexI [of _ w])
       (auto simp: record_of_row_def capability_grant_state_def Let_def access_key_def one_shot_def
         split: if_splits option.splits)
qed

lemma consumed_not_available:
  assumes "i \<in> consumptions st" and "x \<in> set (list_capability_access_records st)"
    and "ar_id (acc_request x) = i" and "one_shot (acc_request x)"
  shows "acc_grant_state x = NotGranted \<or> acc_grant_state x = OneShotConsumed"
  using assms
  by (auto simp: set_records record_of_row_def capability_grant_state_def Let_def one_shot_def
      split: if_splits option.splits)

lemma apply_new:
  assumes "access_inv st" and "insert_kernel_event e st = Inr st'"
  shows "ke_id e \<notin> set (xs_applied st)"
  using assms by (auto simp: insert_Inr access_inv_def)

lemma invocation_consumes:
  assumes "access_inv st" and "append_capability_invocation event_id now v st = Inr st'"
    and "ci_status v \<noteq> InvocationPendingApproval" and "ci_approval_request_id v = Some i"
    and "\<forall>p \<in> set (xs_consumed st). snd p = ci_id v \<longrightarrow> fst p = i"
  shows "i \<in> consumptions st'"
proof -
  let ?e = "\<lparr>ke_id = event_id, ke_payload = CapabilityRecorded v, ke_created_at = now\<rparr>"
  have ins: "insert_kernel_event ?e st = Inr st'"
    using assms(2) by (auto simp: append_capability_invocation_def record_event_def dest: append_event_insert)
  have "xs_consumed st' = consume i (ci_id v) (xs_consumed st)"
    using ins apply_new [OF assms(1) ins] assms(3,4)
    by (auto simp: insert_Inr apply_execution_projection_def is_projected_def project_capability_def)
  then have "i \<in> fst ` set (xs_consumed st')"
    using assms(5) by (force simp: consume_def)
  then show ?thesis by (simp add: consumptions_def)
qed

lemma resolution_row:
  assumes inv: "access_inv st"
    and ins: "insert_kernel_event \<lparr>ke_id = event_id, ke_payload = PermissionResolved p,
      ke_created_at = later\<rparr> st = Inr st'"
  shows "\<exists>w. access_row_of st (pr_request_id p) = Some w \<and>
     access_row_of st' (pr_request_id p) = Some (w\<lparr>aw_resolution := Some p,
       aw_status := resolved_status p, aw_revision := aw_revision w + 1, aw_updated_at := later\<rparr>) \<and>
     (\<forall>j. j \<noteq> pr_request_id p \<longrightarrow> access_row_of st' j = access_row_of st j)"
  using ins apply_new [OF inv ins]
  by (auto simp: insert_Inr apply_execution_projection_def is_projected_def bind_res_Inr_iff
      access_row_of_def row_of_resolution dest!: project_resolution_Inr)

lemma resolvers_refuse:
  assumes "resolved_in i st"
  shows "\<not> is_ok (resolve_capability_access_request new_id event_id now later i ok note st)"
    and "\<not> is_ok (resolve_connector_mutation_access_request sha new_id event_id now later i ok note
           er epr eph st)"
proof -
  show "\<not> is_ok (resolve_capability_access_request new_id event_id now later i ok note st)"
    using assms by (cases "resolve_capability_access_request new_id event_id now later i ok note st")
      (auto simp: resolved_in_def dest!: resolve_Inr)
  show "\<not> is_ok (resolve_connector_mutation_access_request sha new_id event_id now later i ok note
           er epr eph st)"
    using assms
    by (cases "resolve_connector_mutation_access_request sha new_id event_id now later i ok note er
          epr eph st")
      (auto simp: resolved_in_def dest!: resolve_exact_Inr)
qed

section \<open>Goal bindings of running tools\<close>

definition bound_to :: "uuid \<Rightarrow> exec_store \<Rightarrow> bool" where
  "bound_to i st \<longleftrightarrow> goal_binding_row (xs_bindings st) i \<noteq> None"

lemma insert_bindings:
  "insert_kernel_event e st = Inr st' \<Longrightarrow> xs_bindings st' = xs_bindings st"
  by (auto simp: insert_Inr dest!: apply_frame(7))

lemma bind_tool_goal_row:
  assumes "bind_tool_goal now v run_id frozen st = Inr u"
  shows "\<exists>b fv. frozen = Some fv \<and> goal_binding_row (xs_bindings u) (ti_id v) = Some b \<and>
     gb_goal b = run_id \<and> gb_revision b = fv_revision fv \<and> gb_fingerprint b = fv_fingerprint fv \<and>
     gb_request_fingerprint b = ti_request_fingerprint v \<and> ti_request_fingerprint v \<noteq> []"
    and "goal_binding_row (xs_bindings st) j = Some b \<Longrightarrow> goal_binding_row (xs_bindings u) j = Some b"
  using assms unfolding bind_tool_goal_def goal_binding_row_def
  by (cases frozen; cases "row_of gb_invocation (xs_bindings st) (ti_id v)";
      auto simp: row_of_append row_of_Cons split: if_splits)+

lemma append_tool_bindings:
  assumes "append_tool_invocation event_id now v st = Inr st'"
    and "goal_binding_row (xs_bindings st) j = Some b"
  shows "goal_binding_row (xs_bindings st') j = Some b"
proof -
  obtain u where u: "insert_kernel_event \<lparr>ke_id = event_id, ke_payload = ToolRecorded v, ke_created_at = now\<rparr> u
      = Inr st'" "u = st \<or> (\<exists>r f. bind_tool_goal now v r f st = Inr u)"
    using assms(1) unfolding append_tool_invocation_def
    by (auto simp: bind_res_Inr_iff split: if_splits option.splits)
  then have "goal_binding_row (xs_bindings u) j = Some b"
    using assms(2) bind_tool_goal_row(2) by blast
  then show ?thesis using insert_bindings [OF u(1)] by simp
qed

lemma access_next_bound:
  assumes "access_inv st" and "goal_binding_row (xs_bindings st) j = Some b" and "access_next st st'"
  shows "goal_binding_row (xs_bindings st') j = Some b"
  using assms(3)
proof (cases rule: access_next.cases)
  case (next_tool event_id now v)
  then show ?thesis using append_tool_bindings assms(2) by blast
next
  case next_replay
  then show ?thesis using replay_Inr [OF assms(1)] assms(2) by auto
qed (use assms(2) in \<open>auto dest!: append_event_insert resolve_Inr resolve_exact_Inr insert_bindings\<close>)

interpretation bound: final_system access_next access_inv
    "\<lambda>st. goal_binding_row (xs_bindings st) j = Some b" "\<lambda>_. ()" for j b
  by unfold_locales (auto intro: access_next_bound)

lemma append_tool_bound:
  assumes "append_tool_invocation event_id now v st = Inr st'" and "ti_status v = ToolRunning"
    and "ti_run_id v = Some run_id" and "xs_goals st run_id = Inr (Some frozen)"
  shows "\<exists>b fv. frozen = Some fv \<and> goal_binding_row (xs_bindings st') (ti_id v) = Some b \<and>
     gb_goal b = run_id \<and> gb_revision b = fv_revision fv \<and> gb_fingerprint b = fv_fingerprint fv \<and>
     gb_request_fingerprint b = ti_request_fingerprint v \<and> ti_request_fingerprint v \<noteq> []"
proof -
  obtain u where u: "bind_tool_goal now v run_id frozen st = Inr u"
    "insert_kernel_event \<lparr>ke_id = event_id, ke_payload = ToolRecorded v, ke_created_at = now\<rparr> u = Inr st'"
    using assms unfolding append_tool_invocation_def by (auto simp: bind_res_Inr_iff)
  show ?thesis using bind_tool_goal_row(1) [OF u(1)] insert_bindings [OF u(2)] by simp
qed

section \<open>A concrete store\<close>

definition demo_request :: access_request where
  "demo_request = \<lparr>ar_id = 1, ar_access_mode = AskOnRisk, ar_family = Email, ar_capability = EmailSend,
     ar_title = ''Email send'', ar_summary = ''s'', ar_risk_level = Critical, ar_decision = Ask,
     ar_status = PendingApproval, ar_reason = ''r'', ar_exact_tool = None, ar_created_at = 0\<rparr>"

definition demo_store :: exec_store where
  "demo_store = blank\<lparr>
     xs_events := [\<lparr>ke_id = 100, ke_payload = AccessRequested demo_request, ke_created_at = 1\<rparr>],
     xs_access := [\<lparr>aw_request = demo_request, aw_resolution = None, aw_status = PendingApproval,
                    aw_revision = 0, aw_created_at = 1, aw_updated_at = 1\<rparr>],
     xs_applied := [100]\<rparr>"

definition demo_resolution :: permission_resolution where
  "demo_resolution = \<lparr>pr_id = 5, pr_request_id = 1, pr_approved = True, pr_note = [],
     pr_expected_request_revision = Some 0, pr_exact_preview_revision = None,
     pr_exact_preview_hash = None, pr_created_at = 2\<rparr>"

definition demo_resolved :: exec_store where
  "demo_resolved = demo_store\<lparr>
     xs_events := xs_events demo_store @
       [\<lparr>ke_id = 101, ke_payload = PermissionResolved demo_resolution, ke_created_at = 3\<rparr>],
     xs_access := [\<lparr>aw_request = demo_request, aw_resolution = Some demo_resolution,
                    aw_status = Approved, aw_revision = 1, aw_created_at = 1, aw_updated_at = 3\<rparr>],
     xs_applied := [100, 101]\<rparr>"

definition demo_invocation :: capability_invocation where
  "demo_invocation = \<lparr>ci_id = 9, ci_capability = EmailSend, ci_status = InvocationSucceeded,
     ci_policy_decision = Ask, ci_approval_request_id = Some 1, ci_requested_resource = None,
     ci_evidence_ref = None, ci_requested_url = None, ci_evidence_url = None, ci_title = None,
     ci_excerpt = None, ci_warnings = [], ci_elapsed_ms = 0, ci_created_at = 4\<rparr>"

definition demo_spent :: exec_store where
  "demo_spent = demo_resolved\<lparr>
     xs_events := xs_events demo_resolved @
       [\<lparr>ke_id = 102, ke_payload = CapabilityRecorded demo_invocation, ke_created_at = 4\<rparr>],
     xs_applied := [100, 101, 102], xs_consumed := [(1, 9)]\<rparr>"

lemmas demo_store_defs = demo_store_def demo_resolved_def demo_spent_def demo_request_def
  demo_resolution_def demo_invocation_def blank_def

lemma demo_blank [simp]: "access_initial blank"
  by (simp add: access_initial_def blank_def)

lemma demo_append: "append_capability_access_request 100 1 demo_request blank = Inr demo_store"
  by (simp add: append_capability_access_request_def record_event_def append_event_def
      insert_kernel_event_def apply_execution_projection_def is_projected_def project_request_def
      upsert_row_def demo_store_defs)

lemma demo_row: "access_row_of demo_store 1 = Some \<lparr>aw_request = demo_request, aw_resolution = None,
    aw_status = PendingApproval, aw_revision = 0, aw_created_at = 1, aw_updated_at = 1\<rparr>"
  by (simp add: access_row_of_def row_of_Cons access_key_def demo_store_def demo_request_def)

lemma demo_resolve:
  "resolve_capability_access_request 5 101 2 3 1 True [] demo_store = Inr (demo_resolution, demo_resolved)"
  unfolding resolve_capability_access_request_def capability_access_record_by_id_def demo_row
  by (simp add: Let_def append_permission_resolution_def record_event_def append_event_def
      insert_kernel_event_def apply_execution_projection_def is_projected_def project_resolution_def
      new_resolution_def row_of_Cons access_key_def update_row_def resolved_status_def demo_store_defs)

lemma demo_invoke: "append_capability_invocation 102 4 demo_invocation demo_resolved = Inr demo_spent"
  by (simp add: append_capability_invocation_def record_event_def append_event_def
      insert_kernel_event_def apply_execution_projection_def is_projected_def project_capability_def
      consume_def demo_store_defs)

lemma demo_run: "access_next\<^sup>*\<^sup>* blank demo_store" "access_next\<^sup>*\<^sup>* demo_store demo_resolved"
  "access_next\<^sup>*\<^sup>* demo_resolved demo_spent"
  using next_append demo_append next_resolve [OF demo_resolve] demo_invoke
  unfolding append_capability_access_request_def append_capability_invocation_def record_event_def
  by blast+

lemma demo_runs: "access_next\<^sup>*\<^sup>* blank demo_resolved" "access_next\<^sup>*\<^sup>* blank demo_spent"
  using demo_run by (blast intro: rtranclp_trans)+

section \<open>Properties\<close>

text \<open>
  C17: the projection tables are what the log says. For every store reached from a new database,
  applying the events of \<open>kernel_events\<close> in rowid order to empty tables succeeds and gives
  exactly the rows of \<open>capability_access_state\<close> and \<open>tool_invocation_state\<close> and the applied
  events, whatever operations, replays and restarts the store went through. The table of spent
  approvals is not part of the claim: grouped approvals write it without an event of the log.
\<close>

theorem log_determines_projection:
  assumes "access_initial st0" and "access_next\<^sup>*\<^sup>* st0 st"
  shows "\<exists>r. fold_res apply_execution_projection (xs_events st) blank = Inr r \<and>
     xs_access r = xs_access st \<and> xs_tools r = xs_tools st \<and> xs_applied r = xs_applied st"
  using access_run_inv [OF assms] by (auto simp: access_inv_def rebuilds_def proj_def)

theorem log_determines_projection_witness:
  "\<exists>r. fold_res apply_execution_projection (xs_events demo_spent) blank = Inr r \<and>
     xs_access r = xs_access demo_spent"
  using log_determines_projection [OF demo_blank demo_runs(2)] by blast

text \<open>
  C27: replaying the log when the store is opened applies no event twice. On every reachable
  store the replay succeeds and changes nothing but the cursor, which only moves forward and
  never past the log.
\<close>

theorem replay_applies_nothing_twice:
  assumes "access_initial st0" and "access_next\<^sup>*\<^sup>* st0 st"
  shows "\<exists>n. replay_execution_projection_events st = Inr (st\<lparr>xs_cursor := n\<rparr>) \<and>
     xs_cursor st \<le> n \<and> n \<le> length (xs_events st)"
  by (rule replay_Inr [OF access_run_inv [OF assms]])

theorem replay_applies_nothing_twice_witness:
  "\<exists>n. replay_execution_projection_events demo_spent = Inr (demo_spent\<lparr>xs_cursor := n\<rparr>)"
  using replay_applies_nothing_twice [OF demo_blank demo_runs(2)] by blast

text \<open>
  C23: a request is resolved at most once by the user's resolvers. After either resolver has
  succeeded on a request, both refuse it in every later state.
\<close>

theorem request_resolved_once:
  assumes "access_initial st0" and "access_next\<^sup>*\<^sup>* st0 st"
    and "resolve_capability_access_request new_id event_id now later i ok note st = Inr (p, st1) \<or>
         resolve_connector_mutation_access_request sha new_id event_id now later i ok note er epr eph st
           = Inr (p, st1)"
    and "access_next\<^sup>*\<^sup>* st1 st2"
  shows "\<not> is_ok (resolve_capability_access_request new_id' event_id' now' later' i ok' note' st2) \<and>
     \<not> is_ok (resolve_connector_mutation_access_request sha' new_id' event_id' now' later' i ok' note'
          er' epr' eph' st2)"
proof -
  have inv: "access_inv st" by (rule access_run_inv [OF assms(1,2)])
  have p: "pr_request_id p = i"
    and "\<exists>e. insert_kernel_event \<lparr>ke_id = e, ke_payload = PermissionResolved p,
      ke_created_at = later\<rparr> st = Inr st1"
    using assms(3) by (auto simp: new_resolution_def new_exact_resolution_def
        dest!: resolve_Inr resolve_exact_Inr split: if_splits)
  then obtain e where e: "insert_kernel_event \<lparr>ke_id = e, ke_payload = PermissionResolved p,
      ke_created_at = later\<rparr> st = Inr st1" by blast
  have r: "resolved_in i st1" "access_inv st1"
    using resolution_row [OF inv e] insert_inv [OF inv e] p by (auto simp: resolved_in_def)
  have "resolved_in i st2" using resolved.run_final [OF assms(4) r(2,1)] by simp
  then show ?thesis by (simp add: resolvers_refuse)
qed

theorem request_resolved_once_witness:
  "\<not> is_ok (resolve_capability_access_request 6 103 5 6 1 False [] demo_spent)"
  using request_resolved_once [OF demo_blank demo_run(1) disjI1 [OF demo_resolve] demo_run(3)] by blast

text \<open>
  a resolver records exactly the decision it was given: the resolution is the one it
  returns and is the last event of the log, the request's row carries it with the status
  Approved or Rejected and the next revision, and no other request changes. The request was
  pending and unresolved, and not part of a grouped approval.
\<close>

theorem resolve_records_decision:
  assumes "access_initial st0" and "access_next\<^sup>*\<^sup>* st0 st"
    and "resolve_capability_access_request new_id event_id now later i ok note st = Inr (p, st')"
  shows "\<exists>w. access_row_of st i = Some w \<and> aw_status w = PendingApproval \<and> aw_resolution w = None \<and>
     i \<notin> xs_grouped st \<and> pr_request_id p = i \<and> pr_approved p = ok \<and>
     access_row_of st' i = Some (w\<lparr>aw_resolution := Some p,
       aw_status := (if ok then Approved else Rejected), aw_revision := aw_revision w + 1,
       aw_updated_at := later\<rparr>) \<and>
     (\<forall>j. j \<noteq> i \<longrightarrow> access_row_of st' j = access_row_of st j) \<and>
     xs_events st' = xs_events st @
       [\<lparr>ke_id = event_id, ke_payload = PermissionResolved p, ke_created_at = later\<rparr>]"
proof -
  note r = resolve_Inr [OF assms(3)]
  have ins: "insert_kernel_event
       \<lparr>ke_id = event_id, ke_payload = PermissionResolved p, ke_created_at = later\<rparr> st = Inr st'"
    using r by simp
  have "pr_request_id p = i" "pr_approved p = ok" using r by (auto simp: new_resolution_def)
  moreover have "xs_events st' = xs_events st @
       [\<lparr>ke_id = event_id, ke_payload = PermissionResolved p, ke_created_at = later\<rparr>]"
    using ins by (auto simp: insert_Inr dest!: apply_frame(1))
  ultimately show ?thesis
    using r resolution_row [OF access_run_inv [OF assms(1,2)] ins] by (auto simp: resolved_status_def)
qed

theorem resolve_records_decision_witness:
  "\<exists>w. access_row_of demo_resolved 1 = Some w \<and> aw_status w = Approved \<and> aw_revision w = 1"
proof -
  obtain w where "access_row_of demo_store 1 = Some w" "access_row_of demo_resolved 1 =
      Some (w\<lparr>aw_resolution := Some demo_resolution, aw_status := Approved,
        aw_revision := aw_revision w + 1, aw_updated_at := 3\<rparr>)"
    using resolve_records_decision [OF demo_blank demo_run(1) demo_resolve] by auto
  moreover from this(1) have "aw_revision w = 0" unfolding demo_row by auto
  ultimately show ?thesis by simp
qed

text \<open>
  C20: a one-shot approval is spent by its first use. Once an invocation that is not itself
  waiting for approval is recorded under a request, no later state offers the request as a
  grant as long as it is a one-shot request (high or critical risk, or ask-every-step mode),
  if its invocation id was not already spent on another request.
\<close>

theorem one_shot_grant_spent_once:
  assumes "access_initial st0" and "access_next\<^sup>*\<^sup>* st0 st"
    and "append_capability_invocation event_id now v st = Inr st1"
    and "ci_status v \<noteq> InvocationPendingApproval" and "ci_approval_request_id v = Some i"
    and "\<forall>q \<in> set (xs_consumed st). snd q = ci_id v \<longrightarrow> fst q = i"
    and "access_next\<^sup>*\<^sup>* st1 st2"
  shows "(\<forall>x \<in> set (list_capability_access_records st2).
       ar_id (acc_request x) = i \<longrightarrow> one_shot (acc_request x) \<longrightarrow>
         acc_grant_state x = NotGranted \<or> acc_grant_state x = OneShotConsumed) \<and>
     (\<forall>w c. access_row_of st2 i = Some w \<longrightarrow> one_shot (aw_request w) \<longrightarrow>
         available_capability_grant_request_id st2 c \<noteq> Some i)"
proof -
  have inv: "access_inv st" by (rule access_run_inv [OF assms(1,2)])
  have i1: "i \<in> consumptions st1" by (rule invocation_consumes [OF inv assms(3-6)])
  have "insert_kernel_event \<lparr>ke_id = event_id, ke_payload = CapabilityRecorded v, ke_created_at = now\<rparr> st
      = Inr st1"
    using assms(3) by (auto simp: append_capability_invocation_def record_event_def dest: append_event_insert)
  then have inv1: "access_inv st1" using insert_inv inv by blast
  have i2: "i \<in> consumptions st2" using consumed.run_final [OF assms(7) inv1 i1] by simp
  have inv2: "access_inv st2" by (rule access.run_inv [OF assms(7) inv1])
  have "available_capability_grant_request_id st2 c \<noteq> Some i"
    if "access_row_of st2 i = Some w" "one_shot (aw_request w)" for w c
  proof
    assume "available_capability_grant_request_id st2 c = Some i"
    then obtain u where "u \<in> set (xs_access st2)" "access_key u = i" "\<not> one_shot (aw_request u)"
      using available_Some i2 by blast
    moreover have "row_of access_key (xs_access st2) (access_key u) = Some u"
      using inv2 \<open>u \<in> set (xs_access st2)\<close> by (simp add: access_inv_def row_of_mem)
    ultimately show False using that by (simp add: access_row_of_def)
  qed
  then show ?thesis using consumed_not_available [OF i2] by blast
qed

theorem one_shot_grant_spent_once_witness:
  "available_capability_grant_request_id demo_resolved EmailSend = Some 1 \<and>
   available_capability_grant_request_id demo_spent EmailSend \<noteq> Some 1"
proof
  show "available_capability_grant_request_id demo_resolved EmailSend = Some 1"
    by (simp add: available_capability_grant_request_id_def list_capability_access_records_def
        newest_first_def record_of_row_def capability_grant_state_def consumptions_def demo_store_defs)
  have "\<exists>w. access_row_of demo_spent 1 = Some w \<and> one_shot (aw_request w)"
    by (simp add: access_row_of_def row_of_Cons access_key_def one_shot_def demo_store_defs)
  moreover have "ci_status demo_invocation \<noteq> InvocationPendingApproval"
    "ci_approval_request_id demo_invocation = Some 1" "xs_consumed demo_resolved = []"
    by (simp_all add: demo_store_defs)
  ultimately show "available_capability_grant_request_id demo_spent EmailSend \<noteq> Some 1"
    using one_shot_grant_spent_once [OF demo_blank demo_runs(1) demo_invoke, where i = 1] by auto
qed

text \<open>
  C38: no grant without an approval. A request offered as a grant for a capability is a request
  for that capability in the log, and its approval is in the log too: a resolution of this
  request with \<open>approved\<close>, unless the request itself was recorded with the status Approved
  (which \<open>request_capability_access\<close> never does).
\<close>

theorem grant_has_approval_in_log:
  assumes "access_initial st0" and "access_next\<^sup>*\<^sup>* st0 st"
    and "available_capability_grant_request_id st c = Some i"
  shows "\<exists>r. AccessRequested r \<in> ke_payload ` set (xs_events st) \<and> ar_id r = i \<and>
     ar_capability r = c \<and>
     (ar_status r = Approved \<or>
      (\<exists>p. PermissionResolved p \<in> ke_payload ` set (xs_events st) \<and> pr_request_id p = i \<and>
         pr_approved p))"
proof -
  obtain w where w: "w \<in> set (xs_access st)" "access_key w = i" "ar_capability (aw_request w) = c"
    "aw_status w = Approved"
    using available_Some [OF assms(3)] by blast
  have s: "AccessRequested (aw_request w) \<in> ke_payload ` set (xs_events st)"
    "aw_resolution w = None \<longrightarrow> ar_status (aw_request w) = Approved"
    "\<forall>p. aw_resolution w = Some p \<longrightarrow> PermissionResolved p \<in> ke_payload ` set (xs_events st)"
    using access_run_sourced [OF assms(1,2)] w(1,4) by (auto simp: sourced_def)
  have "\<forall>p. aw_resolution w = Some p \<longrightarrow> pr_request_id p = i \<and> pr_approved p"
    using access_run_inv [OF assms(1,2)] w by (auto simp: access_inv_def resolved_status_def split: if_splits)
  then show ?thesis
    using s w by (intro exI [of _ "aw_request w"], cases "aw_resolution w") (auto simp: access_key_def)
qed

theorem grant_has_approval_in_log_witness:
  "\<exists>r. AccessRequested r \<in> ke_payload ` set (xs_events demo_resolved) \<and> ar_id r = 1 \<and>
     ar_capability r = EmailSend"
proof -
  have "available_capability_grant_request_id demo_resolved EmailSend = Some 1"
    by (simp add: available_capability_grant_request_id_def list_capability_access_records_def
        newest_first_def record_of_row_def capability_grant_state_def consumptions_def demo_store_defs)
  from grant_has_approval_in_log [OF demo_blank demo_runs(1) this] show ?thesis by blast
qed

text \<open>
  C39: a tool invocation belongs to one frozen goal. If recording it as running succeeded twice
  in a run of the store while the run had a goal, both times the goal was frozen with the same
  revision and fingerprint, the run and the request fingerprint were the same, and the request
  fingerprint was not empty.
\<close>

theorem running_tool_keeps_goal:
  assumes "access_initial st0" and "access_next\<^sup>*\<^sup>* st0 st"
    and "append_tool_invocation e1 t1 v1 st = Inr st1" and "access_next\<^sup>*\<^sup>* st1 st2"
    and "append_tool_invocation e2 t2 v2 st2 = Inr st3" and "ti_id v2 = ti_id v1"
    and "ti_status v1 = ToolRunning" and "ti_status v2 = ToolRunning"
    and "ti_run_id v1 = Some r1" and "ti_run_id v2 = Some r2"
    and "xs_goals st r1 = Inr (Some g1)" and "xs_goals st2 r2 = Inr (Some g2)"
  shows "r1 = r2 \<and> ti_request_fingerprint v1 = ti_request_fingerprint v2 \<and>
     ti_request_fingerprint v1 \<noteq> [] \<and>
     (\<exists>f1 f2. g1 = Some f1 \<and> g2 = Some f2 \<and> fv_revision f1 = fv_revision f2 \<and>
        fv_fingerprint f1 = fv_fingerprint f2)"
proof -
  have inv: "access_inv st1"
    using access_next_inv [OF access_run_inv [OF assms(1,2)] next_tool [OF assms(3)]] .
  obtain b f1 where b: "g1 = Some f1" "goal_binding_row (xs_bindings st1) (ti_id v1) = Some b"
    "gb_goal b = r1" "gb_revision b = fv_revision f1" "gb_fingerprint b = fv_fingerprint f1"
    "gb_request_fingerprint b = ti_request_fingerprint v1" "ti_request_fingerprint v1 \<noteq> []"
    using append_tool_bound [OF assms(3,7,9,11)] by blast
  have "goal_binding_row (xs_bindings st2) (ti_id v1) = Some b"
    using bound.run_final [OF assms(4) inv b(2)] by simp
  then have b3: "goal_binding_row (xs_bindings st3) (ti_id v2) = Some b"
    using append_tool_bindings [OF assms(5)] assms(6) by simp
  then show ?thesis
    using append_tool_bound [OF assms(5,8,10,12)] b by auto
qed

definition demo_tool :: tool_invocation where
  "demo_tool = \<lparr>ti_id = 20, ti_run_id = Some 30, ti_tool_id = ''t'', ti_tool_version = ''1'',
     ti_capability = FileRead, ti_status = ToolRunning, ti_policy_decision = Allow,
     ti_approval_request_id = None, ti_input_summary = [], ti_request_fingerprint = ''f'',
     ti_output = None, ti_evidence = [],
     ti_verification = \<lparr>tv_passed = False, tv_summary = [], tv_checked_at = 0\<rparr>, ti_error = None,
     ti_recovery_hint = [], ti_elapsed_ms = 0, ti_created_at = 0, ti_finished_at = None\<rparr>"

definition demo_goal_store :: exec_store where
  "demo_goal_store = blank\<lparr>xs_goals := \<lambda>r. Inr (Some (Some \<lparr>fv_revision = ''r'', fv_fingerprint = ''g''\<rparr>))\<rparr>"

theorem running_tool_keeps_goal_witness:
  "\<exists>st1 st2. append_tool_invocation 200 1 demo_tool demo_goal_store = Inr st1 \<and>
     append_tool_invocation 201 2 demo_tool st1 = Inr st2 \<and> ti_request_fingerprint demo_tool \<noteq> []"
proof -
  have i: "access_initial demo_goal_store"
    by (simp add: access_initial_def demo_goal_store_def blank_def)
  have t: "ti_status demo_tool = ToolRunning" "ti_run_id demo_tool = Some 30"
    by (simp_all add: demo_tool_def)
  obtain st1 where s1: "append_tool_invocation 200 1 demo_tool demo_goal_store = Inr st1"
    "xs_goals st1 30 = Inr (Some (Some \<lparr>fv_revision = ''r'', fv_fingerprint = ''g''\<rparr>))"
    "\<exists>st2. append_tool_invocation 201 2 demo_tool st1 = Inr st2"
    by (simp add: append_tool_invocation_def bind_tool_goal_def goal_binding_row_def row_of_Cons
        insert_kernel_event_def apply_execution_projection_def is_projected_def project_tool_def
        upsert_row_def demo_goal_store_def blank_def demo_tool_def)
  then obtain st2 where s2: "append_tool_invocation 201 2 demo_tool st1 = Inr st2" by blast
  have g: "xs_goals demo_goal_store 30 = Inr (Some (Some \<lparr>fv_revision = ''r'', fv_fingerprint = ''g''\<rparr>))"
    by (simp add: demo_goal_store_def)
  show ?thesis
    using running_tool_keeps_goal [OF i rtranclp.rtrancl_refl s1(1) rtranclp.rtrancl_refl s2 refl
        t(1) t(1) t(2) t(2) g s1(2)] s1(1) s2 by blast
qed

end
