(* ===== verification/Expert_Team.thy ===== *)
theory Expert_Team
  imports Event_Log
begin

text \<open>
  Expert teams, \<open>kernel/expert_team.rs\<close>: the plan a model proposes, the contracts the host
  makes of it, and the rules for resources, evidence and claims. The dependency check is a
  depth-first search over a hash map whose key order is not specified; the order is an argument
  of the model and the results hold for every order. SHA-256 is a parameter. Staging files on
  disk is not modelled.
\<close>

section \<open>Data\<close>

type_synonym usize = "64 word"

definition EXPERT_TEAM_MAX_MEMBERS :: nat where "EXPERT_TEAM_MAX_MEMBERS = 4"
definition EXPERT_TEAM_MAX_DEPENDENCIES :: nat where "EXPERT_TEAM_MAX_DEPENDENCIES = 3"
definition EXPERT_TEAM_MAX_RESOURCES :: nat where "EXPERT_TEAM_MAX_RESOURCES = 8"
definition EXPERT_TEAM_MAX_CAPABILITIES :: nat where "EXPERT_TEAM_MAX_CAPABILITIES = 4"
definition EXPERT_TEAM_MAX_CLAIMS :: nat where "EXPERT_TEAM_MAX_CLAIMS = 32"
definition EXPERT_TEAM_MAX_EVIDENCE :: nat where "EXPERT_TEAM_MAX_EVIDENCE = 64"

datatype expert_role = Research | Analysis | Production | Review

datatype expert_capability =
  ExpertFileRead | ExpertNetworkSearch | ExpertBrowserBrowse | ManagedStagingWrite

datatype resource_access = ReadAccess | WriteAccess

record resource_requirement =
  rr_key :: string
  rr_access :: resource_access

record expert_budget =
  eb_max_elapsed_ms :: u64
  eb_max_tool_calls :: u32
  eb_max_tokens :: u32
  eb_max_output_bytes :: u64
  eb_max_staged_bytes :: u64

record output_contract =
  oc_min_evidence_sources :: usize
  oc_require_claims :: bool
  oc_require_staged_output :: bool
  oc_require_review :: bool
  oc_fail_on_unresolved_conflict :: bool

record retry_policy =
  rp_max_attempts :: u8
  rp_substitute_role :: "expert_role option"

record plan_item =
  pi_key :: string
  pi_role :: expert_role
  pi_prompt :: string
  pi_depends_on :: "string list"
  pi_capabilities :: "expert_capability list"
  pi_resources :: "resource_requirement list"
  pi_budget :: expert_budget
  pi_output_contract :: output_contract
  pi_retry_policy :: retry_policy

record attempt_contract =
  ac_team_id :: uuid
  ac_parent_run_id :: uuid
  ac_parent_input_revision :: string
  ac_key :: string
  ac_role :: expert_role
  ac_attempt :: u8
  ac_previous_attempt_run_id :: "uuid option"
  ac_prompt :: string
  ac_depends_on :: "string list"
  ac_capabilities :: "expert_capability list"
  ac_resources :: "resource_requirement list"
  ac_budget :: expert_budget
  ac_output_contract :: output_contract
  ac_retry_policy :: retry_policy

datatype claim_stance = Supports | Contradicts | Uncertain

record expert_claim =
  ec_key :: string
  ec_statement :: string
  ec_stance :: claim_stance
  ec_evidence_refs :: "string list"

datatype review_decision = Accept | Reject | NeedsRevision

record review_verdict =
  rv_target_revision :: string
  rv_decision :: review_decision
  rv_findings :: "string list"

record evidence_ref =
  ev_id :: string
  ev_kind :: string
  ev_reference :: string
  ev_summary :: string
  ev_verified :: bool

record staging_manifest =
  sm_relative_path :: string
  sm_absolute_path :: string
  sm_sha256 :: string
  sm_bytes :: u64

record quality_gate =
  qg_code :: string
  qg_passed :: bool
  qg_detail :: string

datatype effect_state = NoEffect | VerifiedReadOnly | ManagedStagingOnly | UncertainEffect

record attempt_usage =
  au_elapsed_ms :: u64
  au_tool_calls :: u32
  au_tokens :: u32
  au_output_bytes :: u64
  au_staged_bytes :: u64

record attempt_result =
  er_id :: uuid
  er_run_id :: uuid
  er_parent_run_id :: uuid
  er_key :: string
  er_role :: expert_role
  er_attempt :: u8
  er_parent_input_revision :: string
  er_output_revision :: string
  er_summary :: string
  er_claims :: "expert_claim list"
  er_evidence :: "evidence_ref list"
  er_unresolved_conflicts :: "string list"
  er_missing_evidence :: "string list"
  er_usage :: attempt_usage
  er_quality_gates :: "quality_gate list"
  er_staging :: "staging_manifest option"
  er_review :: "review_verdict option"
  er_external_effect_state :: effect_state
  er_retry_eligible :: bool
  er_recorded_at :: instant

record merge_receipt =
  mr_id :: uuid
  mr_parent_run_id :: uuid
  mr_parent_input_revision :: string
  mr_production_run_id :: uuid
  mr_production_revision :: string
  mr_review_run_id :: uuid
  mr_merged_at :: instant

definition passed :: "attempt_result \<Rightarrow> bool" where
  "passed r \<longleftrightarrow> er_quality_gates r \<noteq> [] \<and> list_all qg_passed (er_quality_gates r)"

definition parent_input_revision :: "digest \<Rightarrow> string \<Rightarrow> string" where
  "parent_input_revision sha prompt = sha (trim prompt)"

section \<open>Validation of a plan\<close>

definition validate_key :: "string \<Rightarrow> string \<Rightarrow> unit res" where
  "validate_key value field =
     (let value = trim value in
      if value = [] \<or> length value > 64
         \<or> \<not> list_all (\<lambda>c. is_alnum c \<or> c = CHR ''-'' \<or> c = CHR ''_'') value
      then Inl (field @ '' must use 1-64 ASCII letters, numbers, hyphens, or underscores'')
      else Inr ())"

text \<open>\<open>validate_text\<close> is called with the limit 4000 only, which its message prints.\<close>

definition validate_text :: "string \<Rightarrow> string \<Rightarrow> nat \<Rightarrow> string \<Rightarrow> unit res" where
  "validate_text value field max_chars max_text =
     (let value = trim value in
      if value = [] \<or> char_count value > max_chars
      then Inl (field @ '' is empty or exceeds '' @ max_text @ '' characters'') else Inr ())"

definition validate_budget :: "expert_budget \<Rightarrow> unit res" where
  "validate_budget b =
     (if \<not> (1000 \<le> eb_max_elapsed_ms b \<and> eb_max_elapsed_ms b \<le> 900000)
         \<or> \<not> (1 \<le> eb_max_tool_calls b \<and> eb_max_tool_calls b \<le> 32)
         \<or> \<not> (256 \<le> eb_max_tokens b \<and> eb_max_tokens b \<le> 64000)
         \<or> \<not> (1024 \<le> eb_max_output_bytes b \<and> eb_max_output_bytes b \<le> 1048576)
         \<or> eb_max_staged_bytes b > 4 * 1048576
      then Inl ''expert budget is outside host limits'' else Inr ())"

definition validate_retry_policy :: "expert_role \<Rightarrow> retry_policy \<Rightarrow> unit res" where
  "validate_retry_policy role p =
     (if \<not> (1 \<le> rp_max_attempts p \<and> rp_max_attempts p \<le> 2)
      then Inl ''expert retry policy allows one or two total attempts''
      else if is_some_and (rp_substitute_role p) (\<lambda>s.
        s = role \<or> role = Production \<or> role = Review \<or> s = Production \<or> s = Review)
      then Inl ''expert substitute role may only switch between research and analysis''
      else Inr ())"

definition validate_capabilities :: "plan_item \<Rightarrow> unit res" where
  "validate_capabilities item =
     (if pi_capabilities item = [] \<or> length (pi_capabilities item) > EXPERT_TEAM_MAX_CAPABILITIES
      then Inl ''expert capability scope is empty or too large''
      else if \<not> distinct (pi_capabilities item)
      then Inl ''expert capability scope contains duplicates''
      else if (ManagedStagingWrite \<in> set (pi_capabilities item)) \<noteq> (pi_role item = Production)
      then Inl ''managed staging write is required only for the production role''
      else if pi_role item = Review \<and> oc_require_staged_output (pi_output_contract item)
      then Inl ''review role cannot produce staged output''
      else Inr ())"

definition normal_key :: "string \<Rightarrow> string" where
  "normal_key k = ascii_lowercase (trim k)"

text \<open>The loop over the resources, with the keys seen so far.\<close>

fun resource_loop :: "expert_role \<Rightarrow> string set \<Rightarrow> resource_requirement list \<Rightarrow> unit res" where
  "resource_loop role seen [] = Inr ()"
| "resource_loop role seen (r # rs) =
     bind_res (validate_key (rr_key r) ''expert resource key'') (\<lambda>_.
       if normal_key (rr_key r) \<in> seen then Inl ''expert resource keys must be unique per role''
       else if rr_access r = WriteAccess \<and> role \<noteq> Production
       then Inl ''only production may request a write resource''
       else resource_loop role (insert (normal_key (rr_key r)) seen) rs)"

definition validate_resources :: "plan_item \<Rightarrow> unit res" where
  "validate_resources item =
     (if length (pi_resources item) > EXPERT_TEAM_MAX_RESOURCES
      then Inl ''expert resource scope is too large''
      else bind_res (resource_loop (pi_role item) {} (pi_resources item)) (\<lambda>_.
        if pi_role item = Production \<and> \<not> (\<exists>r \<in> set (pi_resources item). rr_access r = WriteAccess)
        then Inl ''production requires a managed staging write resource'' else Inr ()))"

fun host_output_contract :: "expert_role \<Rightarrow> output_contract \<Rightarrow> output_contract" where
  "host_output_contract Research c =
     c\<lparr>oc_min_evidence_sources := max (oc_min_evidence_sources c) 2, oc_require_claims := True\<rparr>"
| "host_output_contract Analysis c =
     c\<lparr>oc_min_evidence_sources := max (oc_min_evidence_sources c) 1, oc_require_claims := True\<rparr>"
| "host_output_contract Production c = c\<lparr>oc_require_staged_output := True\<rparr>"
| "host_output_contract Review c = c\<lparr>oc_require_review := True\<rparr>"

text \<open>The first loop over the items, with the keys and roles seen so far.\<close>

fun item_loop :: "string set \<Rightarrow> expert_role set \<Rightarrow> plan_item list \<Rightarrow> unit res" where
  "item_loop keys roles [] = Inr ()"
| "item_loop keys roles (item # items) =
     bind_res (validate_key (pi_key item) ''expert subtask key'') (\<lambda>_.
       if normal_key (pi_key item) \<in> keys then Inl ''expert subtask keys must be unique''
       else if pi_role item \<in> roles then Inl ''expert roles must be unique within one team''
       else bind_res (validate_text (pi_prompt item) ''expert prompt'' 4000 ''4000'') (\<lambda>_.
         if oc_min_evidence_sources (pi_output_contract item) > 16
         then Inl ''expert output contract requires too many evidence sources''
         else bind_res (validate_budget (pi_budget item)) (\<lambda>_.
           bind_res (validate_retry_policy (pi_role item) (pi_retry_policy item)) (\<lambda>_.
           bind_res (validate_capabilities item) (\<lambda>_.
           bind_res (validate_resources item) (\<lambda>_.
             item_loop (insert (normal_key (pi_key item)) keys) (insert (pi_role item) roles)
               items))))))"

text \<open>The second loop: the dependencies of every item against all keys.\<close>

fun dependency_loop :: "string set \<Rightarrow> string \<Rightarrow> string set \<Rightarrow> string list \<Rightarrow> unit res" where
  "dependency_loop keys own seen [] = Inr ()"
| "dependency_loop keys own seen (d # ds) =
     bind_res (validate_key d ''expert dependency key'') (\<lambda>_.
       if normal_key d = own then Inl ''expert role cannot depend on itself''
       else if normal_key d \<notin> keys
       then Inl (''expert dependency `'' @ d @ ''` does not exist'')
       else if normal_key d \<in> seen then Inl ''expert dependencies must be unique''
       else dependency_loop keys own (insert (normal_key d) seen) ds)"

fun item_dependencies_loop :: "string set \<Rightarrow> plan_item list \<Rightarrow> unit res" where
  "item_dependencies_loop keys [] = Inr ()"
| "item_dependencies_loop keys (item # items) =
     (if length (pi_depends_on item) > EXPERT_TEAM_MAX_DEPENDENCIES
      then Inl ''expert role may depend on at most 3 roles''
      else bind_res (dependency_loop keys (normal_key (pi_key item)) {} (pi_depends_on item)) (\<lambda>_.
        item_dependencies_loop keys items))"

section \<open>The dependency search\<close>

type_synonym graph = "string \<rightharpoonup> string list"

definition dependency_graph :: "plan_item list \<Rightarrow> graph" where
  "dependency_graph items =
     map_of (rev (map (\<lambda>i. (normal_key (pi_key i), map normal_key (pi_depends_on i))) items))"

definition successors :: "graph \<Rightarrow> string \<Rightarrow> string list" where
  "successors g k = (case g k of None \<Rightarrow> [] | Some ds \<Rightarrow> ds)"

text \<open>
  \<open>visit\<close> with the sets \<open>visiting\<close> and \<open>visited\<close> it threads through. The first argument bounds
  the depth of the recursion; \<open>None\<close> is running out of it, which the bound chosen below
  excludes.
\<close>

type_synonym marks = "string set \<times> string set"

function (sequential) visit :: "nat \<Rightarrow> graph \<Rightarrow> string \<Rightarrow> marks \<Rightarrow> marks res option"
  and visit_all :: "nat \<Rightarrow> graph \<Rightarrow> string list \<Rightarrow> marks \<Rightarrow> marks res option" where
  "visit 0 g key m = None"
| "visit (Suc n) g key (visiting, visited) =
     (if key \<in> visited then Some (Inr (visiting, visited))
      else if key \<in> visiting then Some (Inl ''expert dependency graph contains a cycle'')
      else (case visit_all n g (successors g key) (insert key visiting, visited) of
              Some (Inr (visiting', visited')) \<Rightarrow>
                Some (Inr (visiting' - {key}, insert key visited'))
            | r \<Rightarrow> r))"
| "visit_all n g [] m = Some (Inr m)"
| "visit_all n g (d # ds) m =
     (case visit n g d m of Some (Inr m') \<Rightarrow> visit_all n g ds m' | r \<Rightarrow> r)"
  by pat_completeness auto
termination
  by (relation "measures [\<lambda>x. case x of Inl (n, _) \<Rightarrow> 2 * n | Inr (n, _) \<Rightarrow> 2 * n + 1,
        \<lambda>x. case x of Inl _ \<Rightarrow> 0 | Inr (_, _, ds, _) \<Rightarrow> length ds]") auto

definition search_bound :: "plan_item list \<Rightarrow> nat" where
  "search_bound items = Suc (length items + length (concat (map pi_depends_on items)))"

text \<open>
  \<open>reject_dependency_cycles\<close>; \<open>order\<close> is the order in which the hash map yields its keys. The
  last case is never reached (\<open>visit_all_total\<close>).
\<close>

definition reject_dependency_cycles :: "string list \<Rightarrow> plan_item list \<Rightarrow> unit res" where
  "reject_dependency_cycles order items =
     (case visit_all (search_bound items) (dependency_graph items) order ({}, {}) of
        Some (Inr _) \<Rightarrow> Inr ()
      | Some (Inl e) \<Rightarrow> Inl e
      | None \<Rightarrow> Inl ''search bound exceeded'')"

definition contract_of :: "uuid \<Rightarrow> uuid \<Rightarrow> string \<Rightarrow> plan_item \<Rightarrow> attempt_contract" where
  "contract_of team_id parent revision item =
     \<lparr>ac_team_id = team_id, ac_parent_run_id = parent, ac_parent_input_revision = revision,
      ac_key = trim (pi_key item), ac_role = pi_role item, ac_attempt = 1,
      ac_previous_attempt_run_id = None, ac_prompt = trim (pi_prompt item),
      ac_depends_on = map trim (pi_depends_on item), ac_capabilities = pi_capabilities item,
      ac_resources = pi_resources item, ac_budget = pi_budget item,
      ac_output_contract = host_output_contract (pi_role item) (pi_output_contract item),
      ac_retry_policy = pi_retry_policy item\<rparr>"

definition validate_team_plan ::
    "digest \<Rightarrow> uuid \<Rightarrow> string list \<Rightarrow> uuid \<Rightarrow> string \<Rightarrow> plan_item list \<Rightarrow> attempt_contract list res" where
  "validate_team_plan sha team_id order parent prompt items =
     (if is_nil parent then Inl ''expert team parent run id is required''
      else if length items < 2 \<or> length items > EXPERT_TEAM_MAX_MEMBERS
      then Inl ''expert team must contain between 2 and 4 roles''
      else bind_res (item_loop {} {} items) (\<lambda>_.
        bind_res (item_dependencies_loop ((\<lambda>i. normal_key (pi_key i)) ` set items) items) (\<lambda>_.
        bind_res (reject_dependency_cycles order items) (\<lambda>_.
          Inr (map (contract_of team_id parent (parent_input_revision sha prompt)) items)))))"

section \<open>Resources, evidence and claims\<close>

definition resources_conflict ::
    "resource_requirement list \<Rightarrow> resource_requirement list \<Rightarrow> bool" where
  "resources_conflict left right \<longleftrightarrow>
     (\<exists>l \<in> set left. \<exists>r \<in> set right. eq_ignore_ascii_case (rr_key l) (rr_key r)
        \<and> (rr_access l = WriteAccess \<or> rr_access r = WriteAccess))"

definition evidence_identity :: "digest \<Rightarrow> string \<Rightarrow> string \<Rightarrow> string" where
  "evidence_identity sha kind reference =
     sha (ascii_lowercase (trim kind) @ [CHR 0x0A] @ trim reference)"

definition normal_evidence :: "digest \<Rightarrow> evidence_ref \<Rightarrow> evidence_ref" where
  "normal_evidence sha e =
     e\<lparr>ev_kind := trim (ev_kind e), ev_reference := trim (ev_reference e),
       ev_id := evidence_identity sha (trim (ev_kind e)) (trim (ev_reference e))\<rparr>"

text \<open>The entry for an evidence item is kept; a repetition can verify it or give it a summary.\<close>

definition merge_evidence :: "evidence_ref \<Rightarrow> evidence_ref \<Rightarrow> evidence_ref" where
  "merge_evidence item existing =
     existing\<lparr>ev_verified := ev_verified existing \<or> ev_verified item,
       ev_summary := (if ev_summary existing = [] then ev_summary item else ev_summary existing)\<rparr>"

definition add_evidence :: "digest \<Rightarrow> evidence_ref \<Rightarrow> evidence_ref list \<Rightarrow> evidence_ref list" where
  "add_evidence sha e rows =
     (let item = normal_evidence sha e in
      upsert_row ev_id (ev_id item) item (merge_evidence item) rows)"

definition deduplicate_evidence :: "digest \<Rightarrow> evidence_ref list \<Rightarrow> evidence_ref list" where
  "deduplicate_evidence sha es =
     sort_key ev_id (fold (add_evidence sha) (take EXPERT_TEAM_MAX_EVIDENCE es) [])"

definition claim_stances :: "expert_claim list \<Rightarrow> string \<Rightarrow> claim_stance set" where
  "claim_stances claims k = ec_stance ` {c \<in> set claims. normal_key (ec_key c) = k}"

definition unresolved_claim_conflicts :: "expert_claim list \<Rightarrow> string list" where
  "unresolved_claim_conflicts claims =
     (let claims = take EXPERT_TEAM_MAX_CLAIMS claims;
          keys = remdups (map (\<lambda>c. normal_key (ec_key c)) claims) in
      sort (filter (\<lambda>k. Supports \<in> claim_stances claims k \<and> Contradicts \<in> claim_stances claims k)
              keys))"

section \<open>The search decides acyclicity\<close>

definition below :: "graph \<Rightarrow> (string \<times> string) set" where
  "below g = {(d, k). d \<in> set (successors g k)}"

lemma visit_marks:
  "visit n g key m = Some (Inr m') \<Longrightarrow> fst m' = fst m"
  "visit_all n g ds m = Some (Inr m') \<Longrightarrow> fst m' = fst m"
proof (induction n g key m and n g ds m arbitrary: m' and m' rule: visit_visit_all.induct)
  case (2 n g key visiting visited)
  then show ?case by (auto split: if_splits option.splits sum.splits)
next
  case (4 n g d ds m)
  then show ?case by (auto split: option.splits sum.splits)
qed auto

lemma visit_sound:
  "visit n g key m = Some (Inr m') \<Longrightarrow> snd m \<subseteq> Wellfounded.acc (below g) \<Longrightarrow>
     snd m \<subseteq> snd m' \<and> key \<in> snd m' \<and> snd m' \<subseteq> Wellfounded.acc (below g)"
  "visit_all n g ds m = Some (Inr m') \<Longrightarrow> snd m \<subseteq> Wellfounded.acc (below g) \<Longrightarrow>
     snd m \<subseteq> snd m' \<and> set ds \<subseteq> snd m' \<and> snd m' \<subseteq> Wellfounded.acc (below g)"
proof (induction n g key m and n g ds m arbitrary: m' and m' rule: visit_visit_all.induct)
  case (2 n g key visiting visited)
  show ?case
  proof (cases "key \<in> visited \<or> key \<in> visiting")
    case True
    then show ?thesis using 2 by (auto split: if_splits)
  next
    case False
    then obtain w v where wv: "visit_all n g (successors g key) (insert key visiting, visited) = Some (Inr (w, v))"
      "m' = (w - {key}, insert key v)"
      using "2.prems"(1) by (auto split: option.splits sum.splits)
    then have ih: "visited \<subseteq> v" "set (successors g key) \<subseteq> v" "v \<subseteq> Wellfounded.acc (below g)"
      using "2.IH" False "2.prems"(2) by fastforce+
    have "key \<in> Wellfounded.acc (below g)"
      by (rule accI) (use ih(2,3) in \<open>auto simp: below_def\<close>)
    then show ?thesis using wv(2) ih by auto
  qed
next
  case (4 n g d ds m)
  obtain m1 where m1: "visit n g d m = Some (Inr m1)" "visit_all n g ds m1 = Some (Inr m')"
    using "4.prems"(1) by (auto split: option.splits sum.splits)
  have "snd m \<subseteq> snd m1 \<and> d \<in> snd m1 \<and> snd m1 \<subseteq> Wellfounded.acc (below g)"
    using "4.IH"(1) m1(1) "4.prems"(2) by blast
  moreover then have "snd m1 \<subseteq> snd m' \<and> set ds \<subseteq> snd m' \<and> snd m' \<subseteq> Wellfounded.acc (below g)"
    using "4.IH"(2) m1 by blast
  ultimately show ?case by auto
qed auto

lemma visit_cycle:
  "visit n g key m = Some (Inl e) \<Longrightarrow> \<forall>a \<in> fst m. (key, a) \<in> (below g)\<^sup>+ \<Longrightarrow> \<not> acyclic (below g)"
  "visit_all n g ds m = Some (Inl e) \<Longrightarrow> \<forall>a \<in> fst m. \<forall>d \<in> set ds. (d, a) \<in> (below g)\<^sup>+ \<Longrightarrow>
     \<not> acyclic (below g)"
proof (induction n g key m and n g ds m arbitrary: e and e rule: visit_visit_all.induct)
  case (2 n g key visiting visited)
  show ?case
  proof (cases "key \<in> visited \<or> key \<in> visiting")
    case True
    then show ?thesis using 2 by (auto simp: acyclic_def split: if_splits)
  next
    case False
    then have "visit_all n g (successors g key) (insert key visiting, visited) = Some (Inl e)"
      using "2.prems"(1) by (auto split: option.splits sum.splits)
    moreover have "(d, key) \<in> below g" if "d \<in> set (successors g key)" for d
      using that by (simp add: below_def)
    then have "\<forall>a \<in> insert key visiting. \<forall>d \<in> set (successors g key). (d, a) \<in> (below g)\<^sup>+"
      using "2.prems"(2) by (auto intro: trancl_into_trancl2)
    ultimately show ?thesis using "2.IH" False by simp
  qed
next
  case (4 n g d ds m)
  show ?case
  proof (cases "visit n g d m = Some (Inl e)")
    case True
    then show ?thesis using "4.IH"(1) "4.prems"(2) by simp
  next
    case False
    then obtain m1 where m1: "visit n g d m = Some (Inr m1)" "visit_all n g ds m1 = Some (Inl e)"
      using "4.prems"(1) by (auto split: option.splits sum.splits)
    moreover have "fst m1 = fst m" using visit_marks(1) m1(1) .
    ultimately show ?thesis using "4.IH"(2) "4.prems"(2) by simp
  qed
qed auto

lemma visit_error:
  "visit n g key m = Some (Inl e) \<Longrightarrow> e = ''expert dependency graph contains a cycle''"
  "visit_all n g ds m = Some (Inl e) \<Longrightarrow> e = ''expert dependency graph contains a cycle''"
  by (induction n g key m and n g ds m rule: visit_visit_all.induct)
     (auto split: if_splits option.splits sum.splits)

lemma visit_total:
  assumes "finite U" and "\<And>k. k \<in> U \<Longrightarrow> set (successors g k) \<subseteq> U"
  shows "card (U - fst m) < n \<Longrightarrow> key \<in> U \<Longrightarrow> visit n g key m \<noteq> None"
    and "card (U - fst m) < n \<Longrightarrow> set ds \<subseteq> U \<Longrightarrow> visit_all n g ds m \<noteq> None"
  using assms(2)
proof (induction n g key m and n g ds m rule: visit_visit_all.induct)
  case (2 n g key visiting visited)
  show ?case
  proof (cases "key \<in> visited \<or> key \<in> visiting")
    case True
    then show ?thesis by auto
  next
    case False
    have "U - visiting = insert key (U - insert key visiting)" using False "2.prems"(2) by blast
    then have "card (U - visiting) = Suc (card (U - insert key visiting))"
      using assms(1) by (metis Diff_iff card_insert_disjoint finite_Diff insertI1)
    then have c: "card (U - fst (insert key visiting, visited)) < n" using "2.prems"(1) by simp
    have "visit_all n g (successors g key) (insert key visiting, visited) \<noteq> None"
      by (rule "2.IH" [OF _ _ c "2.prems"(3) [OF "2.prems"(2)] "2.prems"(3)]) (use False in auto)
    then obtain r where "visit_all n g (successors g key) (insert key visiting, visited) = Some r"
      by blast
    then show ?thesis using False by (cases r) (simp_all split: prod.split)
  qed
next
  case (4 n g d ds m)
  have d: "visit n g d m \<noteq> None" using "4.IH"(1) "4.prems" by simp
  show ?case
  proof (cases "\<exists>m1. visit n g d m = Some (Inr m1)")
    case True
    then obtain m1 where m1: "visit n g d m = Some (Inr m1)" by blast
    have "fst m1 = fst m" using visit_marks(1) [OF m1] .
    then have "visit_all n g ds m1 \<noteq> None" using "4.IH"(2) [OF m1 refl] "4.prems" by simp
    then show ?thesis using m1 by simp
  next
    case False
    then show ?thesis using d by (auto split: option.splits sum.splits)
  qed
qed auto

definition nodes :: "plan_item list \<Rightarrow> string set" where
  "nodes items = normal_key ` (pi_key ` set items \<union> set (concat (map pi_depends_on items)))"

lemma nodes_finite: "finite (nodes items)"
  by (simp add: nodes_def)

lemma nodes_card: "card (nodes items) < search_bound items"
proof -
  have "nodes items = set (map (normal_key \<circ> pi_key) items
      @ map normal_key (concat (map pi_depends_on items)))"
    by (auto simp: nodes_def)
  then have "card (nodes items) \<le> length (map (normal_key \<circ> pi_key) items
      @ map normal_key (concat (map pi_depends_on items)))"
    by (simp only: card_length)
  then show ?thesis by (simp add: search_bound_def)
qed

lemma dependency_graph_Some:
  "dependency_graph items k = Some ds \<Longrightarrow>
     \<exists>i \<in> set items. k = normal_key (pi_key i) \<and> ds = map normal_key (pi_depends_on i)"
  by (auto simp: dependency_graph_def dest!: map_of_SomeD)

lemma successors_nodes: "set (successors (dependency_graph items) k) \<subseteq> nodes items"
proof (cases "dependency_graph items k")
  case None
  then show ?thesis by (simp add: successors_def)
next
  case (Some ds)
  then obtain i where "i \<in> set items" "ds = map normal_key (pi_depends_on i)"
    using dependency_graph_Some by blast
  then show ?thesis using Some unfolding successors_def nodes_def by fastforce
qed

lemma dom_dependency_graph: "dom (dependency_graph items) = (\<lambda>i. normal_key (pi_key i)) ` set items"
  by (auto simp: dependency_graph_def dom_map_of_conv_image_fst image_image)

lemma visit_all_total:
  assumes "set order \<subseteq> nodes items"
  shows "visit_all (search_bound items) (dependency_graph items) order ({}, {}) \<noteq> None"
  by (rule visit_total(2) [OF nodes_finite [of items] successors_nodes _ assms])
     (simp add: nodes_card)

lemma reject_iff:
  assumes "set order = dom (dependency_graph items)"
  shows "reject_dependency_cycles order items = Inr () \<longleftrightarrow> acyclic (below (dependency_graph items))"
    and "reject_dependency_cycles order items \<noteq> Inr () \<Longrightarrow>
      reject_dependency_cycles order items = Inl ''expert dependency graph contains a cycle''"
proof -
  have n: "set order \<subseteq> nodes items" using assms by (auto simp: dom_dependency_graph nodes_def)
  have err: "visit_all b g ds m = Some (Inl e) \<Longrightarrow> e = ''expert dependency graph contains a cycle''"
    for b g ds m e
    using visit_error(2) .
  obtain r where r: "visit_all (search_bound items) (dependency_graph items) order ({}, {}) = Some r"
    using visit_all_total [OF n] by blast
  show "reject_dependency_cycles order items = Inr () \<longleftrightarrow> acyclic (below (dependency_graph items))"
  proof (cases r)
    case (Inl e)
    then show ?thesis using visit_cycle(2) r by (fastforce simp: reject_dependency_cycles_def)
  next
    case (Inr m)
    then have m: "set order \<subseteq> snd m" "snd m \<subseteq> Wellfounded.acc (below (dependency_graph items))"
      using visit_sound(2) r by fastforce+
    have "k \<in> Wellfounded.acc (below (dependency_graph items))" for k
    proof (cases "k \<in> set order")
      case True
      then show ?thesis using m by blast
    next
      case False
      then have "successors (dependency_graph items) k = []"
        using assms by (auto simp: successors_def dom_def)
      then have "(y, k) \<notin> below (dependency_graph items)" for y by (simp add: below_def)
      then show ?thesis by (blast intro: accI)
    qed
    then have "wf (below (dependency_graph items))" by (simp add: acc_wfI)
    then show ?thesis using r Inr by (simp add: reject_dependency_cycles_def wf_acyclic)
  qed
  show "reject_dependency_cycles order items = Inl ''expert dependency graph contains a cycle''"
    if "reject_dependency_cycles order items \<noteq> Inr ()"
    using that r err by (cases r) (auto simp: reject_dependency_cycles_def)
qed

section \<open>What an accepted plan is\<close>

lemma normal_key_trim [simp]: "normal_key (trim k) = normal_key k"
  by (simp add: normal_key_def)

lemma resource_loop_Inr:
  "resource_loop role seen rs = Inr () \<Longrightarrow>
     \<forall>r \<in> set rs. rr_access r = WriteAccess \<longrightarrow> role = Production"
  by (induction rs arbitrary: seen) (auto simp: bind_res_Inr_iff split: if_splits)

definition item_ok :: "plan_item \<Rightarrow> bool" where
  "item_ok i \<longleftrightarrow> validate_budget (pi_budget i) = Inr () \<and>
     validate_retry_policy (pi_role i) (pi_retry_policy i) = Inr () \<and>
     validate_capabilities i = Inr () \<and> validate_resources i = Inr () \<and>
     oc_min_evidence_sources (pi_output_contract i) \<le> 16"

lemma item_loop_Inr:
  "item_loop keys roles items = Inr () \<Longrightarrow>
     distinct (map (\<lambda>i. normal_key (pi_key i)) items) \<and>
     (\<forall>i \<in> set items. normal_key (pi_key i) \<notin> keys \<and> pi_role i \<notin> roles \<and> item_ok i) \<and>
     distinct (map pi_role items)"
proof (induction items arbitrary: keys roles)
  case Nil
  then show ?case by simp
next
  case (Cons item items)
  then have "normal_key (pi_key item) \<notin> keys" "pi_role item \<notin> roles" "item_ok item"
    "item_loop (insert (normal_key (pi_key item)) keys) (insert (pi_role item) roles) items = Inr ()"
    by (auto simp: bind_res_Inr_iff item_ok_def not_less split: if_splits)
  then show ?case using Cons.IH [of "insert (normal_key (pi_key item)) keys" "insert (pi_role item) roles"]
    by auto
qed

lemma dependency_loop_Inr:
  "dependency_loop keys own seen ds = Inr () \<Longrightarrow>
     \<forall>d \<in> set ds. normal_key d \<in> keys \<and> normal_key d \<noteq> own"
  by (induction ds arbitrary: seen) (auto simp: bind_res_Inr_iff split: if_splits)

lemma item_dependencies_Inr:
  "item_dependencies_loop keys items = Inr () \<Longrightarrow>
     \<forall>i \<in> set items. length (pi_depends_on i) \<le> EXPERT_TEAM_MAX_DEPENDENCIES \<and>
       (\<forall>d \<in> set (pi_depends_on i). normal_key d \<in> keys \<and> normal_key d \<noteq> normal_key (pi_key i))"
  by (induction items) (auto simp: bind_res_Inr_iff not_less split: if_splits dest!: dependency_loop_Inr)

lemma validate_team_plan_Inr:
  assumes "validate_team_plan sha team_id order parent prompt items = Inr cs"
  shows "\<not> is_nil parent" "2 \<le> length items" "length items \<le> 4"
    "item_loop {} {} items = Inr ()"
    "item_dependencies_loop ((\<lambda>i. normal_key (pi_key i)) ` set items) items = Inr ()"
    "reject_dependency_cycles order items = Inr ()"
    "cs = map (contract_of team_id parent (parent_input_revision sha prompt)) items"
  using assms unfolding validate_team_plan_def
  by (auto simp: bind_res_Inr_iff EXPERT_TEAM_MAX_MEMBERS_def split: if_splits)

text \<open>The dependencies between the contracts of a team, by normalised keys.\<close>

definition depends_below :: "attempt_contract list \<Rightarrow> (string \<times> string) set" where
  "depends_below cs =
     {(normal_key d, normal_key (ac_key c)) | c d. c \<in> set cs \<and> d \<in> set (ac_depends_on c)}"

lemma dependency_graph_item:
  assumes "distinct (map (\<lambda>i. normal_key (pi_key i)) items)" and "i \<in> set items"
  shows "dependency_graph items (normal_key (pi_key i)) = Some (map normal_key (pi_depends_on i))"
proof -
  let ?ps = "rev (map (\<lambda>i. (normal_key (pi_key i), map normal_key (pi_depends_on i))) items)"
  have "distinct (map fst ?ps)" using assms(1) by (simp add: rev_map [symmetric] comp_def)
  moreover have "(normal_key (pi_key i), map normal_key (pi_depends_on i)) \<in> set ?ps"
    using assms(2) by auto
  ultimately show ?thesis unfolding dependency_graph_def by (rule map_of_is_SomeI)
qed

lemma depends_below_graph:
  assumes "distinct (map (\<lambda>i. normal_key (pi_key i)) items)"
  shows "depends_below (map (contract_of t p r) items) \<subseteq> below (dependency_graph items)"
proof
  fix x assume "x \<in> depends_below (map (contract_of t p r) items)"
  then obtain i d where i: "i \<in> set items" "d \<in> set (pi_depends_on i)"
    "x = (normal_key d, normal_key (pi_key i))"
    by (auto simp: depends_below_def contract_of_def)
  then show "x \<in> below (dependency_graph items)"
    using dependency_graph_item [OF assms i(1)] by (simp add: below_def successors_def)
qed

lemma depends_below_finite: "finite (depends_below cs)"
proof -
  have "depends_below cs = (\<Union>c \<in> set cs. (\<lambda>d. (normal_key d, normal_key (ac_key c))) ` set (ac_depends_on c))"
    by (auto simp: depends_below_def)
  then show ?thesis by simp
qed

lemma write_is_production:
  assumes "item_ok i" and "r \<in> set (pi_resources i)" and "rr_access r = WriteAccess"
  shows "pi_role i = Production"
proof -
  have "resource_loop (pi_role i) {} (pi_resources i) = Inr ()"
    using assms(1) by (auto simp: item_ok_def validate_resources_def bind_res_Inr_iff split: if_splits)
  then show ?thesis using resource_loop_Inr assms(2,3) by blast
qed

lemma distinct_roles_at_most: "distinct (map pi_role items) \<Longrightarrow> i \<in> set items \<Longrightarrow> j \<in> set items \<Longrightarrow>
    pi_role i = pi_role j \<Longrightarrow> i = j"
  by (simp add: distinct_map inj_on_def)

section \<open>Evidence and claims\<close>

lemma add_evidence_keys:
  assumes "distinct (map ev_id rows)"
  shows "distinct (map ev_id (add_evidence sha e rows))"
  unfolding add_evidence_def Let_def
  by (rule distinct_upsert) (simp_all add: assms merge_evidence_def)

lemma fold_evidence_keys:
  "distinct (map ev_id rows) \<Longrightarrow> distinct (map ev_id (fold (add_evidence sha) es rows))"
  by (induction es arbitrary: rows) (simp_all add: add_evidence_keys)

lemma add_evidence_row:
  "row_of ev_id (add_evidence sha e rows) k =
     (if k = ev_id (normal_evidence sha e)
      then Some (case row_of ev_id rows k of None \<Rightarrow> normal_evidence sha e
                 | Some w \<Rightarrow> merge_evidence (normal_evidence sha e) w)
      else row_of ev_id rows k)"
  unfolding add_evidence_def Let_def by (subst row_of_upsert) (simp_all add: merge_evidence_def)

text \<open>What is known of an identity after some items: whether any of them was verified.\<close>

definition verified_by :: "digest \<Rightarrow> evidence_ref list \<Rightarrow> string \<Rightarrow> bool" where
  "verified_by sha es k \<longleftrightarrow> (\<exists>e \<in> set es. ev_id (normal_evidence sha e) = k \<and> ev_verified e)"

lemma normal_evidence_sel [simp]: "ev_verified (normal_evidence sha e) = ev_verified e"
  by (simp add: normal_evidence_def)

lemma fold_evidence_row:
  "(case row_of ev_id (fold (add_evidence sha) es rows) k of
      None \<Rightarrow> k \<notin> ev_id ` set rows \<and> (\<forall>e \<in> set es. ev_id (normal_evidence sha e) \<noteq> k)
    | Some w \<Rightarrow> ev_verified w \<longleftrightarrow>
        (case row_of ev_id rows k of None \<Rightarrow> False | Some v \<Rightarrow> ev_verified v) \<or> verified_by sha es k)"
proof (induction es arbitrary: rows)
  case Nil
  then show ?case by (auto simp: verified_by_def row_of_None_iff split: option.splits)
next
  case (Cons e es)
  let ?rows = "add_evidence sha e rows"
  have ids: "k \<notin> ev_id ` set ?rows \<longleftrightarrow> k \<notin> ev_id ` set rows \<and> ev_id (normal_evidence sha e) \<noteq> k"
    by (simp only: row_of_None_iff [symmetric] add_evidence_row) auto
  show ?case
    using Cons.IH [of ?rows] ids
    by (auto simp: add_evidence_row verified_by_def merge_evidence_def split: option.splits if_splits)
qed

lemma deduplicate_row:
  "row_of ev_id (deduplicate_evidence sha es) k = Some w \<Longrightarrow>
     ev_verified w = verified_by sha (take EXPERT_TEAM_MAX_EVIDENCE es) k"
proof -
  let ?r = "fold (add_evidence sha) (take EXPERT_TEAM_MAX_EVIDENCE es) []"
  assume "row_of ev_id (deduplicate_evidence sha es) k = Some w"
  then have w: "w \<in> set ?r" "ev_id w = k"
    by (auto simp: deduplicate_evidence_def dest: row_of_SomeD)
  have "distinct (map ev_id ?r)" by (rule fold_evidence_keys) simp
  then have "row_of ev_id ?r k = Some w" using row_of_mem w by metis
  then show ?thesis using fold_evidence_row [where sha = sha and es = "take EXPERT_TEAM_MAX_EVIDENCE es" and rows = "[]" and k = k]
    by simp
qed

section \<open>A concrete plan\<close>

definition demo_budget :: expert_budget where
  "demo_budget = \<lparr>eb_max_elapsed_ms = 180000, eb_max_tool_calls = 8, eb_max_tokens = 12000,
     eb_max_output_bytes = 65536, eb_max_staged_bytes = 131072\<rparr>"

definition demo_contract :: output_contract where
  "demo_contract = \<lparr>oc_min_evidence_sources = 0, oc_require_claims = False,
     oc_require_staged_output = False, oc_require_review = False,
     oc_fail_on_unresolved_conflict = False\<rparr>"

definition demo_research :: plan_item where
  "demo_research = \<lparr>pi_key = ''find'', pi_role = Research, pi_prompt = ''p'', pi_depends_on = [],
     pi_capabilities = [ExpertNetworkSearch], pi_resources = [], pi_budget = demo_budget,
     pi_output_contract = demo_contract,
     pi_retry_policy = \<lparr>rp_max_attempts = 1, rp_substitute_role = None\<rparr>\<rparr>"

definition demo_production :: plan_item where
  "demo_production = \<lparr>pi_key = ''write'', pi_role = Production, pi_prompt = ''p'',
     pi_depends_on = ['' Find''], pi_capabilities = [ManagedStagingWrite],
     pi_resources = [\<lparr>rr_key = ''out'', rr_access = WriteAccess\<rparr>], pi_budget = demo_budget,
     pi_output_contract = demo_contract,
     pi_retry_policy = \<lparr>rp_max_attempts = 1, rp_substitute_role = None\<rparr>\<rparr>"

definition demo_items :: "plan_item list" where
  "demo_items = [demo_research, demo_production]"

definition demo_order :: "string list" where
  "demo_order = [''write'', ''find'']"

lemma demo_keys: "normal_key ''find'' = ''find''" "normal_key ''write'' = ''write''"
  "normal_key '' Find'' = ''find''" "normal_key ''out'' = ''out''"
  by code_simp+

lemma demo_key_checks: "validate_key ''find'' f = Inr ()" "validate_key ''write'' f = Inr ()"
  "validate_key '' Find'' f = Inr ()" "validate_key ''out'' f = Inr ()"
  "validate_text ''p'' f 4000 g = Inr ()"
proof -
  have t: "trim ''find'' = ''find''" "trim ''write'' = ''write''" "trim '' Find'' = ''Find''"
    "trim ''out'' = ''out''" "trim ''p'' = ''p''" by code_simp+
  have a: "list_all (\<lambda>c. is_alnum c \<or> c = CHR ''-'' \<or> c = CHR ''_'') ''find''"
    "list_all (\<lambda>c. is_alnum c \<or> c = CHR ''-'' \<or> c = CHR ''_'') ''write''"
    "list_all (\<lambda>c. is_alnum c \<or> c = CHR ''-'' \<or> c = CHR ''_'') ''Find''"
    "list_all (\<lambda>c. is_alnum c \<or> c = CHR ''-'' \<or> c = CHR ''_'') ''out''" by code_simp+
  have c: "char_count ''p'' = 1" by code_simp
  show "validate_key ''find'' f = Inr ()" "validate_key ''write'' f = Inr ()"
    "validate_key '' Find'' f = Inr ()" "validate_key ''out'' f = Inr ()"
    "validate_text ''p'' f 4000 g = Inr ()"
    unfolding validate_key_def validate_text_def t c Let_def using a by simp_all
qed

lemmas demo_item_defs = demo_research_def demo_production_def demo_budget_def demo_contract_def

lemma demo_item_loop: "item_loop {} {} demo_items = Inr ()"
  by (simp add: demo_items_def demo_item_defs demo_key_checks demo_keys validate_budget_def
      validate_retry_policy_def validate_capabilities_def validate_resources_def
      EXPERT_TEAM_MAX_CAPABILITIES_def EXPERT_TEAM_MAX_RESOURCES_def)

lemma demo_dependencies:
  "item_dependencies_loop ((\<lambda>i. normal_key (pi_key i)) ` set demo_items) demo_items = Inr ()"
  by (simp add: demo_items_def demo_item_defs demo_key_checks demo_keys EXPERT_TEAM_MAX_DEPENDENCIES_def)

lemma demo_graph: "dependency_graph demo_items = [''find'' \<mapsto> [], ''write'' \<mapsto> [''find'']]"
  by (simp add: dependency_graph_def demo_items_def demo_item_defs demo_keys)

lemma demo_search: "reject_dependency_cycles demo_order demo_items = Inr ()"
proof -
  have "search_bound demo_items = Suc (Suc (Suc (Suc 0)))"
    by (simp add: search_bound_def demo_items_def demo_item_defs)
  then show ?thesis
    by (simp add: reject_dependency_cycles_def demo_graph demo_order_def successors_def)
qed

lemma demo_order_dom: "set demo_order = dom (dependency_graph demo_items)"
  by (auto simp: demo_order_def demo_graph)

lemma demo_plan:
  "validate_team_plan (\<lambda>x. x) 1 demo_order 2 ''go'' demo_items =
     Inr (map (contract_of 1 2 (parent_input_revision (\<lambda>x. x) ''go'')) demo_items)"
  using demo_item_loop demo_dependencies demo_search
  by (simp add: validate_team_plan_def is_nil_def EXPERT_TEAM_MAX_MEMBERS_def demo_items_def)

section \<open>Properties\<close>

text \<open>
  C26: an accepted team can be executed in order. In the contracts of an accepted plan every
  dependency names another contract of the team (up to case and surrounding space), and the
  dependency relation is acyclic and well-founded, so the experts can be scheduled; this holds
  for every order in which the hash map yields its keys.
\<close>

theorem accepted_plan_acyclic:
  assumes "validate_team_plan sha team_id order parent prompt items = Inr cs"
    and "set order = dom (dependency_graph items)"
  shows "acyclic (depends_below cs) \<and> wf (depends_below cs) \<and>
     (\<forall>c \<in> set cs. \<forall>d \<in> set (ac_depends_on c).
        \<exists>c' \<in> set cs. normal_key (ac_key c') = normal_key d \<and> c' \<noteq> c)"
proof -
  note v = validate_team_plan_Inr [OF assms(1)]
  have dist: "distinct (map (\<lambda>i. normal_key (pi_key i)) items)" using item_loop_Inr [OF v(4)] by simp
  have "acyclic (below (dependency_graph items))" using reject_iff(1) [OF assms(2)] v(6) by simp
  then have a: "acyclic (depends_below cs)"
    using acyclic_subset depends_below_graph [OF dist] unfolding v(7) by blast
  moreover have "wf (depends_below cs)"
    using a depends_below_finite by (rule finite_acyclic_wf [rotated])
  moreover have "\<exists>c' \<in> set cs. normal_key (ac_key c') = normal_key d \<and> c' \<noteq> c"
    if c: "c \<in> set cs" and d: "d \<in> set (ac_depends_on c)" for c d
  proof -
    obtain i where i: "i \<in> set items"
      "c = contract_of team_id parent (parent_input_revision sha prompt) i"
      using c unfolding v(7) by auto
    obtain e where e: "e \<in> set (pi_depends_on i)" "d = trim e"
      using d unfolding i(2) by (auto simp: contract_of_def)
    have "normal_key e \<in> (\<lambda>i. normal_key (pi_key i)) ` set items"
      "normal_key e \<noteq> normal_key (pi_key i)"
      using item_dependencies_Inr [OF v(5)] i(1) e(1) by auto
    then obtain j where "j \<in> set items" "normal_key (pi_key j) = normal_key d"
      "normal_key (pi_key j) \<noteq> normal_key (pi_key i)"
      using e(2) by auto
    then show ?thesis unfolding v(7) i(2)
      by (intro bexI [of _ "contract_of team_id parent (parent_input_revision sha prompt) j"])
         (auto simp: contract_of_def dest: arg_cong [of _ _ normal_key])
  qed
  ultimately show ?thesis by blast
qed

theorem accepted_plan_acyclic_witness:
  "\<exists>cs. validate_team_plan (\<lambda>x. x) 1 demo_order 2 ''go'' demo_items = Inr cs \<and> wf (depends_below cs)"
  using accepted_plan_acyclic [OF demo_plan demo_order_dom] demo_plan by blast

text \<open>
  C18: the depth-first search decides exactly whether the dependency graph has a cycle. It always
  comes to an end within its bound, its answer does not depend on the order of the hash map, and
  it fails only with the message for cycles.
\<close>

theorem dependency_search_decides:
  assumes "set order = dom (dependency_graph items)"
  shows "reject_dependency_cycles order items =
     (if acyclic (below (dependency_graph items)) then Inr ()
      else Inl ''expert dependency graph contains a cycle'')"
  using reject_iff [OF assms] by auto

theorem dependency_search_decides_witness:
  "acyclic (below (dependency_graph demo_items)) \<and>
   reject_dependency_cycles [''find'', ''write''] demo_items = Inr ()"
proof -
  have "set [''find'', ''write''] = dom (dependency_graph demo_items)" by (auto simp: demo_graph)
  from dependency_search_decides [OF demo_order_dom] dependency_search_decides [OF this] demo_search
  show ?thesis by (auto split: if_splits)
qed

text \<open>
  the host keeps a model's plan inside its limits. An accepted team has two to four members
  with different roles and different keys, all at their first attempt and bound to the parent;
  only the production role may write or stage; budgets are within the host's limits; and the
  contract is at least as strict as the host requires of the role.
\<close>

theorem accepted_plan_in_scope:
  assumes "validate_team_plan sha team_id order parent prompt items = Inr cs"
  shows "2 \<le> length cs \<and> length cs \<le> 4 \<and> distinct (map ac_role cs) \<and>
     distinct (map (\<lambda>c. normal_key (ac_key c)) cs) \<and>
     (\<forall>c \<in> set cs. ac_parent_run_id c = parent \<and> ac_attempt c = 1 \<and>
        ac_parent_input_revision c = sha (trim prompt) \<and>
        (ManagedStagingWrite \<in> set (ac_capabilities c) \<longleftrightarrow> ac_role c = Production) \<and>
        (\<forall>r \<in> set (ac_resources c). rr_access r = WriteAccess \<longrightarrow> ac_role c = Production) \<and>
        validate_budget (ac_budget c) = Inr () \<and>
        (ac_role c = Research \<longrightarrow> 2 \<le> oc_min_evidence_sources (ac_output_contract c)) \<and>
        (ac_role c = Analysis \<longrightarrow> 1 \<le> oc_min_evidence_sources (ac_output_contract c)) \<and>
        (ac_role c = Production \<longrightarrow> oc_require_staged_output (ac_output_contract c)) \<and>
        (ac_role c = Review \<longrightarrow> oc_require_review (ac_output_contract c)))"
proof -
  note v = validate_team_plan_Inr [OF assms]
  note l = item_loop_Inr [OF v(4)]
  have "ManagedStagingWrite \<in> set (pi_capabilities i) \<longleftrightarrow> pi_role i = Production" if "i \<in> set items" for i
    using l that by (auto simp: item_ok_def validate_capabilities_def split: if_splits)
  moreover have "validate_budget (pi_budget i) = Inr ()" if "i \<in> set items" for i
    using l that by (auto simp: item_ok_def)
  moreover have "rr_access r = WriteAccess \<Longrightarrow> pi_role i = Production"
    if "i \<in> set items" "r \<in> set (pi_resources i)" for i r
    using l that write_is_production by blast
  ultimately show ?thesis
    using v(2,3) l unfolding v(7)
    by (auto simp: contract_of_def parent_input_revision_def comp_def)
qed

theorem accepted_plan_in_scope_witness:
  "\<exists>cs. validate_team_plan (\<lambda>x. x) 1 demo_order 2 ''go'' demo_items = Inr cs \<and> distinct (map ac_role cs)"
  using accepted_plan_in_scope [OF demo_plan] demo_plan by blast

text \<open>
  in an accepted team only the production expert can be in the way of another. Two
  different contracts whose resources conflict include the production contract.
\<close>

theorem conflict_needs_production:
  assumes "validate_team_plan sha team_id order parent prompt items = Inr cs"
    and "c1 \<in> set cs" and "c2 \<in> set cs"
    and "resources_conflict (ac_resources c1) (ac_resources c2)"
  shows "ac_role c1 = Production \<or> ac_role c2 = Production"
proof -
  note v = validate_team_plan_Inr [OF assms(1)]
  have w: "rr_access r = WriteAccess \<Longrightarrow> ac_role c = Production"
    if "c \<in> set cs" "r \<in> set (ac_resources c)" for c r
    using that item_loop_Inr [OF v(4)] write_is_production unfolding v(7)
    by (auto simp: contract_of_def)
  then show ?thesis using assms(2-4) unfolding resources_conflict_def by blast
qed

theorem conflict_needs_production_witness:
  "\<exists>c. resources_conflict (ac_resources c) (ac_resources c) \<and> ac_role (c :: attempt_contract) = Production"
proof -
  let ?c = "contract_of 1 2 (parent_input_revision (\<lambda>x. x) ''go'') demo_production"
  have "?c \<in> set (map (contract_of 1 2 (parent_input_revision (\<lambda>x. x) ''go'')) demo_items)"
    by (simp add: demo_items_def)
  moreover have "resources_conflict (ac_resources ?c) (ac_resources ?c)"
    by (simp add: resources_conflict_def contract_of_def demo_production_def eq_ignore_ascii_case_def)
  ultimately show ?thesis using conflict_needs_production [OF demo_plan] by blast
qed

text \<open>
  the conflicts reported for a list of claims are exactly the keys for which one of the
  first 32 claims supports and another contradicts, in ascending order and each once.
\<close>

theorem claim_conflicts_exact:
  "sorted (unresolved_claim_conflicts claims) \<and> distinct (unresolved_claim_conflicts claims) \<and>
   set (unresolved_claim_conflicts claims) =
     {k. Supports \<in> claim_stances (take 32 claims) k \<and> Contradicts \<in> claim_stances (take 32 claims) k}"
  by (auto simp: unresolved_claim_conflicts_def Let_def EXPERT_TEAM_MAX_CLAIMS_def claim_stances_def)

text \<open>
  evidence is counted once. The result of the deduplication is in ascending order of the
  identity and names no identity twice, and an entry is verified exactly if one of the first 64
  items with its kind and reference is.
\<close>

theorem evidence_deduplicated:
  "sorted (map ev_id (deduplicate_evidence sha es)) \<and> distinct (map ev_id (deduplicate_evidence sha es)) \<and>
   map ev_verified (deduplicate_evidence sha es) =
     map (\<lambda>w. verified_by sha (take 64 es) (ev_id w)) (deduplicate_evidence sha es)"
proof -
  let ?r = "fold (add_evidence sha) (take EXPERT_TEAM_MAX_EVIDENCE es) []"
  have "distinct (map ev_id ?r)" by (rule fold_evidence_keys) simp
  then have d: "distinct (map ev_id (deduplicate_evidence sha es))"
    by (simp add: deduplicate_evidence_def distinct_map)
  moreover have "ev_verified w = verified_by sha (take 64 es) (ev_id w)"
    if "w \<in> set (deduplicate_evidence sha es)" for w
    using deduplicate_row [OF row_of_mem [OF d that]] by (simp add: EXPERT_TEAM_MAX_EVIDENCE_def)
  ultimately show ?thesis by (simp add: deduplicate_evidence_def)
qed

end
