(* ===== verification/Goal_Envelope.thy ===== *)
theory Goal_Envelope
  imports Event_Log
begin

text \<open>
  Goal envelope proposals, \<open>kernel/goal_envelope.rs\<close>: the goal a model proposes, with the
  conditions that define done, the artifacts it must produce and the verifiers of the
  conditions, and the validation every proposal goes through when it is parsed or deserialised.
  The JSON text of a proposal (\<open>serde_json\<close>) is a parameter.
\<close>

section \<open>Data\<close>

definition GOAL_ENVELOPE_PROPOSAL_VERSION :: string where
  "GOAL_ENVELOPE_PROPOSAL_VERSION = ''ds-agent.goal-envelope-proposal/v1''"

definition MAX_JSON_BYTES :: nat where "MAX_JSON_BYTES = 65536"
definition MAX_ID_BYTES :: nat where "MAX_ID_BYTES = 96"
definition MAX_USER_GOAL_BYTES :: nat where "MAX_USER_GOAL_BYTES = 4096"
definition MAX_TEXT_BYTES :: nat where "MAX_TEXT_BYTES = 2048"
definition MAX_LIST_ITEMS :: nat where "MAX_LIST_ITEMS = 32"
definition MAX_VERIFIERS :: nat where "MAX_VERIFIERS = 64"

datatype proposal_error =
    JsonTooLarge | InvalidJson | UnsupportedVersion | InvalidText | InvalidIdentifier
  | CollectionOutOfBounds | DuplicateValue | UnknownDoneWhenBinding | MissingVerifierBinding
  | SecretLikeContent

type_synonym 'a proposal_res = "proposal_error + 'a"

fun proposal_error_text :: "proposal_error \<Rightarrow> string" where
  "proposal_error_text JsonTooLarge = ''goal envelope proposal json is too large''"
| "proposal_error_text InvalidJson = ''goal envelope proposal json is invalid''"
| "proposal_error_text UnsupportedVersion = ''goal envelope proposal version is unsupported''"
| "proposal_error_text InvalidText = ''goal envelope proposal contains invalid text''"
| "proposal_error_text InvalidIdentifier = ''goal envelope proposal contains an invalid identifier''"
| "proposal_error_text CollectionOutOfBounds = ''goal envelope proposal collection is outside its bounds''"
| "proposal_error_text DuplicateValue = ''goal envelope proposal contains a duplicate value''"
| "proposal_error_text UnknownDoneWhenBinding =
     ''goal envelope proposal verifier references an unknown done_when''"
| "proposal_error_text MissingVerifierBinding =
     ''goal envelope proposal done_when has no verifier proposal''"
| "proposal_error_text SecretLikeContent = ''goal envelope proposal contains secret-like content''"

record done_when =
  dw_id :: string
  dw_description :: string

record required_artifact =
  ra_id :: string
  ra_description :: string

record goal_verifier =
  gv_id :: string
  gv_done_when_id :: string
  gv_description :: string
  gv_evidence_kind :: string

record external_target =
  et_id :: string
  et_description :: string

record goal_proposal =
  gp_version :: string
  gp_user_goal :: string
  gp_assumptions :: "string list"
  gp_constraints :: "string list"
  gp_done_when :: "done_when list"
  gp_required_artifacts :: "required_artifact list"
  gp_verifiers :: "goal_verifier list"
  gp_proposed_capabilities :: "string list"
  gp_external_targets :: "external_target list"
  gp_stop_conditions :: "string list"

section \<open>Secret-like content\<close>

text \<open>
  \<open>trim_start_matches([' ', '\\'', '"'])\<close> and the length of the token that follows a marker.
\<close>

definition after_quotes :: "string \<Rightarrow> string" where
  "after_quotes s = dropWhile (\<lambda>c. c = CHR '' '' \<or> c = CHR 0x27 \<or> c = CHR 0x22) s"

definition key_char :: "char \<Rightarrow> bool" where
  "key_char c \<longleftrightarrow> is_alnum c \<or> c = CHR ''_'' \<or> c = CHR ''-''"

definition token_char :: "char \<Rightarrow> bool" where
  "token_char c \<longleftrightarrow> key_char c \<or> c = CHR ''.''"

definition contains_token_after :: "string \<Rightarrow> string \<Rightarrow> nat \<Rightarrow> bool" where
  "contains_token_after value marker minimum \<longleftrightarrow>
     any_match marker (\<lambda>s. length (takeWhile token_char (after_quotes s)) \<ge> minimum) value"

definition secret_markers :: "string list" where
  "secret_markers =
     [''bearer '', ''api_key='', ''api_key:'', ''api-key='', ''api-key:'', ''apikey='', ''apikey:'',
      ''password='', ''password:'', ''secret='', ''secret:'', ''token='', ''token:'']"

definition contains_secret_like_content :: "string \<Rightarrow> bool" where
  "contains_secret_like_content value \<longleftrightarrow>
     (let lower = ascii_lowercase value in
      (\<exists>m \<in> set secret_markers. contains_token_after lower m 12)
      \<or> any_match ''sk-'' (\<lambda>s. length (takeWhile key_char s) \<ge> 12) lower)"

section \<open>Validation\<close>

text \<open>\<open>char::is_control\<close> on UTF-8: U+0000..U+001F, U+007F and U+0080..U+009F.\<close>

fun has_control :: "string \<Rightarrow> bool" where
  "has_control [] = False"
| "has_control [a] = ascii_control a"
| "has_control (a # b # s) = (ascii_control a \<or> c1_control a b \<or> has_control (b # s))"

definition goal_text :: "string \<Rightarrow> nat \<Rightarrow> unit proposal_res" where
  "goal_text value max_bytes =
     (if value = [] \<or> value \<noteq> trim value \<or> length value > max_bytes \<or> has_control value
      then Inl InvalidText
      else if contains_secret_like_content value then Inl SecretLikeContent else Inr ())"

definition id_start :: "char \<Rightarrow> bool" where
  "id_start c \<longleftrightarrow> is_lower c \<or> is_digit c"

definition goal_id_text :: "string \<Rightarrow> unit proposal_res" where
  "goal_id_text value =
     (if value = [] \<or> length value > MAX_ID_BYTES \<or> \<not> id_start (hd value)
         \<or> \<not> list_all (\<lambda>c. id_start c \<or> c = CHR ''.'' \<or> c = CHR ''_'' \<or> c = CHR ''-'') value
      then Inl InvalidIdentifier
      else if contains_secret_like_content value then Inl SecretLikeContent else Inr ())"

text \<open>
  The loops over a collection: check an element, then insert its key into the set of keys seen
  and fail if it was there.
\<close>

fun unique_loop :: "('a \<Rightarrow> unit proposal_res) \<Rightarrow> ('a \<Rightarrow> string) \<Rightarrow> string set \<Rightarrow> 'a list \<Rightarrow> unit proposal_res" where
  "unique_loop check key seen [] = Inr ()"
| "unique_loop check key seen (x # xs) =
     bind_res (check x) (\<lambda>_.
       if key x \<in> seen then Inl DuplicateValue
       else unique_loop check key (insert (key x) seen) xs)"

definition validate_text_list :: "string list \<Rightarrow> nat \<Rightarrow> unit proposal_res" where
  "validate_text_list values max_items =
     (if length values > max_items then Inl CollectionOutOfBounds
      else unique_loop (\<lambda>v. goal_text v MAX_TEXT_BYTES) (\<lambda>v. v) {} values)"

definition validate_id_list :: "string list \<Rightarrow> nat \<Rightarrow> unit proposal_res" where
  "validate_id_list values max_items =
     (if length values > max_items then Inl CollectionOutOfBounds
      else unique_loop goal_id_text (\<lambda>v. v) {} values)"

definition check_done_when :: "done_when \<Rightarrow> unit proposal_res" where
  "check_done_when d =
     bind_res (goal_id_text (dw_id d)) (\<lambda>_. goal_text (dw_description d) MAX_TEXT_BYTES)"

definition check_artifact :: "required_artifact \<Rightarrow> unit proposal_res" where
  "check_artifact a =
     bind_res (goal_id_text (ra_id a)) (\<lambda>_. goal_text (ra_description a) MAX_TEXT_BYTES)"

definition check_target :: "external_target \<Rightarrow> unit proposal_res" where
  "check_target t =
     bind_res (goal_id_text (et_id t)) (\<lambda>_. goal_text (et_description t) MAX_TEXT_BYTES)"

fun verifier_loop :: "string set \<Rightarrow> string set \<Rightarrow> goal_verifier list \<Rightarrow> unit proposal_res" where
  "verifier_loop known seen [] = Inr ()"
| "verifier_loop known seen (v # vs) =
     bind_res (goal_id_text (gv_id v)) (\<lambda>_.
     bind_res (goal_id_text (gv_done_when_id v)) (\<lambda>_.
     bind_res (goal_text (gv_description v) MAX_TEXT_BYTES) (\<lambda>_.
     bind_res (goal_id_text (gv_evidence_kind v)) (\<lambda>_.
       if gv_id v \<in> seen then Inl DuplicateValue
       else if gv_done_when_id v \<notin> known then Inl UnknownDoneWhenBinding
       else verifier_loop known (insert (gv_id v) seen) vs))))"

definition proposal_validate :: "(goal_proposal \<Rightarrow> string) \<Rightarrow> goal_proposal \<Rightarrow> unit proposal_res" where
  "proposal_validate proposal_json p =
     (if gp_version p \<noteq> GOAL_ENVELOPE_PROPOSAL_VERSION then Inl UnsupportedVersion
      else
        bind_res (goal_text (gp_user_goal p) MAX_USER_GOAL_BYTES) (\<lambda>_.
        bind_res (validate_text_list (gp_assumptions p) MAX_LIST_ITEMS) (\<lambda>_.
        bind_res (validate_text_list (gp_constraints p) MAX_LIST_ITEMS) (\<lambda>_.
        bind_res (validate_text_list (gp_stop_conditions p) MAX_LIST_ITEMS) (\<lambda>_.
        if gp_done_when p = [] \<or> length (gp_done_when p) > MAX_LIST_ITEMS
        then Inl CollectionOutOfBounds
        else bind_res (unique_loop check_done_when dw_id {} (gp_done_when p)) (\<lambda>_.
        if length (gp_required_artifacts p) > MAX_LIST_ITEMS then Inl CollectionOutOfBounds
        else bind_res (unique_loop check_artifact ra_id {} (gp_required_artifacts p)) (\<lambda>_.
        if gp_verifiers p = [] \<or> length (gp_verifiers p) > MAX_VERIFIERS
        then Inl CollectionOutOfBounds
        else bind_res (verifier_loop (dw_id ` set (gp_done_when p)) {} (gp_verifiers p)) (\<lambda>_.
        if (\<exists>d \<in> dw_id ` set (gp_done_when p). d \<notin> gv_done_when_id ` set (gp_verifiers p))
        then Inl MissingVerifierBinding
        else bind_res (validate_id_list (gp_proposed_capabilities p) MAX_LIST_ITEMS) (\<lambda>_.
        if length (gp_external_targets p) > MAX_LIST_ITEMS then Inl CollectionOutOfBounds
        else bind_res (unique_loop check_target et_id {} (gp_external_targets p)) (\<lambda>_.
        if length (proposal_json p) > MAX_JSON_BYTES then Inl JsonTooLarge else Inr ()))))))))))"

text \<open>
  \<open>parse_value\<close>: the size of the encoded value, its decoding (\<open>serde_json\<close>, \<open>None\<close> where it
  fails) and the validation.
\<close>

definition parse_value ::
    "(goal_proposal \<Rightarrow> string) \<Rightarrow> ('v \<Rightarrow> string option) \<Rightarrow> ('v \<Rightarrow> goal_proposal option) \<Rightarrow> 'v
     \<Rightarrow> goal_proposal proposal_res" where
  "parse_value proposal_json encode decode value =
     (case encode value of None \<Rightarrow> Inl InvalidJson
      | Some encoded \<Rightarrow>
          if length encoded > MAX_JSON_BYTES then Inl JsonTooLarge
          else (case decode value of None \<Rightarrow> Inl InvalidJson
                | Some p \<Rightarrow> bind_res (proposal_validate proposal_json p) (\<lambda>_. Inr p)))"

section \<open>What a valid proposal is\<close>

lemma unique_loop_Inr:
  "unique_loop check key seen xs = Inr () \<Longrightarrow>
     distinct (map key xs) \<and> key ` set xs \<inter> seen = {} \<and> (\<forall>x \<in> set xs. check x = Inr ())"
  by (induction xs arbitrary: seen) (force simp: bind_res_Inr_iff split: if_splits)+

lemma verifier_loop_Inr:
  "verifier_loop known seen vs = Inr () \<Longrightarrow>
     distinct (map gv_id vs) \<and> gv_id ` set vs \<inter> seen = {} \<and>
     (\<forall>v \<in> set vs. gv_done_when_id v \<in> known \<and> goal_id_text (gv_id v) = Inr () \<and>
        goal_id_text (gv_done_when_id v) = Inr () \<and> goal_id_text (gv_evidence_kind v) = Inr () \<and>
        goal_text (gv_description v) MAX_TEXT_BYTES = Inr ())"
  by (induction vs arbitrary: seen) (force simp: bind_res_Inr_iff split: if_splits)+

lemma proposal_validate_Inr:
  assumes "proposal_validate js p = Inr ()"
  shows "goal_text (gp_user_goal p) MAX_USER_GOAL_BYTES = Inr ()"
    "validate_text_list (gp_assumptions p) MAX_LIST_ITEMS = Inr ()"
    "validate_text_list (gp_constraints p) MAX_LIST_ITEMS = Inr ()"
    "validate_text_list (gp_stop_conditions p) MAX_LIST_ITEMS = Inr ()"
    "gp_done_when p \<noteq> []" "length (gp_done_when p) \<le> MAX_LIST_ITEMS"
    "unique_loop check_done_when dw_id {} (gp_done_when p) = Inr ()"
    "length (gp_required_artifacts p) \<le> MAX_LIST_ITEMS"
    "unique_loop check_artifact ra_id {} (gp_required_artifacts p) = Inr ()"
    "gp_verifiers p \<noteq> []" "length (gp_verifiers p) \<le> MAX_VERIFIERS"
    "verifier_loop (dw_id ` set (gp_done_when p)) {} (gp_verifiers p) = Inr ()"
    "dw_id ` set (gp_done_when p) \<subseteq> gv_done_when_id ` set (gp_verifiers p)"
    "validate_id_list (gp_proposed_capabilities p) MAX_LIST_ITEMS = Inr ()"
    "unique_loop check_target et_id {} (gp_external_targets p) = Inr ()"
    "length (js p) \<le> MAX_JSON_BYTES"
  using assms unfolding proposal_validate_def
  by (auto simp: bind_res_Inr_iff not_less split: if_splits)

lemma proposal_targets_bound:
  assumes "proposal_validate js p = Inr ()"
  shows "length (gp_external_targets p) \<le> MAX_LIST_ITEMS"
  using assms unfolding proposal_validate_def
  by (auto simp: bind_res_Inr_iff not_less split: if_splits)

end
