(* ===== verification/Goal_Lifecycle.thy ===== *)
theory Goal_Lifecycle
  imports Goal_Envelope Access_Store "HOL-Library.Multiset"
begin

text \<open>
  The life of a goal, \<open>kernel/goal_lifecycle.rs\<close>: a proposal is received, validated against the
  tools and authorities of this machine, frozen under a revision, and completed by evidence from
  tool invocations. The parameters of \<open>goal_env\<close> are the 32 bytes of a SHA-256 digest, the JSON
  texts that are hashed or measured (\<open>serde_json\<close>), the text of an identifier and the string
  fields of a tool's JSON output. The tool catalog is an argument of the validation.
\<close>

section \<open>Data\<close>

definition GOAL_LIFECYCLE_SCHEMA_VERSION :: string where
  "GOAL_LIFECYCLE_SCHEMA_VERSION = ''ds-agent.goal-envelope-lifecycle/v1''"
definition GOAL_FROZEN_ENVELOPE_VERSION :: string where
  "GOAL_FROZEN_ENVELOPE_VERSION = ''ds-agent.goal-envelope-frozen/v1''"
definition GOAL_COMPLETION_SCHEMA_VERSION :: string where
  "GOAL_COMPLETION_SCHEMA_VERSION = ''ds-agent.goal-envelope-completion/v1''"
definition GOAL_UI_PROJECTION_VERSION :: string where
  "GOAL_UI_PROJECTION_VERSION = ''ds-agent.goal-envelope-ui/v1''"

definition nul_ended :: "string \<Rightarrow> string" where
  "nul_ended s = s @ [char_of (0 :: nat)]"

definition PROPOSAL_FINGERPRINT_DOMAIN :: string where
  "PROPOSAL_FINGERPRINT_DOMAIN = nul_ended ''ds-agent.goal-envelope-proposal-fingerprint.v1''"
definition CONTEXT_FINGERPRINT_DOMAIN :: string where
  "CONTEXT_FINGERPRINT_DOMAIN = nul_ended ''ds-agent.goal-envelope-context-fingerprint.v1''"
definition REVISION_DOMAIN :: string where
  "REVISION_DOMAIN = nul_ended ''ds-agent.goal-envelope-revision.v1''"
definition FROZEN_FINGERPRINT_DOMAIN :: string where
  "FROZEN_FINGERPRINT_DOMAIN = nul_ended ''ds-agent.goal-envelope-frozen-fingerprint.v1''"
definition COMPLETION_EVIDENCE_DOMAIN :: string where
  "COMPLETION_EVIDENCE_DOMAIN = nul_ended ''ds-agent.goal-envelope-completion-evidence.v1''"
definition COMPLETION_RECEIPT_DOMAIN :: string where
  "COMPLETION_RECEIPT_DOMAIN = nul_ended ''ds-agent.goal-envelope-completion-receipt.v1''"
definition TARGET_AUTHORITY_DOMAIN :: string where
  "TARGET_AUTHORITY_DOMAIN = nul_ended ''ds-agent.goal-envelope-target-authority.v1''"

definition MAX_PERSISTED_ENVELOPE_BYTES :: nat where "MAX_PERSISTED_ENVELOPE_BYTES = 65536"
definition MAX_COMPLETION_EVIDENCE :: nat where "MAX_COMPLETION_EVIDENCE = 128"

datatype lifecycle_status = StatusProposalReceived | StatusValidationBlocked | StatusValidated | StatusFrozen

fun lifecycle_status_text :: "lifecycle_status \<Rightarrow> string" where
  "lifecycle_status_text StatusProposalReceived = ''proposal_received''"
| "lifecycle_status_text StatusValidationBlocked = ''validation_blocked''"
| "lifecycle_status_text StatusValidated = ''validated''"
| "lifecycle_status_text StatusFrozen = ''frozen''"

datatype completion_status = VerificationBlocked | Complete

text \<open>The codes in the order of their declaration, which is their order in a \<open>BTreeSet\<close>.\<close>

datatype completion_code =
    ArtifactIdentityMismatch | DuplicateEvidence | EvidenceFailed | EvidenceGoalMismatch
  | EvidenceRevisionMismatch | EvidenceFingerprintMismatch | MissingArtifactEvidence
  | MissingVerifierEvidence | UnknownEvidence | VerifierBindingMismatch

definition completion_codes :: "completion_code list" where
  "completion_codes =
     [ArtifactIdentityMismatch, DuplicateEvidence, EvidenceFailed, EvidenceGoalMismatch,
      EvidenceRevisionMismatch, EvidenceFingerprintMismatch, MissingArtifactEvidence,
      MissingVerifierEvidence, UnknownEvidence, VerifierBindingMismatch]"

datatype evidence_status = EvidencePassed | EvidenceNotPassed | EvidenceUnknown

record completion_evidence =
  ce_evidence_id :: uuid
  ce_goal_id :: uuid
  ce_revision :: string
  ce_frozen_fingerprint :: string
  ce_verifier_id :: string
  ce_done_when_id :: string
  ce_evidence_kind :: string
  ce_artifact_ids :: "string list"
  ce_status :: evidence_status
  ce_source_fingerprint :: string

record completion_receipt =
  cr_version :: string
  cr_goal_id :: uuid
  cr_revision :: string
  cr_frozen_fingerprint :: string
  cr_evidence_fingerprints :: "string list"
  cr_fingerprint :: string

record goal_completion =
  cj_schema_version :: string
  cj_goal_id :: uuid
  cj_revision :: string
  cj_frozen_fingerprint :: string
  cj_status :: completion_status
  cj_failure_codes :: "completion_code list"
  cj_evidence :: "completion_evidence list"
  cj_receipt :: "completion_receipt option"

datatype ui_status = UiProposed | UiBlocked | UiValidated | UiFrozen | UiVerificationBlocked | UiComplete

datatype validation_code =
    AuthorizationUnavailable | CapabilityDisabled | CapabilityNotReady | CapabilityRiskNotAllowed
  | ExternalEffectNotAllowed | LocalEffectNotAllowed | SensitiveLocalReference
  | TargetBindingInvalid | TargetUnbound | UnknownCapability | VerifierUnavailable
  | WorkspaceNotReady

definition validation_codes :: "validation_code list" where
  "validation_codes =
     [AuthorizationUnavailable, CapabilityDisabled, CapabilityNotReady, CapabilityRiskNotAllowed,
      ExternalEffectNotAllowed, LocalEffectNotAllowed, SensitiveLocalReference,
      TargetBindingInvalid, TargetUnbound, UnknownCapability, VerifierUnavailable,
      WorkspaceNotReady]"

fun code_rank :: "validation_code \<Rightarrow> nat" where
  "code_rank AuthorizationUnavailable = 0"
| "code_rank CapabilityDisabled = 1"
| "code_rank CapabilityNotReady = 2"
| "code_rank CapabilityRiskNotAllowed = 3"
| "code_rank ExternalEffectNotAllowed = 4"
| "code_rank LocalEffectNotAllowed = 5"
| "code_rank SensitiveLocalReference = 6"
| "code_rank TargetBindingInvalid = 7"
| "code_rank TargetUnbound = 8"
| "code_rank UnknownCapability = 9"
| "code_rank VerifierUnavailable = 10"
| "code_rank WorkspaceNotReady = 11"

datatype disposition = DispositionBlocked | DispositionValidated

datatype binding_kind = BindWorkspace | BindPath | BindAccount | BindRecipient | BindTimeWindow

datatype effect_class = EffectReadOnly | EffectLocalMutation | EffectExternalMutation

datatype authorization = AuthorizationNone | FutureApprovalRequired

datatype workspace_readiness =
    WorkspaceReady | WorkspaceMissing | WorkspaceUnavailable | WorkspacePermissionDenied
  | WorkspaceProbeCleanupFailed | WorkspaceSettingsInvalid

datatype path_scope =
    ScopeNone | ScopeWorkspace | ScopeLocalFilesystem | ScopeAppEvidenceDirectory
  | ScopeAppUpdateDirectory | ScopeInstalledSkillStore

text \<open>The fields of a \<open>ToolContract\<close> that the validation reads.\<close>

record tool_contract =
  tc_id :: string
  tc_capability :: capability_kind
  tc_risk_level :: risk_level
  tc_path_scope :: path_scope
  tc_mutates_machine_state :: bool

record target_authority =
  ta_target_id :: string
  ta_binding_kind :: binding_kind
  ta_authority_fingerprint :: string
  ta_authority_bound :: bool

record validation_context =
  vc_access_mode :: access_mode
  vc_workspace :: workspace_readiness
  vc_max_risk :: risk_level
  vc_enabled_tools :: "string set"
  vc_ready_tools :: "string set"
  vc_approval_routes :: "string set"
  vc_verifier_kinds :: "string set"
  vc_target_bindings :: "(string \<times> target_authority) list"
  vc_allow_local_effects :: bool
  vc_allow_external_effects :: bool

record capability_validation =
  cv_tool_id :: string
  cv_capability :: string
  cv_risk_level :: risk_level
  cv_effect_class :: effect_class
  cv_authorization :: authorization

record bound_target =
  bt_target_id :: string
  bt_binding_kind :: binding_kind
  bt_authority_fingerprint :: string

record validation_receipt =
  vt_version :: string
  vt_disposition :: disposition
  vt_proposal_fingerprint :: string
  vt_context_fingerprint :: string
  vt_failure_codes :: "validation_code list"
  vt_capabilities :: "capability_validation list"
  vt_target_bindings :: "bound_target list"
  vt_verifier_kinds :: "string list"

record validated_envelope =
  ve_version :: string
  ve_user_goal :: string
  ve_assumptions :: "string list"
  ve_constraints :: "string list"
  ve_done_when :: "done_when list"
  ve_required_artifacts :: "required_artifact list"
  ve_verifiers :: "goal_verifier list"
  ve_capabilities :: "capability_validation list"
  ve_targets :: "bound_target list"
  ve_stop_conditions :: "string list"

record frozen_envelope =
  fe_version :: string
  fe_proposal_fingerprint :: string
  fe_revision :: string
  fe_envelope :: validated_envelope
  fe_receipt :: validation_receipt
  fe_fingerprint :: string

datatype goal_state =
    GoalProposalReceived string
  | GoalValidationBlocked string validation_receipt
  | GoalValidated string string validated_envelope validation_receipt
  | GoalFrozen frozen_envelope

record goal_projection =
  gj_schema_version :: string
  gj_goal_id :: uuid
  gj_state :: goal_state

record goal_env =
  ge_sha_raw :: "string \<Rightarrow> string"
  ge_proposal_json :: "goal_proposal \<Rightarrow> string"
  ge_context_json :: "validation_context \<Rightarrow> bound_target list \<Rightarrow> string"
  ge_revision_json :: "string \<Rightarrow> string \<Rightarrow> validated_envelope \<Rightarrow> validation_receipt \<Rightarrow> string"
  ge_frozen_json :: "string \<Rightarrow> string \<Rightarrow> string \<Rightarrow> validated_envelope \<Rightarrow> validation_receipt \<Rightarrow> string"
  ge_envelope_json :: "validated_envelope \<Rightarrow> string"
  ge_tool_evidence_json :: "uuid \<Rightarrow> string \<Rightarrow> tool_status \<Rightarrow> bool \<Rightarrow> string list \<Rightarrow> string"
  ge_receipt_json :: "string \<Rightarrow> uuid \<Rightarrow> string \<Rightarrow> string \<Rightarrow> string list \<Rightarrow> string"
  ge_uuid_text :: "uuid \<Rightarrow> string"
  ge_output_field :: "string \<Rightarrow> string \<Rightarrow> string option"

section \<open>Hashes\<close>

definition hex_digit :: "nat \<Rightarrow> char" where
  "hex_digit n = char_of (if n < 10 then 48 + n else 87 + n)"

definition hex_text :: "string \<Rightarrow> string" where
  "hex_text s = concat (map (\<lambda>c. [hex_digit (code c div 16), hex_digit (code c mod 16)]) s)"

definition domain_hash :: "goal_env \<Rightarrow> string \<Rightarrow> string \<Rightarrow> string" where
  "domain_hash env domain v = hex_text (ge_sha_raw env (domain @ be_bytes 8 (length v) @ v))"

definition deterministic_uuid :: "goal_env \<Rightarrow> string \<Rightarrow> string \<Rightarrow> uuid" where
  "deterministic_uuid env domain v =
     (let bytes = map code (take 16 (ge_sha_raw env (domain @ v)));
          bytes = bytes[6 := bytes ! 6 mod 16 + 80];
          bytes = bytes[8 := bytes ! 8 mod 64 + 128] in
      foldl (\<lambda>n b. 256 * n + b) 0 bytes)"

definition valid_hash :: "string \<Rightarrow> bool" where
  "valid_hash v \<longleftrightarrow> length v = 64 \<and> list_all lower_hex v"

section \<open>Local references and secrets\<close>

definition is_alpha :: "char \<Rightarrow> bool" where
  "is_alpha c \<longleftrightarrow> is_lower c \<or> is_upper c"

fun has_windows_absolute :: "string \<Rightarrow> bool" where
  "has_windows_absolute (a # b # c # s) =
     ((is_alpha a \<and> b = CHR '':'' \<and> (c = CHR 0x5C \<or> c = CHR 0x2F))
      \<or> has_windows_absolute (b # c # s))"
| "has_windows_absolute _ = False"

definition local_markers :: "string list" where
  "local_markers =
     [CHR 0x5C # ''appdata'' @ [CHR 0x5C], ''/appdata/'', ''/users/'', ''/home/'', ''vault://'',
      ''provider_body'', ''provider-body'', ''claim_token'', ''claim-token'']"

definition contains_sensitive_local_reference :: "string \<Rightarrow> bool" where
  "contains_sensitive_local_reference v \<longleftrightarrow>
     (let lower = ascii_lowercase v in
      has_windows_absolute lower \<or> (\<exists>m \<in> set local_markers. contains_sub m lower))"

definition stored_value_is_secret_free :: "string \<Rightarrow> bool" where
  "stored_value_is_secret_free v \<longleftrightarrow>
     \<not> contains_sensitive_local_reference v \<and> \<not> contains_secret_like_content v"

definition safe_contract_token :: "string \<Rightarrow> bool" where
  "safe_contract_token v \<longleftrightarrow>
     (let v = trim v in
      v \<noteq> [] \<and> length v \<le> 128
      \<and> list_all (\<lambda>c. is_alnum c \<or> c = CHR ''.'' \<or> c = CHR ''_'' \<or> c = CHR ''-'') v
      \<and> \<not> contains_sensitive_local_reference v)"

text \<open>The texts of a proposal and of an envelope, in the order the code chains them.\<close>

definition verifier_texts :: "goal_verifier \<Rightarrow> string list" where
  "verifier_texts v = [gv_id v, gv_done_when_id v, gv_description v, gv_evidence_kind v]"

definition proposal_texts :: "goal_proposal \<Rightarrow> string list" where
  "proposal_texts p =
     gp_user_goal p # gp_assumptions p @ gp_constraints p
     @ concat (map (\<lambda>d. [dw_id d, dw_description d]) (gp_done_when p))
     @ concat (map (\<lambda>a. [ra_id a, ra_description a]) (gp_required_artifacts p))
     @ concat (map verifier_texts (gp_verifiers p))
     @ gp_proposed_capabilities p
     @ concat (map (\<lambda>t. [et_id t, et_description t]) (gp_external_targets p))
     @ gp_stop_conditions p"

definition proposal_contains_sensitive_local_reference :: "goal_proposal \<Rightarrow> bool" where
  "proposal_contains_sensitive_local_reference p \<longleftrightarrow>
     list_ex contains_sensitive_local_reference (proposal_texts p)"

definition envelope_texts :: "validated_envelope \<Rightarrow> string list" where
  "envelope_texts e =
     ve_user_goal e # ve_assumptions e @ ve_constraints e
     @ concat (map (\<lambda>d. [dw_id d, dw_description d]) (ve_done_when e))
     @ concat (map (\<lambda>a. [ra_id a, ra_description a]) (ve_required_artifacts e))
     @ concat (map verifier_texts (ve_verifiers e))
     @ ve_stop_conditions e"

section \<open>Validation of a proposal on this machine\<close>

fun risk_rank :: "risk_level \<Rightarrow> nat" where
  "risk_rank Low = 0"
| "risk_rank Medium = 1"
| "risk_rank High = 2"
| "risk_rank Critical = 3"

definition effect_class_of :: "tool_contract \<Rightarrow> effect_class" where
  "effect_class_of c =
     (if tc_id c = CONNECTOR_MUTATE_TOOL_ID then EffectExternalMutation
      else if tc_mutates_machine_state c then EffectLocalMutation else EffectReadOnly)"

text \<open>The failures one capability adds.\<close>

definition validate_capability :: "tool_contract \<Rightarrow> validation_context \<Rightarrow> validation_code set" where
  "validate_capability c ctx =
     (if tc_id c \<notin> vc_enabled_tools ctx then {CapabilityDisabled}
      else if tc_id c \<notin> vc_ready_tools ctx then {CapabilityNotReady} else {})
     \<union> (if risk_rank (tc_risk_level c) > risk_rank (vc_max_risk ctx)
           \<or> tc_risk_level c \<noteq> capability_risk (tc_capability c)
        then {CapabilityRiskNotAllowed} else {})
     \<union> (if tc_path_scope c = ScopeWorkspace \<and> vc_workspace ctx \<noteq> WorkspaceReady
        then {WorkspaceNotReady} else {})
     \<union> (if effect_class_of c = EffectLocalMutation \<and> \<not> vc_allow_local_effects ctx
        then {LocalEffectNotAllowed} else {})
     \<union> (if effect_class_of c = EffectExternalMutation \<and> \<not> vc_allow_external_effects ctx
        then {ExternalEffectNotAllowed} else {})
     \<union> (if decide (vc_access_mode ctx) (tc_capability c) = Ask \<and> tc_id c \<notin> vc_approval_routes ctx
        then {AuthorizationUnavailable} else {})"

definition capability_validation_of :: "tool_contract \<Rightarrow> validation_context \<Rightarrow> capability_validation" where
  "capability_validation_of c ctx =
     \<lparr>cv_tool_id = tc_id c, cv_capability = capability_as_str (tc_capability c),
      cv_risk_level = tc_risk_level c, cv_effect_class = effect_class_of c,
      cv_authorization =
        (if decide (vc_access_mode ctx) (tc_capability c) = Ask then FutureApprovalRequired
         else AuthorizationNone)\<rparr>"

definition validate_tools ::
    "tool_contract list \<Rightarrow> validation_context \<Rightarrow> string list \<Rightarrow> validation_code set \<times> capability_validation list" where
  "validate_tools catalog ctx ids =
     (let found = map (\<lambda>i. find (\<lambda>c. tc_id c = i) catalog) ids in
      ((\<Union>f \<in> set found. (case f of None \<Rightarrow> {UnknownCapability} | Some c \<Rightarrow> validate_capability c ctx)),
       sort_key cv_tool_id
         (List.map_filter (map_option (\<lambda>c. capability_validation_of c ctx)) found)))"

definition target_result ::
    "validation_context \<Rightarrow> external_target \<Rightarrow> validation_code set \<times> bound_target option" where
  "target_result ctx t =
     (case map_of (vc_target_bindings ctx) (et_id t) of
        None \<Rightarrow> ({TargetUnbound}, None)
      | Some b \<Rightarrow>
          if ta_target_id b \<noteq> et_id t \<or> \<not> ta_authority_bound b
             \<or> \<not> valid_hash (ta_authority_fingerprint b)
             \<or> contains_sensitive_local_reference (ta_target_id b)
          then ({TargetBindingInvalid}, None)
          else (if (ta_binding_kind b = BindWorkspace \<or> ta_binding_kind b = BindPath)
                   \<and> vc_workspace ctx \<noteq> WorkspaceReady then {WorkspaceNotReady} else {},
                Some \<lparr>bt_target_id = et_id t, bt_binding_kind = ta_binding_kind b,
                      bt_authority_fingerprint = ta_authority_fingerprint b\<rparr>))"

definition validate_targets ::
    "validation_context \<Rightarrow> external_target list \<Rightarrow> validation_code set \<times> bound_target list" where
  "validate_targets ctx ts =
     (let rs = map (target_result ctx) ts in
      (\<Union>(set (map fst rs)), sort_key bt_target_id (List.map_filter snd rs)))"

definition sorted_set :: "string list \<Rightarrow> string list" where
  "sorted_set xs = sort (remdups xs)"

definition normalized_envelope ::
    "goal_proposal \<Rightarrow> bound_target list \<Rightarrow> capability_validation list \<Rightarrow> validated_envelope" where
  "normalized_envelope p targets capabilities =
     \<lparr>ve_version = GOAL_FROZEN_ENVELOPE_VERSION, ve_user_goal = gp_user_goal p,
      ve_assumptions = sort (gp_assumptions p), ve_constraints = sort (gp_constraints p),
      ve_done_when = sort_key dw_id (gp_done_when p),
      ve_required_artifacts = sort_key ra_id (gp_required_artifacts p),
      ve_verifiers = sort_key gv_id (gp_verifiers p), ve_capabilities = capabilities,
      ve_targets = targets, ve_stop_conditions = sort (gp_stop_conditions p)\<rparr>"

definition canonical_proposal :: "goal_proposal \<Rightarrow> goal_proposal" where
  "canonical_proposal p =
     p\<lparr>gp_assumptions := sort (gp_assumptions p), gp_constraints := sort (gp_constraints p),
       gp_done_when := sort_key dw_id (gp_done_when p),
       gp_required_artifacts := sort_key ra_id (gp_required_artifacts p),
       gp_verifiers := sort_key gv_id (gp_verifiers p),
       gp_proposed_capabilities := sort (gp_proposed_capabilities p),
       gp_external_targets := sort_key et_id (gp_external_targets p),
       gp_stop_conditions := sort (gp_stop_conditions p)\<rparr>"

definition proposal_fingerprint :: "goal_env \<Rightarrow> goal_proposal \<Rightarrow> string" where
  "proposal_fingerprint env p =
     domain_hash env PROPOSAL_FINGERPRINT_DOMAIN (ge_proposal_json env (canonical_proposal p))"

text \<open>
  The bindings of a context are a \<open>BTreeMap\<close>: pairs in the order of their keys. The fingerprint
  takes its values, sorted by the target id they name; \<open>ge_context_json\<close> gets the context and
  that list.
\<close>

definition context_targets :: "validation_context \<Rightarrow> bound_target list" where
  "context_targets ctx =
     sort_key bt_target_id
       (map (\<lambda>(k, b). \<lparr>bt_target_id = ta_target_id b, bt_binding_kind = ta_binding_kind b,
                        bt_authority_fingerprint = ta_authority_fingerprint b\<rparr>)
          (vc_target_bindings ctx))"

definition context_fingerprint :: "goal_env \<Rightarrow> validation_context \<Rightarrow> string" where
  "context_fingerprint env ctx =
     domain_hash env CONTEXT_FINGERPRINT_DOMAIN (ge_context_json env ctx (context_targets ctx))"

definition revision_for :: "goal_env \<Rightarrow> string \<Rightarrow> validated_envelope \<Rightarrow> validation_receipt \<Rightarrow> string" where
  "revision_for env proposal_fp e r =
     domain_hash env REVISION_DOMAIN
       (ge_revision_json env GOAL_FROZEN_ENVELOPE_VERSION proposal_fp e r)"

definition frozen_fingerprint :: "goal_env \<Rightarrow> frozen_envelope \<Rightarrow> string" where
  "frozen_fingerprint env f =
     domain_hash env FROZEN_FINGERPRINT_DOMAIN
       (ge_frozen_json env (fe_version f) (fe_proposal_fingerprint f) (fe_revision f) (fe_envelope f)
          (fe_receipt f))"

definition proposal_received_projection ::
    "goal_env \<Rightarrow> uuid \<Rightarrow> goal_proposal \<Rightarrow> goal_projection proposal_res" where
  "proposal_received_projection env goal_id p =
     bind_res (proposal_validate (ge_proposal_json env) p) (\<lambda>_.
       Inr \<lparr>gj_schema_version = GOAL_LIFECYCLE_SCHEMA_VERSION, gj_goal_id = goal_id,
            gj_state = GoalProposalReceived (proposal_fingerprint env p)\<rparr>)"

definition validation_failures ::
    "tool_contract list \<Rightarrow> validation_context \<Rightarrow> goal_proposal \<Rightarrow> validation_code set" where
  "validation_failures catalog ctx p =
     (if proposal_contains_sensitive_local_reference p then {SensitiveLocalReference} else {})
     \<union> fst (validate_tools catalog ctx (gp_proposed_capabilities p))
     \<union> fst (validate_targets ctx (gp_external_targets p))
     \<union> (if (\<exists>k \<in> gv_evidence_kind ` set (gp_verifiers p). k \<notin> vc_verifier_kinds ctx)
        then {VerifierUnavailable} else {})"

definition validation_receipt_for ::
    "goal_env \<Rightarrow> tool_contract list \<Rightarrow> validation_context \<Rightarrow> goal_proposal \<Rightarrow> validation_receipt" where
  "validation_receipt_for env catalog ctx p =
     (let failures = validation_failures catalog ctx p in
      \<lparr>vt_version = GOAL_LIFECYCLE_SCHEMA_VERSION,
       vt_disposition = (if failures = {} then DispositionValidated else DispositionBlocked),
       vt_proposal_fingerprint = proposal_fingerprint env p,
       vt_context_fingerprint = context_fingerprint env ctx,
       vt_failure_codes = filter (\<lambda>c. c \<in> failures) validation_codes,
       vt_capabilities = snd (validate_tools catalog ctx (gp_proposed_capabilities p)),
       vt_target_bindings = snd (validate_targets ctx (gp_external_targets p)),
       vt_verifier_kinds =
         filter (\<lambda>k. \<not> contains_sensitive_local_reference k)
           (sorted_set (map gv_evidence_kind (gp_verifiers p)))\<rparr>)"

definition validated_projection ::
    "goal_env \<Rightarrow> tool_contract list \<Rightarrow> uuid \<Rightarrow> goal_proposal \<Rightarrow> validation_context
     \<Rightarrow> goal_projection proposal_res" where
  "validated_projection env catalog goal_id p ctx =
     bind_res (proposal_validate (ge_proposal_json env) p) (\<lambda>_.
       let fp = proposal_fingerprint env p; receipt = validation_receipt_for env catalog ctx p in
       Inr \<lparr>gj_schema_version = GOAL_LIFECYCLE_SCHEMA_VERSION, gj_goal_id = goal_id,
            gj_state =
              (if vt_disposition receipt = DispositionBlocked then GoalValidationBlocked fp receipt
               else let e = normalized_envelope p (vt_target_bindings receipt) (vt_capabilities receipt) in
                 GoalValidated fp (revision_for env fp e receipt) e receipt)\<rparr>)"

definition frozen_projection ::
    "goal_env \<Rightarrow> goal_projection \<Rightarrow> string \<Rightarrow> goal_projection res" where
  "frozen_projection env current expected =
     (case gj_state current of
        GoalValidated fp revision e receipt \<Rightarrow>
          if revision \<noteq> expected then Inl ''goal_revision_mismatch''
          else let f = \<lparr>fe_version = GOAL_FROZEN_ENVELOPE_VERSION, fe_proposal_fingerprint = fp,
                        fe_revision = revision, fe_envelope = e, fe_receipt = receipt,
                        fe_fingerprint = []\<rparr> in
            Inr \<lparr>gj_schema_version = GOAL_LIFECYCLE_SCHEMA_VERSION, gj_goal_id = gj_goal_id current,
                 gj_state = GoalFrozen (f\<lparr>fe_fingerprint := frozen_fingerprint env f\<rparr>)\<rparr>
      | GoalFrozen f \<Rightarrow>
          if fe_revision f = expected then Inr current else Inl ''goal_revision_mismatch''
      | _ \<Rightarrow> Inl ''goal_not_validated'')"

section \<open>Reading a projection\<close>

fun goal_status :: "goal_state \<Rightarrow> lifecycle_status" where
  "goal_status (GoalProposalReceived _) = StatusProposalReceived"
| "goal_status (GoalValidationBlocked _ _) = StatusValidationBlocked"
| "goal_status (GoalValidated _ _ _ _) = StatusValidated"
| "goal_status (GoalFrozen _) = StatusFrozen"

fun goal_proposal_fingerprint :: "goal_state \<Rightarrow> string" where
  "goal_proposal_fingerprint (GoalProposalReceived fp) = fp"
| "goal_proposal_fingerprint (GoalValidationBlocked fp _) = fp"
| "goal_proposal_fingerprint (GoalValidated fp _ _ _) = fp"
| "goal_proposal_fingerprint (GoalFrozen f) = fe_proposal_fingerprint f"

fun goal_revision :: "goal_state \<Rightarrow> string option" where
  "goal_revision (GoalValidated _ revision _ _) = Some revision"
| "goal_revision (GoalFrozen f) = Some (fe_revision f)"
| "goal_revision _ = None"

fun goal_receipt :: "goal_state \<Rightarrow> validation_receipt option" where
  "goal_receipt (GoalValidationBlocked _ r) = Some r"
| "goal_receipt (GoalValidated _ _ _ r) = Some r"
| "goal_receipt (GoalFrozen f) = Some (fe_receipt f)"
| "goal_receipt (GoalProposalReceived _) = None"

fun goal_frozen :: "goal_state \<Rightarrow> frozen_envelope option" where
  "goal_frozen (GoalFrozen f) = Some f"
| "goal_frozen _ = None"

text \<open>\<open>windows(2).all(..)\<close>\<close>

fun adjacent :: "('a \<Rightarrow> 'a \<Rightarrow> bool) \<Rightarrow> 'a list \<Rightarrow> bool" where
  "adjacent r (a # b # xs) = (r a b \<and> adjacent r (b # xs))"
| "adjacent r _ = True"

definition receipt_is_secret_free :: "validation_receipt \<Rightarrow> bool" where
  "receipt_is_secret_free r \<longleftrightarrow>
     vt_version r = GOAL_LIFECYCLE_SCHEMA_VERSION
     \<and> valid_hash (vt_proposal_fingerprint r) \<and> valid_hash (vt_context_fingerprint r)
     \<and> adjacent (\<lambda>a b. code_rank a < code_rank b) (vt_failure_codes r)
     \<and> adjacent (\<lambda>a b. cv_tool_id a < cv_tool_id b) (vt_capabilities r)
     \<and> adjacent (\<lambda>a b. bt_target_id a < bt_target_id b) (vt_target_bindings r)
     \<and> adjacent (<) (vt_verifier_kinds r)
     \<and> list_all (\<lambda>b. valid_hash (bt_authority_fingerprint b)
                     \<and> stored_value_is_secret_free (bt_target_id b)) (vt_target_bindings r)
     \<and> list_all (\<lambda>c. stored_value_is_secret_free (cv_tool_id c)
                     \<and> stored_value_is_secret_free (cv_capability c)) (vt_capabilities r)
     \<and> list_all stored_value_is_secret_free (vt_verifier_kinds r)"

definition validated_envelope_is_secret_free ::
    "goal_env \<Rightarrow> validated_envelope \<Rightarrow> validation_receipt \<Rightarrow> bool" where
  "validated_envelope_is_secret_free env e r \<longleftrightarrow>
     ve_version e = GOAL_FROZEN_ENVELOPE_VERSION
     \<and> ve_capabilities e = vt_capabilities r \<and> ve_targets e = vt_target_bindings r
     \<and> length (ge_envelope_json env e) \<le> MAX_PERSISTED_ENVELOPE_BYTES
     \<and> adjacent (<) (ve_assumptions e) \<and> adjacent (<) (ve_constraints e)
     \<and> adjacent (\<lambda>a b. dw_id a < dw_id b) (ve_done_when e)
     \<and> adjacent (\<lambda>a b. ra_id a < ra_id b) (ve_required_artifacts e)
     \<and> adjacent (\<lambda>a b. gv_id a < gv_id b) (ve_verifiers e)
     \<and> adjacent (<) (ve_stop_conditions e)
     \<and> sorted_set (map gv_evidence_kind (ve_verifiers e)) = vt_verifier_kinds r
     \<and> list_all stored_value_is_secret_free (envelope_texts e)"

definition validate_persisted :: "goal_env \<Rightarrow> goal_projection \<Rightarrow> unit res" where
  "validate_persisted env j =
     (if gj_schema_version j \<noteq> GOAL_LIFECYCLE_SCHEMA_VERSION
         \<or> \<not> valid_hash (goal_proposal_fingerprint (gj_state j))
      then Inl ''goal_projection_invalid''
      else
        (case gj_state j of
           GoalProposalReceived _ \<Rightarrow> Inr ()
         | GoalValidationBlocked fp r \<Rightarrow>
             if vt_disposition r \<noteq> DispositionBlocked \<or> vt_failure_codes r = []
                \<or> vt_proposal_fingerprint r \<noteq> fp \<or> \<not> receipt_is_secret_free r
             then Inl ''goal_projection_invalid'' else Inr ()
         | GoalValidated fp revision e r \<Rightarrow>
             if vt_disposition r \<noteq> DispositionValidated \<or> vt_failure_codes r \<noteq> []
                \<or> vt_proposal_fingerprint r \<noteq> fp \<or> revision \<noteq> revision_for env fp e r
                \<or> \<not> receipt_is_secret_free r \<or> \<not> validated_envelope_is_secret_free env e r
             then Inl ''goal_projection_invalid'' else Inr ()
         | GoalFrozen f \<Rightarrow>
             if fe_version f \<noteq> GOAL_FROZEN_ENVELOPE_VERSION
                \<or> vt_disposition (fe_receipt f) \<noteq> DispositionValidated
                \<or> vt_failure_codes (fe_receipt f) \<noteq> []
                \<or> vt_proposal_fingerprint (fe_receipt f) \<noteq> fe_proposal_fingerprint f
                \<or> fe_revision f
                   \<noteq> revision_for env (fe_proposal_fingerprint f) (fe_envelope f) (fe_receipt f)
                \<or> fe_fingerprint f \<noteq> frozen_fingerprint env f
                \<or> \<not> receipt_is_secret_free (fe_receipt f)
                \<or> \<not> validated_envelope_is_secret_free env (fe_envelope f) (fe_receipt f)
             then Inl ''goal_projection_invalid'' else Inr ()))"

section \<open>Evidence from a tool invocation\<close>

definition invocation_matches_artifact :: "goal_env \<Rightarrow> tool_invocation \<Rightarrow> string \<Rightarrow> bool" where
  "invocation_matches_artifact env v artifact_id \<longleftrightarrow>
     (\<exists>e \<in> set (ti_evidence v). trim (te_reference e) = artifact_id)
     \<or> is_some_and (ti_output v) (\<lambda>output.
          ge_output_field env output ''artifact_id'' = Some artifact_id
          \<or> ge_output_field env output ''id'' = Some artifact_id)"

definition evidence_kinds :: "tool_invocation \<Rightarrow> string list" where
  "evidence_kinds v =
     sorted_set (filter safe_contract_token (map (\<lambda>e. trim (te_kind e)) (ti_evidence v)))"

definition NUL :: string where "NUL = [char_of (0 :: nat)]"

definition completion_evidence_from_tool_invocation ::
    "goal_env \<Rightarrow> goal_projection \<Rightarrow> tool_invocation \<Rightarrow> completion_evidence list res" where
  "completion_evidence_from_tool_invocation env j v =
     bind_res (ok_or (goal_frozen (gj_state j)) ''goal_not_frozen'') (\<lambda>f.
       if ti_run_id v \<noteq> Some (gj_goal_id j) then Inl ''goal_evidence_run_mismatch''
       else
         let kinds = evidence_kinds v;
             source = domain_hash env COMPLETION_EVIDENCE_DOMAIN
               (ge_tool_evidence_json env (ti_id v) (ti_tool_id v) (ti_status v)
                  (tv_passed (ti_verification v)) kinds);
             artifacts = filter (invocation_matches_artifact env v)
               (map ra_id (ve_required_artifacts (fe_envelope f)));
             passed = (ti_status v = ToolSucceeded \<and> tv_passed (ti_verification v));
             key = (\<lambda>w. ge_uuid_text env (ti_id v) @ NUL @ ge_uuid_text env (gj_goal_id j) @ NUL
                      @ fe_revision f @ NUL @ w);
             receipt = (\<lambda>vid dw kind st.
               \<lparr>ce_evidence_id = deterministic_uuid env COMPLETION_EVIDENCE_DOMAIN (key vid),
                ce_goal_id = gj_goal_id j, ce_revision = fe_revision f,
                ce_frozen_fingerprint = fe_fingerprint f, ce_verifier_id = vid,
                ce_done_when_id = dw, ce_evidence_kind = kind, ce_artifact_ids = artifacts,
                ce_status = st, ce_source_fingerprint = source\<rparr>);
             receipts = map (\<lambda>w. receipt (gv_id w) (gv_done_when_id w) (gv_evidence_kind w)
                                  (if passed then EvidencePassed else EvidenceNotPassed))
               (filter (\<lambda>w. gv_evidence_kind w \<in> set kinds) (ve_verifiers (fe_envelope f))) in
         Inr (if receipts = [] then [receipt ''unknown'' ''unknown'' ''unknown'' EvidenceUnknown]
              else receipts))"

section \<open>Completion\<close>

text \<open>
  The first loop: the first receipt with an evidence id is kept, another one that differs is a
  failure. The rows end in the order of their ids.
\<close>

fun unique_evidence ::
    "completion_evidence list \<Rightarrow> completion_code set \<times> completion_evidence list
     \<Rightarrow> completion_code set \<times> completion_evidence list" where
  "unique_evidence [] s = s"
| "unique_evidence (r # rs) (failures, kept) =
     (case row_of ce_evidence_id kept (ce_evidence_id r) of
        Some old \<Rightarrow>
          unique_evidence rs (if old \<noteq> r then insert DuplicateEvidence failures else failures, kept)
      | None \<Rightarrow> unique_evidence rs (failures, kept @ [r]))"

text \<open>What the second loop has seen.\<close>

record tally =
  ty_failures :: "completion_code set"
  ty_counts :: "string \<Rightarrow> nat"
  ty_verifiers :: "string set"
  ty_artifacts :: "string set"

definition verifier_by_id :: "frozen_envelope \<Rightarrow> string \<Rightarrow> goal_verifier option" where
  "verifier_by_id f = map_of (rev (map (\<lambda>v. (gv_id v, v)) (ve_verifiers (fe_envelope f))))"

definition required_ids :: "frozen_envelope \<Rightarrow> string set" where
  "required_ids f = ra_id ` set (ve_required_artifacts (fe_envelope f))"

text \<open>The failures of a receipt that names another goal, revision or fingerprint.\<close>

definition mismatches :: "uuid \<Rightarrow> frozen_envelope \<Rightarrow> completion_evidence \<Rightarrow> completion_code set" where
  "mismatches goal_id f r =
     (if ce_goal_id r \<noteq> goal_id then {EvidenceGoalMismatch} else {})
     \<union> (if ce_revision r \<noteq> fe_revision f then {EvidenceRevisionMismatch} else {})
     \<union> (if ce_frozen_fingerprint r \<noteq> fe_fingerprint f then {EvidenceFingerprintMismatch} else {})"

definition well_formed_evidence :: "completion_evidence \<Rightarrow> bool" where
  "well_formed_evidence r \<longleftrightarrow> valid_hash (ce_source_fingerprint r)
     \<and> safe_contract_token (ce_verifier_id r) \<and> safe_contract_token (ce_done_when_id r)
     \<and> safe_contract_token (ce_evidence_kind r)"

definition tally_step :: "uuid \<Rightarrow> frozen_envelope \<Rightarrow> completion_evidence \<Rightarrow> tally \<Rightarrow> tally" where
  "tally_step goal_id f r t =
     (let t = t\<lparr>ty_failures := ty_failures t \<union> mismatches goal_id f r\<rparr>;
          fail = (\<lambda>c t. t\<lparr>ty_failures := insert c (ty_failures t)\<rparr>) in
      if \<not> well_formed_evidence r then fail UnknownEvidence t
      else (case verifier_by_id f (ce_verifier_id r) of
          None \<Rightarrow> fail UnknownEvidence t
        | Some v \<Rightarrow>
            if ce_done_when_id r \<noteq> gv_done_when_id v \<or> ce_evidence_kind r \<noteq> gv_evidence_kind v
            then fail VerifierBindingMismatch t
            else
              let n = Suc (ty_counts t (ce_verifier_id r));
                  t = t\<lparr>ty_counts := (ty_counts t)(ce_verifier_id r := n)\<rparr>;
                  t = (if n > 1 then fail DuplicateEvidence t else t) in
              if ce_status r \<noteq> EvidencePassed then fail EvidenceFailed t
              else
                t\<lparr>ty_verifiers := insert (ce_verifier_id r) (ty_verifiers t),
                  ty_failures := ty_failures t \<union>
                    (if (\<exists>a \<in> set (ce_artifact_ids r). a \<notin> required_ids f)
                     then {ArtifactIdentityMismatch} else {}),
                  ty_artifacts := ty_artifacts t \<union> (set (ce_artifact_ids r) \<inter> required_ids f)\<rparr>))"

definition empty_tally :: "completion_code set \<Rightarrow> tally" where
  "empty_tally failures =
     \<lparr>ty_failures = failures, ty_counts = (\<lambda>_. 0), ty_verifiers = {}, ty_artifacts = {}\<rparr>"

definition completion_failures ::
    "uuid \<Rightarrow> frozen_envelope \<Rightarrow> completion_code set \<Rightarrow> completion_evidence list \<Rightarrow> completion_code set" where
  "completion_failures goal_id f failures evidence =
     (let t = fold (tally_step goal_id f) evidence (empty_tally failures) in
      ty_failures t
      \<union> (if (\<exists>v \<in> set (ve_verifiers (fe_envelope f)). gv_id v \<notin> ty_verifiers t)
         then {MissingVerifierEvidence} else {})
      \<union> (if (\<exists>a \<in> required_ids f. a \<notin> ty_artifacts t) then {MissingArtifactEvidence} else {}))"

definition receipt_for ::
    "goal_env \<Rightarrow> uuid \<Rightarrow> frozen_envelope \<Rightarrow> completion_evidence list \<Rightarrow> completion_receipt" where
  "receipt_for env goal_id f evidence =
     (let fingerprints = sorted_set (map ce_source_fingerprint evidence) in
      \<lparr>cr_version = GOAL_COMPLETION_SCHEMA_VERSION, cr_goal_id = goal_id,
       cr_revision = fe_revision f, cr_frozen_fingerprint = fe_fingerprint f,
       cr_evidence_fingerprints = fingerprints,
       cr_fingerprint = domain_hash env COMPLETION_RECEIPT_DOMAIN
         (ge_receipt_json env GOAL_COMPLETION_SCHEMA_VERSION goal_id (fe_revision f) (fe_fingerprint f)
            fingerprints)\<rparr>)"

definition completion_projection ::
    "goal_env \<Rightarrow> goal_projection \<Rightarrow> completion_evidence list \<Rightarrow> goal_completion res" where
  "completion_projection env j evidence =
     bind_res (ok_or (goal_frozen (gj_state j)) ''goal_not_frozen'') (\<lambda>f.
       if length evidence > MAX_COMPLETION_EVIDENCE then Inl ''goal_completion_evidence_limit''
       else
         let u = unique_evidence evidence ({}, []);
             kept = sort_key ce_evidence_id (snd u);
             failures = completion_failures (gj_goal_id j) f (fst u) kept;
             status = (if failures = {} then Complete else VerificationBlocked) in
         Inr \<lparr>cj_schema_version = GOAL_COMPLETION_SCHEMA_VERSION, cj_goal_id = gj_goal_id j,
              cj_revision = fe_revision f, cj_frozen_fingerprint = fe_fingerprint f,
              cj_status = status, cj_failure_codes = filter (\<lambda>c. c \<in> failures) completion_codes,
              cj_evidence = kept,
              cj_receipt = (if status = Complete then Some (receipt_for env (gj_goal_id j) f kept)
                            else None)\<rparr>)"

definition validate_against ::
    "goal_env \<Rightarrow> goal_completion \<Rightarrow> goal_projection \<Rightarrow> unit res" where
  "validate_against env c j =
     (if cj_schema_version c \<noteq> GOAL_COMPLETION_SCHEMA_VERSION \<or> cj_goal_id c \<noteq> gj_goal_id j
      then Inl ''goal_completion_projection_invalid''
      else bind_res (completion_projection env j (cj_evidence c)) (\<lambda>recomputed.
        if recomputed \<noteq> c then Inl ''goal_completion_projection_invalid'' else Inr ()))"

section \<open>The view for the user interface\<close>

fun ui_status_of :: "lifecycle_status \<Rightarrow> completion_status option \<Rightarrow> ui_status" where
  "ui_status_of _ (Some Complete) = UiComplete"
| "ui_status_of _ (Some VerificationBlocked) = UiVerificationBlocked"
| "ui_status_of StatusProposalReceived None = UiProposed"
| "ui_status_of StatusValidationBlocked None = UiBlocked"
| "ui_status_of StatusValidated None = UiValidated"
| "ui_status_of StatusFrozen None = UiFrozen"

section \<open>What complete evidence is\<close>

text \<open>
  A receipt that counts: about this goal, revision and frozen envelope, well formed, bound to
  one of the frozen verifiers with its condition and evidence kind, passed, and naming only
  required artifacts.
\<close>

definition good_evidence :: "uuid \<Rightarrow> frozen_envelope \<Rightarrow> completion_evidence \<Rightarrow> bool" where
  "good_evidence goal_id f r \<longleftrightarrow>
     ce_goal_id r = goal_id \<and> ce_revision r = fe_revision f \<and>
     ce_frozen_fingerprint r = fe_fingerprint f \<and> well_formed_evidence r \<and>
     ce_status r = EvidencePassed \<and> set (ce_artifact_ids r) \<subseteq> required_ids f \<and>
     (\<exists>v. verifier_by_id f (ce_verifier_id r) = Some v \<and> ce_done_when_id r = gv_done_when_id v \<and>
        ce_evidence_kind r = gv_evidence_kind v)"

text \<open>
  The specification of completeness, on the set of receipts: all of them count, no two share an
  identifier or a verifier, every frozen verifier has one and every required artifact is named.
\<close>

definition complete_evidence :: "uuid \<Rightarrow> frozen_envelope \<Rightarrow> completion_evidence set \<Rightarrow> bool" where
  "complete_evidence goal_id f E \<longleftrightarrow>
     (\<forall>r \<in> E. good_evidence goal_id f r) \<and> inj_on ce_evidence_id E \<and> inj_on ce_verifier_id E \<and>
     gv_id ` set (ve_verifiers (fe_envelope f)) \<subseteq> ce_verifier_id ` E \<and>
     required_ids f \<subseteq> (\<Union>r \<in> E. set (ce_artifact_ids r))"

lemma mismatches_empty: "mismatches g f r = {} \<longleftrightarrow>
    ce_goal_id r = g \<and> ce_revision r = fe_revision f \<and> ce_frozen_fingerprint r = fe_fingerprint f"
  by (auto simp: mismatches_def)

lemma tally_step_failures:
  "ty_failures (tally_step g f r t) = {} \<longleftrightarrow>
     ty_failures t = {} \<and> good_evidence g f r \<and> ty_counts t (ce_verifier_id r) = 0"
proof (cases "well_formed_evidence r")
  case False
  then show ?thesis by (simp add: tally_step_def good_evidence_def Let_def)
next
  case True
  show ?thesis
  proof (cases "verifier_by_id f (ce_verifier_id r)")
    case None
    then show ?thesis using True by (simp add: tally_step_def good_evidence_def Let_def)
  next
    case (Some v)
    show ?thesis
      using True Some mismatches_empty [of g f r]
      by (cases "ce_status r = EvidencePassed"; cases "ty_counts t (ce_verifier_id r) = 0";
          cases "ce_done_when_id r = gv_done_when_id v \<and> ce_evidence_kind r = gv_evidence_kind v")
         (auto simp: tally_step_def good_evidence_def Let_def subset_iff)
  qed
qed

lemma tally_step_good:
  assumes "good_evidence g f r"
  shows "ty_counts (tally_step g f r t) = (ty_counts t)(ce_verifier_id r := Suc (ty_counts t (ce_verifier_id r)))"
    and "ty_verifiers (tally_step g f r t) = insert (ce_verifier_id r) (ty_verifiers t)"
    and "ty_artifacts (tally_step g f r t) = ty_artifacts t \<union> set (ce_artifact_ids r)"
proof -
  obtain v where v: "verifier_by_id f (ce_verifier_id r) = Some v"
    "ce_done_when_id r = gv_done_when_id v" "ce_evidence_kind r = gv_evidence_kind v"
    "well_formed_evidence r" "ce_status r = EvidencePassed" "set (ce_artifact_ids r) \<subseteq> required_ids f"
    using assms by (auto simp: good_evidence_def)
  then have a: "set (ce_artifact_ids r) \<inter> required_ids f = set (ce_artifact_ids r)" by blast
  show "ty_counts (tally_step g f r t) = (ty_counts t)(ce_verifier_id r := Suc (ty_counts t (ce_verifier_id r)))"
    "ty_verifiers (tally_step g f r t) = insert (ce_verifier_id r) (ty_verifiers t)"
    "ty_artifacts (tally_step g f r t) = ty_artifacts t \<union> set (ce_artifact_ids r)"
    using v(1-5) a by (simp_all add: tally_step_def Let_def)
qed

lemma tally_clean:
  "ty_failures (fold (tally_step g f) es t) = {} \<longleftrightarrow>
     ty_failures t = {} \<and> (\<forall>r \<in> set es. good_evidence g f r) \<and> distinct (map ce_verifier_id es) \<and>
     (\<forall>r \<in> set es. ty_counts t (ce_verifier_id r) = 0)"
proof (induction es arbitrary: t)
  case Nil
  then show ?case by simp
next
  case (Cons r es)
  show ?case
  proof (cases "good_evidence g f r")
    case True
    then show ?thesis
      by (auto simp: Cons.IH tally_step_failures tally_step_good image_iff split: if_splits)
  next
    case False
    then show ?thesis by (simp add: Cons.IH tally_step_failures)
  qed
qed

lemma tally_sets:
  "\<forall>r \<in> set es. good_evidence g f r \<Longrightarrow>
     ty_verifiers (fold (tally_step g f) es t) = ty_verifiers t \<union> ce_verifier_id ` set es \<and>
     ty_artifacts (fold (tally_step g f) es t) = ty_artifacts t \<union> (\<Union>r \<in> set es. set (ce_artifact_ids r))"
  by (induction es arbitrary: t) (auto simp: tally_step_good)

lemma completion_failures_empty:
  "completion_failures g f F es = {} \<longleftrightarrow>
     F = {} \<and> (\<forall>r \<in> set es. good_evidence g f r) \<and> distinct (map ce_verifier_id es) \<and>
     gv_id ` set (ve_verifiers (fe_envelope f)) \<subseteq> ce_verifier_id ` set es \<and>
     required_ids f \<subseteq> (\<Union>r \<in> set es. set (ce_artifact_ids r))"
proof (cases "F = {} \<and> (\<forall>r \<in> set es. good_evidence g f r) \<and> distinct (map ce_verifier_id es)")
  case True
  then have "ty_failures (fold (tally_step g f) es (empty_tally F)) = {}"
    by (simp add: tally_clean empty_tally_def)
  then show ?thesis using True tally_sets [of es g f "empty_tally F"]
    by (auto simp: completion_failures_def Let_def empty_tally_def)
next
  case False
  then have "ty_failures (fold (tally_step g f) es (empty_tally F)) \<noteq> {}"
    by (auto simp: tally_clean empty_tally_def)
  then show ?thesis using False by (auto simp: completion_failures_def Let_def)
qed

lemma unique_evidence_spec:
  assumes "unique_evidence rs (F, K) = (F', K')" and "distinct (map ce_evidence_id K)"
  shows "distinct (map ce_evidence_id K') \<and> set K \<subseteq> set K' \<and> set K' \<subseteq> set K \<union> set rs \<and>
     (F' = {} \<longleftrightarrow> F = {} \<and> set rs \<subseteq> set K')"
  using assms
proof (induction rs arbitrary: F K)
  case Nil
  then show ?case by simp
next
  case (Cons r rs)
  show ?case
  proof (cases "row_of ce_evidence_id K (ce_evidence_id r)")
    case None
    then have "distinct (map ce_evidence_id (K @ [r]))"
      using Cons.prems(2) by (auto simp: row_of_None_iff)
    moreover have "unique_evidence rs (F, K @ [r]) = (F', K')" using Cons.prems(1) None by simp
    ultimately have "distinct (map ce_evidence_id K') \<and> set (K @ [r]) \<subseteq> set K' \<and>
        set K' \<subseteq> set (K @ [r]) \<union> set rs \<and> (F' = {} \<longleftrightarrow> F = {} \<and> set rs \<subseteq> set K')"
      by (intro Cons.IH)
    then show ?thesis by auto
  next
    case (Some old)
    then have old: "old \<in> set K" "ce_evidence_id old = ce_evidence_id r"
      by (auto dest: row_of_SomeD)
    have ih: "distinct (map ce_evidence_id K') \<and> set K \<subseteq> set K' \<and> set K' \<subseteq> set K \<union> set rs \<and>
        (F' = {} \<longleftrightarrow> (if old \<noteq> r then insert DuplicateEvidence F else F) = {} \<and> set rs \<subseteq> set K')"
      using Cons.IH [of "if old \<noteq> r then insert DuplicateEvidence F else F" K] Cons.prems Some by simp
    have "old \<in> set K'" using ih old(1) by blast
    moreover have "inj_on ce_evidence_id (set K')" using ih by (simp add: distinct_map)
    ultimately have "r \<in> set K' \<longleftrightarrow> old = r" using old(2) by (metis inj_onD)
    then show ?thesis using ih by (cases "old = r") auto
  qed
qed

lemma unique_evidence_consistent:
  assumes "inj_on ce_evidence_id (set rs)" and "unique_evidence rs ({}, []) = (F', K')"
  shows "F' = {} \<and> set K' = set rs \<and> distinct (map ce_evidence_id K')"
proof -
  have gen: "F' = {}" if "unique_evidence rs ({}, K) = (F', K')" "inj_on ce_evidence_id (set K \<union> set rs)"
    for rs K
    using that
  proof (induction rs arbitrary: K)
    case Nil
    then show ?case by simp
  next
    case (Cons r rs)
    show ?case
    proof (cases "row_of ce_evidence_id K (ce_evidence_id r)")
      case None
      then show ?thesis using Cons by simp
    next
      case (Some old)
      then have "old = r" using Cons.prems(2) by (auto simp: inj_on_def dest!: row_of_SomeD)
      then show ?thesis using Cons Some by (auto intro: inj_on_subset)
    qed
  qed
  then have "F' = {}" using assms by simp
  then show ?thesis using unique_evidence_spec [OF assms(2)] by auto
qed

lemma unique_evidence_clean:
  assumes "unique_evidence rs ({}, []) = ({}, K)"
  shows "set K = set rs" "inj_on ce_evidence_id (set rs)"
  using unique_evidence_spec [OF assms] by (auto simp: distinct_map)

lemma completion_projection_Inr:
  assumes "completion_projection env j evidence = Inr c"
  obtains f F K where "goal_frozen (gj_state j) = Some f" "length evidence \<le> MAX_COMPLETION_EVIDENCE"
    "unique_evidence evidence ({}, []) = (F, K)"
    "cj_evidence c = sort_key ce_evidence_id K" "cj_goal_id c = gj_goal_id j"
    "cj_revision c = fe_revision f" "cj_frozen_fingerprint c = fe_fingerprint f"
    "cj_schema_version c = GOAL_COMPLETION_SCHEMA_VERSION"
    "cj_status c = (if completion_failures (gj_goal_id j) f F (sort_key ce_evidence_id K) = {}
       then Complete else VerificationBlocked)"
    "cj_failure_codes c =
       filter (\<lambda>x. x \<in> completion_failures (gj_goal_id j) f F (sort_key ce_evidence_id K)) completion_codes"
    "cj_receipt c = (if cj_status c = Complete
       then Some (receipt_for env (gj_goal_id j) f (sort_key ce_evidence_id K)) else None)"
proof -
  obtain f where f: "goal_frozen (gj_state j) = Some f" "length evidence \<le> MAX_COMPLETION_EVIDENCE"
    using assms by (auto simp: completion_projection_def bind_res_Inr_iff ok_or_Inr_iff split: if_splits)
  obtain F K where u: "unique_evidence evidence ({}, []) = (F, K)" by fastforce
  have c: "c = \<lparr>cj_schema_version = GOAL_COMPLETION_SCHEMA_VERSION, cj_goal_id = gj_goal_id j,
      cj_revision = fe_revision f, cj_frozen_fingerprint = fe_fingerprint f,
      cj_status = (if completion_failures (gj_goal_id j) f F (sort_key ce_evidence_id K) = {}
        then Complete else VerificationBlocked),
      cj_failure_codes =
        filter (\<lambda>x. x \<in> completion_failures (gj_goal_id j) f F (sort_key ce_evidence_id K)) completion_codes,
      cj_evidence = sort_key ce_evidence_id K,
      cj_receipt = (if (if completion_failures (gj_goal_id j) f F (sort_key ce_evidence_id K) = {}
          then Complete else VerificationBlocked) = Complete
        then Some (receipt_for env (gj_goal_id j) f (sort_key ce_evidence_id K)) else None)\<rparr>"
    using assms f(2) unfolding completion_projection_def Let_def u f(1) fst_conv snd_conv
    by (simp only: option_tests bind_res_simps not_less [symmetric] if_False sum.inject)
  show thesis
    by (rule that [OF f u]) (simp_all only: c goal_completion.select_convs)
qed

lemma completion_status_iff:
  assumes "completion_projection env j evidence = Inr c" and "goal_frozen (gj_state j) = Some f"
  shows "cj_status c = Complete \<longleftrightarrow> complete_evidence (gj_goal_id j) f (set evidence)"
proof -
  obtain F K where u: "unique_evidence evidence ({}, []) = (F, K)"
    and st: "cj_status c = (if completion_failures (gj_goal_id j) f F (sort_key ce_evidence_id K) = {}
       then Complete else VerificationBlocked)"
    using completion_projection_Inr [OF assms(1)] assms(2) by (metis option.inject)
  have dist: "distinct (map ce_evidence_id K)" using unique_evidence_spec [OF u] by simp
  have dv: "distinct (map ce_verifier_id (sort_key ce_evidence_id K)) \<longleftrightarrow> inj_on ce_verifier_id (set K)"
    using dist by (simp add: distinct_map)
  show ?thesis
  proof (cases "F = {}")
    case True
    then have "set K = set evidence" "inj_on ce_evidence_id (set evidence)"
      using unique_evidence_clean u by auto
    then show ?thesis using st True dv by (simp add: completion_failures_empty complete_evidence_def)
  next
    case False
    then have "\<not> inj_on ce_evidence_id (set evidence)"
      using unique_evidence_consistent u by blast
    then show ?thesis using st False by (simp add: completion_failures_empty complete_evidence_def)
  qed
qed

section \<open>Order and repetition of evidence do not matter\<close>

lemma sort_key_same_set:
  assumes "distinct (map key xs)" and "distinct (map key ys)" and "set xs = set ys"
  shows "sort_key key xs = sort_key key ys"
proof -
  have "distinct xs" "distinct ys" using assms(1,2) distinct_map by blast+
  then have "mset xs = mset (sort_key key ys)" using assms(3) by (simp add: set_eq_iff_mset_eq_distinct)
  moreover have "inj_on key (set xs)" using assms(1) by (simp add: distinct_map)
  ultimately show ?thesis by (intro sort_key_inj_key_eq) simp_all
qed

lemma completion_projection_set:
  assumes "set ev = set ev'" and "inj_on ce_evidence_id (set ev)"
    and "length ev \<le> MAX_COMPLETION_EVIDENCE" and "length ev' \<le> MAX_COMPLETION_EVIDENCE"
  shows "completion_projection env j ev = completion_projection env j ev'"
proof -
  obtain F K F' K' where u: "unique_evidence ev ({}, []) = (F, K)" "unique_evidence ev' ({}, []) = (F', K')"
    by fastforce
  have k: "F = {}" "set K = set ev" "distinct (map ce_evidence_id K)"
    using unique_evidence_consistent [OF assms(2) u(1)] by auto
  have k': "F' = {}" "set K' = set ev" "distinct (map ce_evidence_id K')"
    using unique_evidence_consistent [OF _ u(2)] assms(1,2) by auto
  have "sort_key ce_evidence_id K = sort_key ce_evidence_id K'"
    by (rule sort_key_same_set) (simp_all add: k k')
  then show ?thesis
    using assms(3,4) unfolding completion_projection_def Let_def u fst_conv snd_conv k(1) k'(1)
    by (cases "goal_frozen (gj_state j)") (simp_all only: option_tests bind_res_simps not_less [symmetric])
qed

lemma complete_evidence_mono:
  "complete_evidence g f E' \<Longrightarrow> r \<in> E \<Longrightarrow> E \<subseteq> E' \<Longrightarrow>
     good_evidence g f r \<and> (\<forall>s \<in> E. ce_verifier_id s = ce_verifier_id r \<longrightarrow> s = r)"
  unfolding complete_evidence_def by (meson inj_onD subsetD)

section \<open>What validation establishes\<close>

lemma disposition_blocked:
  "vt_disposition (validation_receipt_for env catalog ctx p) = DispositionBlocked
     \<longleftrightarrow> validation_failures catalog ctx p \<noteq> {}"
  by (simp add: validation_receipt_for_def Let_def)

definition validated_state ::
    "goal_env \<Rightarrow> tool_contract list \<Rightarrow> validation_context \<Rightarrow> goal_proposal \<Rightarrow> goal_state" where
  "validated_state env catalog ctx p =
     (let receipt = validation_receipt_for env catalog ctx p; fp = proposal_fingerprint env p in
      if validation_failures catalog ctx p \<noteq> {} then GoalValidationBlocked fp receipt
      else let e = normalized_envelope p (vt_target_bindings receipt) (vt_capabilities receipt) in
        GoalValidated fp (revision_for env fp e receipt) e receipt)"

lemma validated_projection_Inr:
  assumes "validated_projection env catalog goal_id p ctx = Inr j"
  shows "proposal_validate (ge_proposal_json env) p = Inr ()" "gj_goal_id j = goal_id"
    "gj_schema_version j = GOAL_LIFECYCLE_SCHEMA_VERSION"
    "gj_state j = validated_state env catalog ctx p"
proof -
  show v: "proposal_validate (ge_proposal_json env) p = Inr ()"
    using assms by (auto simp: validated_projection_def bind_res_Inr_iff)
  have "j = \<lparr>gj_schema_version = GOAL_LIFECYCLE_SCHEMA_VERSION, gj_goal_id = goal_id,
      gj_state = validated_state env catalog ctx p\<rparr>"
    using assms unfolding validated_projection_def validated_state_def Let_def disposition_blocked v
    by (simp only: bind_res_simps sum.inject)
  then show "gj_goal_id j = goal_id" "gj_schema_version j = GOAL_LIFECYCLE_SCHEMA_VERSION"
    "gj_state j = validated_state env catalog ctx p" by simp_all
qed

lemma filter_all_codes: "filter (\<lambda>c. c \<in> F) validation_codes = [] \<longleftrightarrow> F = {}"
proof
  assume a: "filter (\<lambda>c. c \<in> F) validation_codes = []"
  have "c \<in> set validation_codes" for c by (cases c) (simp_all add: validation_codes_def)
  then show "F = {}" using a by (auto simp: filter_empty_conv)
qed simp

lemma no_failures:
  assumes "validation_failures catalog ctx p = {}"
  shows "\<not> proposal_contains_sensitive_local_reference p"
    "t \<in> set (gp_proposed_capabilities p) \<Longrightarrow>
       \<exists>c. find (\<lambda>c. tc_id c = t) catalog = Some c \<and> validate_capability c ctx = {}"
    "x \<in> set (gp_external_targets p) \<Longrightarrow> fst (target_result ctx x) = {}"
    "v \<in> set (gp_verifiers p) \<Longrightarrow> gv_evidence_kind v \<in> vc_verifier_kinds ctx"
proof -
  show "\<not> proposal_contains_sensitive_local_reference p"
    "x \<in> set (gp_external_targets p) \<Longrightarrow> fst (target_result ctx x) = {}"
    "v \<in> set (gp_verifiers p) \<Longrightarrow> gv_evidence_kind v \<in> vc_verifier_kinds ctx"
    using assms by (auto simp: validation_failures_def validate_targets_def Let_def split: if_splits)
  assume t: "t \<in> set (gp_proposed_capabilities p)"
  have "(case find (\<lambda>c. tc_id c = t) catalog of None \<Rightarrow> {UnknownCapability}
      | Some c \<Rightarrow> validate_capability c ctx) = {}"
    using assms t by (auto simp: validation_failures_def validate_tools_def Let_def)
  then show "\<exists>c. find (\<lambda>c. tc_id c = t) catalog = Some c \<and> validate_capability c ctx = {}"
    by (cases "find (\<lambda>c. tc_id c = t) catalog") auto
qed

lemma validate_capability_empty:
  "validate_capability c ctx = {} \<longleftrightarrow>
     tc_id c \<in> vc_enabled_tools ctx \<and> tc_id c \<in> vc_ready_tools ctx \<and>
     risk_rank (tc_risk_level c) \<le> risk_rank (vc_max_risk ctx) \<and>
     tc_risk_level c = capability_risk (tc_capability c) \<and>
     (tc_path_scope c = ScopeWorkspace \<longrightarrow> vc_workspace ctx = WorkspaceReady) \<and>
     (effect_class_of c = EffectLocalMutation \<longrightarrow> vc_allow_local_effects ctx) \<and>
     (effect_class_of c = EffectExternalMutation \<longrightarrow> vc_allow_external_effects ctx) \<and>
     (decide (vc_access_mode ctx) (tc_capability c) = Ask \<longrightarrow> tc_id c \<in> vc_approval_routes ctx)"
  by (auto simp: validate_capability_def)

section \<open>A validated proposal passes the check of stored goals\<close>

lemma adjacent_sorted_wrt: "sorted_wrt r xs \<Longrightarrow> adjacent r xs"
  by (induction r xs rule: adjacent.induct) auto

lemma adjacent_sort_key:
  assumes "distinct (map key xs)"
  shows "adjacent (\<lambda>a b. key a < (key b :: string)) (sort_key key xs)"
proof (rule adjacent_sorted_wrt)
  have "distinct (map key (sort_key key xs))" using assms by (simp add: distinct_map)
  moreover have "sorted (map key (sort_key key xs))" by simp
  ultimately have "sorted_wrt (<) (map key (sort_key key xs))" by (simp add: strict_sorted_iff)
  then show "sorted_wrt (\<lambda>a b. key a < key b) (sort_key key xs)" by (simp add: sorted_wrt_map)
qed

lemma adjacent_sort: "distinct xs \<Longrightarrow> adjacent (<) (sort (xs :: string list))"
  using adjacent_sort_key [of "\<lambda>x. x" xs] by simp

lemma hex_digit_lower: "n < 16 \<Longrightarrow> lower_hex (hex_digit n)"
  by (auto simp: hex_digit_def lower_hex_def is_digit_def code_def of_char_of)

lemma hex_text_valid: "length s = 32 \<Longrightarrow> valid_hash (hex_text s)"
proof -
  assume l: "length s = 32"
  have "length (hex_text s) = 2 * length s" by (induction s) (simp_all add: hex_text_def)
  moreover have "code c < 256" for c :: char by (simp add: code_def)
  then have "list_all lower_hex (hex_text s)"
    by (induction s) (auto simp: hex_text_def list_all_iff intro!: hex_digit_lower less_mult_imp_div_less)
  ultimately show ?thesis using l by (simp add: valid_hash_def)
qed

lemma domain_hash_valid: "\<forall>x. length (ge_sha_raw env x) = 32 \<Longrightarrow> valid_hash (domain_hash env d v)"
  by (simp add: domain_hash_def hex_text_valid)

lemma secret_free_text:
  "goal_text s n = Inr () \<Longrightarrow> \<not> contains_sensitive_local_reference s \<Longrightarrow> stored_value_is_secret_free s"
  "goal_id_text s = Inr () \<Longrightarrow> \<not> contains_sensitive_local_reference s \<Longrightarrow> stored_value_is_secret_free s"
  by (auto simp: goal_text_def goal_id_text_def stored_value_is_secret_free_def split: if_splits)

lemma capability_names_secret_free: "stored_value_is_secret_free (capability_as_str c)"
  by (cases c; simp only: capability_as_str.simps; code_simp)

end
