(* ===== verification/Goal_Safety.thy ===== *)
theory Goal_Safety
  imports Goal_Lifecycle
begin

text \<open>
  The correctness properties of goal envelopes: what a valid proposal is, what validation and
  freezing establish, and when the evidence of tool invocations completes a goal.
\<close>

lemma check_parts:
  "check_done_when d = Inr () \<longleftrightarrow>
     goal_id_text (dw_id d) = Inr () \<and> goal_text (dw_description d) MAX_TEXT_BYTES = Inr ()"
  "check_artifact a = Inr () \<longleftrightarrow>
     goal_id_text (ra_id a) = Inr () \<and> goal_text (ra_description a) MAX_TEXT_BYTES = Inr ()"
  "check_target t = Inr () \<longleftrightarrow>
     goal_id_text (et_id t) = Inr () \<and> goal_text (et_description t) MAX_TEXT_BYTES = Inr ()"
  by (simp_all add: check_done_when_def check_artifact_def check_target_def bind_res_Inr_iff)

lemma text_list_Inr:
  assumes "validate_text_list xs n = Inr ()"
  shows "distinct xs" "x \<in> set xs \<Longrightarrow> goal_text x MAX_TEXT_BYTES = Inr ()"
  using assms unique_loop_Inr by (fastforce simp: validate_text_list_def split: if_splits)+

lemma list_bounds:
  "validate_text_list xs n = Inr () \<Longrightarrow> length xs \<le> n" "validate_id_list xs n = Inr () \<Longrightarrow> length xs \<le> n"
  by (simp_all add: validate_text_list_def validate_id_list_def split: if_splits)

lemma id_list_Inr:
  assumes "validate_id_list xs n = Inr ()"
  shows "distinct xs" "x \<in> set xs \<Longrightarrow> goal_id_text x = Inr ()"
  using assms unique_loop_Inr by (fastforce simp: validate_id_list_def split: if_splits)+

text \<open>Every text of a valid proposal went through one of the two checks of a text.\<close>

lemma proposal_text_checked:
  assumes "proposal_validate js p = Inr ()" and "s \<in> set (proposal_texts p)"
  shows "(\<exists>n. goal_text s n = Inr ()) \<or> goal_id_text s = Inr ()"
proof -
  note v = proposal_validate_Inr [OF assms(1)]
  note d = unique_loop_Inr [OF v(7)] and a = unique_loop_Inr [OF v(9)] and t = unique_loop_Inr [OF v(15)]
  note w = verifier_loop_Inr [OF v(12)]
  show ?thesis
    using assms(2) v(1) d a t w text_list_Inr(2) [OF v(2)] text_list_Inr(2) [OF v(3)]
      text_list_Inr(2) [OF v(4)] id_list_Inr(2) [OF v(14)]
    by (auto simp: proposal_texts_def verifier_texts_def check_parts) 
qed

lemma valid_proposal_parts:
  assumes "proposal_validate js p = Inr ()"
  shows "gv_done_when_id ` set (gp_verifiers p) = dw_id ` set (gp_done_when p)"
    "distinct (map gv_id (gp_verifiers p))"
proof -
  note v = proposal_validate_Inr [OF assms]
  note w = verifier_loop_Inr [OF v(12)]
  show "gv_done_when_id ` set (gp_verifiers p) = dw_id ` set (gp_done_when p)"
    using v(13) w by (intro subset_antisym) auto
  show "distinct (map gv_id (gp_verifiers p))" using w by simp
qed

text \<open>
  C37: A proposal that passes validation is well formed as a contract: its identifiers are unique
  per collection, every verifier is bound to a condition of the proposal and every condition has
  a verifier, there is a condition and a verifier, the verifiers are at most 64 and every other
  collection at most 32, its JSON text is at most 64 KiB, and no text of it looks like a secret.
\<close>

theorem valid_proposal_is_contract:
  assumes "proposal_validate js p = Inr ()"
  shows "distinct (map dw_id (gp_done_when p)) \<and> distinct (map gv_id (gp_verifiers p)) \<and>
     distinct (map ra_id (gp_required_artifacts p)) \<and> distinct (map et_id (gp_external_targets p)) \<and>
     distinct (gp_proposed_capabilities p) \<and>
     gv_done_when_id ` set (gp_verifiers p) = dw_id ` set (gp_done_when p) \<and>
     1 \<le> length (gp_done_when p) \<and> length (gp_done_when p) \<le> 32 \<and>
     1 \<le> length (gp_verifiers p) \<and> length (gp_verifiers p) \<le> 64 \<and>
     length (gp_assumptions p) \<le> 32 \<and> length (gp_constraints p) \<le> 32 \<and> length (gp_stop_conditions p) \<le> 32 \<and>
     length (gp_required_artifacts p) \<le> 32 \<and> length (gp_proposed_capabilities p) \<le> 32 \<and>
     length (gp_external_targets p) \<le> 32 \<and> length (js p) \<le> 65536 \<and>
     list_all (\<lambda>s. s \<noteq> [] \<and> \<not> contains_secret_like_content s) (proposal_texts p)"
proof -
  note v = proposal_validate_Inr [OF assms]
  have "s \<noteq> [] \<and> \<not> contains_secret_like_content s" if s: "s \<in> set (proposal_texts p)" for s
    using proposal_text_checked [OF assms s]
    by (auto simp: goal_text_def goal_id_text_def split: if_splits)
  moreover note valid_proposal_parts(1) [OF assms]
  ultimately show ?thesis
    using v unique_loop_Inr [OF v(7)] unique_loop_Inr [OF v(9)] unique_loop_Inr [OF v(15)]
      verifier_loop_Inr [OF v(12)] id_list_Inr(1) [OF v(14)]
      list_bounds(1) [OF v(2)] list_bounds(1) [OF v(3)] list_bounds(1) [OF v(4)] list_bounds(2) [OF v(14)]
      proposal_targets_bound [OF assms]
    by (simp add: list_all_iff MAX_LIST_ITEMS_def MAX_VERIFIERS_def MAX_JSON_BYTES_def Suc_le_eq)
qed

section \<open>Storing and reading back\<close>

lemma adjacent_filter:
  "sorted_wrt r xs \<Longrightarrow> adjacent r (filter P xs)"
  by (rule adjacent_sorted_wrt) (rule sorted_wrt_filter)

lemma failure_codes_in_order: "sorted_wrt (\<lambda>a b. code_rank a < code_rank b) validation_codes"
  by (simp add: validation_codes_def)

lemma sorted_set_strict: "sorted_wrt (<) (sorted_set xs)"
  by (simp add: sorted_set_def strict_sorted_iff)

lemma set_sorted_set [simp]: "set (sorted_set xs) = set xs"
  by (simp add: sorted_set_def)

lemma sorted_set_cong: "set xs = set ys \<Longrightarrow> sorted_set xs = sorted_set ys"
  by (simp add: sorted_set_def sorted_list_of_set_sort_remdups [symmetric])

lemma found_ids:
  "map cv_tool_id (List.map_filter (map_option (\<lambda>c. capability_validation_of c ctx))
      (map (\<lambda>i. find (\<lambda>c. tc_id c = i) catalog) ids)) = filter (\<lambda>i. i \<in> tc_id ` set catalog) ids"
proof (induction ids)
  case Nil
  then show ?case by (simp add: List.map_filter_def)
next
  case (Cons i ids)
  show ?case
  proof (cases "find (\<lambda>c. tc_id c = i) catalog")
    case None
    then have "i \<notin> tc_id ` set catalog" by (auto simp: find_None_iff)
    then show ?thesis using None Cons by (simp add: map_filter_simps)
  next
    case (Some c)
    then have "tc_id c = i" "i \<in> tc_id ` set catalog" by (auto simp: find_Some_iff)
    then show ?thesis using Some Cons by (simp add: map_filter_simps capability_validation_of_def)
  qed
qed

lemma bound_ids:
  "set (List.map_filter snd (map (target_result ctx) ts)) =
     {b. \<exists>t \<in> set ts. snd (target_result ctx t) = Some b}"
  by (induction ts) (auto simp: List.map_filter_def split: option.splits)

lemma bound_target_ok:
  assumes "snd (target_result ctx t) = Some b"
  shows "bt_target_id b = et_id t" "valid_hash (bt_authority_fingerprint b)"
    "\<not> contains_sensitive_local_reference (et_id t)"
  using assms by (auto simp: target_result_def split: option.splits if_splits)

lemma bound_ids_distinct:
  "distinct (map et_id ts) \<Longrightarrow> distinct (map bt_target_id (List.map_filter snd (map (target_result ctx) ts)))"
proof (induction ts)
  case Nil
  then show ?case by (simp add: List.map_filter_def)
next
  case (Cons t ts)
  have "bt_target_id b \<noteq> et_id t"
    if b: "b \<in> set (List.map_filter snd (map (target_result ctx) ts))" for b
  proof -
    obtain u where u: "u \<in> set ts" "snd (target_result ctx u) = Some b"
      using b unfolding bound_ids by blast
    have "et_id u \<in> et_id ` set ts" using u(1) by (rule imageI)
    then show ?thesis using Cons.prems bound_target_ok(1) [OF u(2)] by auto
  qed
  then show ?case using Cons
    by (cases "snd (target_result ctx t)")
       (auto simp: map_filter_simps image_iff dest!: bound_target_ok(1))
qed

lemma capability_rows:
  assumes "c \<in> set (snd (validate_tools catalog ctx ids))"
  shows "cv_tool_id c \<in> set ids" "cv_tool_id c \<in> tc_id ` set catalog"
    "\<exists>k. cv_capability c = capability_as_str k"
proof -
  let ?rows = "List.map_filter (map_option (\<lambda>c. capability_validation_of c ctx))
      (map (\<lambda>i. find (\<lambda>c. tc_id c = i) catalog) ids)"
  have c: "c \<in> set ?rows" using assms by (simp add: validate_tools_def Let_def)
  then have "cv_tool_id c \<in> set (map cv_tool_id ?rows)" by simp
  then show "cv_tool_id c \<in> set ids" "cv_tool_id c \<in> tc_id ` set catalog"
    unfolding found_ids by auto
  show "\<exists>k. cv_capability c = capability_as_str k"
    using c by (auto simp: List.map_filter_def capability_validation_of_def)
qed

lemma target_rows:
  "b \<in> set (snd (validate_targets ctx ts)) \<Longrightarrow> \<exists>t \<in> set ts. snd (target_result ctx t) = Some b"
  by (auto simp: validate_targets_def Let_def bound_ids)

lemma receipt_stored:
  assumes v: "proposal_validate (ge_proposal_json env) p = Inr ()"
    and sha: "\<forall>x. length (ge_sha_raw env x) = 32"
    and names: "\<forall>c \<in> set catalog. \<not> contains_sensitive_local_reference (tc_id c)"
  shows "receipt_is_secret_free (validation_receipt_for env catalog ctx p)"
proof -
  note pv = proposal_validate_Inr [OF v]
  let ?t = "snd (validate_tools catalog ctx (gp_proposed_capabilities p))"
  let ?b = "snd (validate_targets ctx (gp_external_targets p))"
  let ?k = "filter (\<lambda>k. \<not> contains_sensitive_local_reference k)
    (sorted_set (map gv_evidence_kind (gp_verifiers p)))"
  have t: "adjacent (\<lambda>a b. cv_tool_id a < cv_tool_id b) ?t"
    unfolding validate_tools_def Let_def snd_conv
    by (rule adjacent_sort_key) (simp add: found_ids id_list_Inr(1) [OF pv(14)])
  have b: "adjacent (\<lambda>a b. bt_target_id a < bt_target_id b) ?b"
    unfolding validate_targets_def Let_def snd_conv
    by (rule adjacent_sort_key, rule bound_ids_distinct) (simp add: unique_loop_Inr [OF pv(15)])
  have k: "adjacent (<) ?k" by (rule adjacent_filter, rule sorted_set_strict)
  have tool: "stored_value_is_secret_free (cv_tool_id c) \<and> stored_value_is_secret_free (cv_capability c)"
    if c: "c \<in> set ?t" for c
    using capability_rows [OF c] names id_list_Inr(2) [OF pv(14)] secret_free_text(2)
      capability_names_secret_free by fastforce
  have target: "valid_hash (bt_authority_fingerprint c) \<and> stored_value_is_secret_free (bt_target_id c)"
    if c: "c \<in> set ?b" for c
  proof -
    obtain u where u: "u \<in> set (gp_external_targets p)" "snd (target_result ctx u) = Some c"
      using target_rows [OF c] by blast
    have "goal_id_text (et_id u) = Inr ()" using unique_loop_Inr [OF pv(15)] u(1) by (simp add: check_parts)
    then show ?thesis using bound_target_ok [OF u(2)] secret_free_text(2) by simp
  qed
  have kind: "stored_value_is_secret_free s" if s: "s \<in> set ?k" for s
    using s verifier_loop_Inr [OF pv(12)] secret_free_text(2) by auto
  show ?thesis
    unfolding receipt_is_secret_free_def validation_receipt_for_def Let_def validation_receipt.select_convs
      proposal_fingerprint_def context_fingerprint_def
    using t b k tool target kind
    by (simp add: domain_hash_valid [OF sha] adjacent_filter [OF failure_codes_in_order] list_all_iff)
qed

lemma envelope_text_of_proposal:
  "set (envelope_texts (normalized_envelope p bs cs)) \<subseteq> set (proposal_texts p)"
  by (auto simp: envelope_texts_def normalized_envelope_def proposal_texts_def)

lemma envelope_stored:
  assumes v: "proposal_validate (ge_proposal_json env) p = Inr ()"
    and clean: "\<not> proposal_contains_sensitive_local_reference p"
    and size: "length (ge_envelope_json env e) \<le> MAX_PERSISTED_ENVELOPE_BYTES"
    and e: "e = normalized_envelope p (vt_target_bindings r) (vt_capabilities r)"
    and r: "r = validation_receipt_for env catalog ctx p"
  shows "validated_envelope_is_secret_free env e r"
proof -
  note pv = proposal_validate_Inr [OF v]
  have texts: "stored_value_is_secret_free s" if s: "s \<in> set (envelope_texts e)" for s
  proof -
    have m: "s \<in> set (proposal_texts p)" using s envelope_text_of_proposal unfolding e by blast
    then have "\<not> contains_sensitive_local_reference s"
      using clean by (auto simp: proposal_contains_sensitive_local_reference_def list_ex_iff)
    then show ?thesis using proposal_text_checked [OF v m] secret_free_text by blast
  qed
  have "\<not> contains_sensitive_local_reference k" if k: "k \<in> gv_evidence_kind ` set (gp_verifiers p)" for k
  proof -
    have "k \<in> set (proposal_texts p)" using k by (auto simp: proposal_texts_def verifier_texts_def)
    then show ?thesis using clean by (auto simp: proposal_contains_sensitive_local_reference_def list_ex_iff)
  qed
  then have "vt_verifier_kinds r = sorted_set (map gv_evidence_kind (gp_verifiers p))"
    by (simp add: r validation_receipt_for_def Let_def filter_id_conv)
  then have kinds: "sorted_set (map gv_evidence_kind (ve_verifiers e)) = vt_verifier_kinds r"
    by (simp add: e normalized_envelope_def) (rule sorted_set_cong, simp)
  have order: "adjacent (<) (ve_assumptions e)" "adjacent (<) (ve_constraints e)"
    "adjacent (<) (ve_stop_conditions e)"
    "adjacent (\<lambda>a b. dw_id a < dw_id b) (ve_done_when e)"
    "adjacent (\<lambda>a b. ra_id a < ra_id b) (ve_required_artifacts e)"
    "adjacent (\<lambda>a b. gv_id a < gv_id b) (ve_verifiers e)"
    by (simp_all add: e normalized_envelope_def adjacent_sort adjacent_sort_key text_list_Inr(1) [OF pv(2)]
        text_list_Inr(1) [OF pv(3)] text_list_Inr(1) [OF pv(4)] unique_loop_Inr [OF pv(7)]
        unique_loop_Inr [OF pv(9)] verifier_loop_Inr [OF pv(12)])
  show ?thesis
    unfolding validated_envelope_is_secret_free_def
    using order kinds texts size by (simp add: list_all_iff) (simp add: e normalized_envelope_def)
qed

lemma receipt_codes:
  "vt_failure_codes (validation_receipt_for env catalog ctx p) = [] \<longleftrightarrow> validation_failures catalog ctx p = {}"
  "vt_disposition (validation_receipt_for env catalog ctx p) =
     (if validation_failures catalog ctx p = {} then DispositionValidated else DispositionBlocked)"
  "vt_proposal_fingerprint (validation_receipt_for env catalog ctx p) = proposal_fingerprint env p"
  by (simp_all add: validation_receipt_for_def Let_def filter_all_codes del: filter_empty_conv)

text \<open>
  C36: What validation produces can be stored: if the tool names of the catalog are free of local
  references, the digest has 32 bytes and the JSON of the envelope is within its 64 KiB, the projection of a valid proposal, blocked or
  validated, passes the check that guards every write and every read of the store.
\<close>

theorem validated_goal_can_be_stored:
  assumes "validated_projection env catalog goal_id p ctx = Inr j"
    and "\<forall>x. length (ge_sha_raw env x) = 32"
    and "\<forall>c \<in> set catalog. \<not> contains_sensitive_local_reference (tc_id c)"
    and "\<forall>fp rev e r. gj_state j = GoalValidated fp rev e r \<longrightarrow>
           length (ge_envelope_json env e) \<le> MAX_PERSISTED_ENVELOPE_BYTES"
  shows "validate_persisted env j = Inr ()"
proof -
  note j = validated_projection_Inr [OF assms(1)]
  note r = receipt_stored [OF j(1) assms(2,3)]
  have fp: "valid_hash (proposal_fingerprint env p)"
    by (simp add: proposal_fingerprint_def domain_hash_valid [OF assms(2)])
  show ?thesis
  proof (cases "validation_failures catalog ctx p = {}")
    case False
    then have "gj_state j = GoalValidationBlocked (proposal_fingerprint env p) (validation_receipt_for env catalog ctx p)"
      by (simp add: j(4) validated_state_def Let_def)
    then show ?thesis using False r fp by (simp add: validate_persisted_def j(3) receipt_codes)
  next
    case True
    let ?r = "validation_receipt_for env catalog ctx p"
    let ?e = "normalized_envelope p (vt_target_bindings ?r) (vt_capabilities ?r)"
    have st: "gj_state j = GoalValidated (proposal_fingerprint env p)
        (revision_for env (proposal_fingerprint env p) ?e ?r) ?e ?r"
      using True by (simp add: j(4) validated_state_def Let_def)
    then have "validated_envelope_is_secret_free env ?e ?r"
      using envelope_stored [OF j(1) no_failures(1) [OF True] _ refl refl] assms(4) by blast
    then show ?thesis using st True r fp by (simp add: validate_persisted_def j(3) receipt_codes)
  qed
qed

text \<open>
  C22: Freezing a stored goal is safe: it needs the revision the caller has seen, it changes
  nothing of the validated contract (fingerprint of the proposal, revision, envelope, receipt),
  freezing again is the identity, and the result passes the check of stored goals.
\<close>

theorem freeze_keeps_contract:
  assumes "validate_persisted env j = Inr ()" and "frozen_projection env j expected = Inr j'"
  shows "goal_revision (gj_state j) = Some expected \<and> goal_revision (gj_state j') = Some expected \<and>
    goal_proposal_fingerprint (gj_state j') = goal_proposal_fingerprint (gj_state j) \<and>
    goal_receipt (gj_state j') = goal_receipt (gj_state j) \<and> gj_goal_id j' = gj_goal_id j \<and>
    (\<exists>f. gj_state j' = GoalFrozen f \<and> fe_fingerprint f = frozen_fingerprint env f \<and>
       (case gj_state j of GoalValidated _ _ e _ \<Rightarrow> fe_envelope f = e | GoalFrozen g \<Rightarrow> f = g | _ \<Rightarrow> False)) \<and>
    frozen_projection env j' expected = Inr j' \<and> validate_persisted env j' = Inr ()"
  using assms by (cases "gj_state j")
    (auto simp: frozen_projection_def validate_persisted_def frozen_fingerprint_def Let_def
       split: if_splits)

section \<open>What validation allows\<close>


section \<open>Completion\<close>

text \<open>
  C3: The two loops of the completion check decide exactly the specification of complete evidence,
  and exactly then the projection has no failure code and carries a receipt.
\<close>

theorem completion_decides_specification:
  assumes "completion_projection env j evidence = Inr c" and "goal_frozen (gj_state j) = Some f"
  shows "(cj_status c = Complete \<longleftrightarrow> complete_evidence (gj_goal_id j) f (set evidence)) \<and>
    (cj_failure_codes c = [] \<longleftrightarrow> cj_status c = Complete) \<and>
    (cj_receipt c \<noteq> None \<longleftrightarrow> cj_status c = Complete)"
proof -
  have all: "filter (\<lambda>c. c \<in> F) completion_codes = [] \<longleftrightarrow> F = {}" for F
  proof
    assume a: "filter (\<lambda>c. c \<in> F) completion_codes = []"
    have "c \<in> set completion_codes" for c by (cases c) (simp_all add: completion_codes_def)
    then show "F = {}" using a by (auto simp: filter_empty_conv)
  qed simp
  have "(cj_failure_codes c = [] \<longleftrightarrow> cj_status c = Complete) \<and> (cj_receipt c \<noteq> None \<longleftrightarrow> cj_status c = Complete)"
    by (rule completion_projection_Inr [OF assms(1)]) (simp add: all)
  then show ?thesis using completion_status_iff [OF assms] by blast
qed

text \<open>
  The order in which receipts arrive and how often each is reported do not matter: two lists of
  the same receipts give the same projection, receipt and fingerprint included.
\<close>

theorem completion_ignores_order:
  assumes "set ev = set ev'" and "inj_on ce_evidence_id (set ev)"
    and "length ev \<le> MAX_COMPLETION_EVIDENCE" and "length ev' \<le> MAX_COMPLETION_EVIDENCE"
  shows "completion_projection env j ev = completion_projection env j ev'"
  using assms by (rule completion_projection_set)

text \<open>
  Completion fails closed: a receipt that failed, is unknown or names another goal, revision or
  artifact, or a second receipt for a verifier, keeps the goal blocked whatever other receipts
  are there or arrive later.
\<close>

theorem bad_evidence_blocks:
  assumes "completion_projection env j evidence = Inr c" and "goal_frozen (gj_state j) = Some f"
    and "r \<in> set evidence"
    and "\<not> good_evidence (gj_goal_id j) f r \<or>
      (\<exists>s \<in> set evidence. s \<noteq> r \<and> ce_verifier_id s = ce_verifier_id r)"
  shows "cj_status c = VerificationBlocked \<and> cj_receipt c = None"
proof -
  have "\<not> complete_evidence (gj_goal_id j) f (set evidence)"
    using complete_evidence_mono [of _ f "set evidence" r "set evidence"] assms(3,4) by blast
  then have "cj_status c \<noteq> Complete" using completion_status_iff [OF assms(1,2)] by simp
  moreover have "cj_receipt c = (if cj_status c = Complete then cj_receipt c else None)"
    by (rule completion_projection_Inr [OF assms(1)]) simp
  ultimately show ?thesis by (cases "cj_status c") simp_all
qed

lemma evidence_kinds_mem:
  "k \<in> set (evidence_kinds v) \<Longrightarrow> \<exists>e \<in> set (ti_evidence v). trim (te_kind e) = k"
  by (auto simp: evidence_kinds_def)

lemma tool_evidence_facts:
  assumes "completion_evidence_from_tool_invocation env j v = Inr rs"
    and "goal_frozen (gj_state j) = Some f"
  shows "ti_run_id v = Some (gj_goal_id j) \<and> rs \<noteq> [] \<and>
    (\<forall>r \<in> set rs. ce_goal_id r = gj_goal_id j \<and> ce_revision r = fe_revision f \<and>
       ce_frozen_fingerprint r = fe_fingerprint f \<and> set (ce_artifact_ids r) \<subseteq> required_ids f \<and>
       (ce_status r = EvidencePassed \<longrightarrow>
          ti_status v = ToolSucceeded \<and> tv_passed (ti_verification v) \<and>
          (\<exists>w \<in> set (ve_verifiers (fe_envelope f)). ce_verifier_id r = gv_id w \<and>
             ce_done_when_id r = gv_done_when_id w \<and> ce_evidence_kind r = gv_evidence_kind w \<and>
             (\<exists>e \<in> set (ti_evidence v). trim (te_kind e) = gv_evidence_kind w))))"
proof -
  have run: "ti_run_id v = Some (gj_goal_id j)"
    using assms by (auto simp: completion_evidence_from_tool_invocation_def bind_res_Inr_iff split: if_splits)
  have passed: "ti_status v = ToolSucceeded \<and> tv_passed (ti_verification v) \<and>
      (\<exists>w \<in> set (ve_verifiers (fe_envelope f)). ce_verifier_id r = gv_id w \<and>
         ce_done_when_id r = gv_done_when_id w \<and> ce_evidence_kind r = gv_evidence_kind w \<and>
         gv_evidence_kind w \<in> set (evidence_kinds v))"
    if "r \<in> set rs" "ce_status r = EvidencePassed" for r
    using assms that run
    by (auto simp: completion_evidence_from_tool_invocation_def Let_def split: if_splits) blast
  have "rs \<noteq> [] \<and> (\<forall>r \<in> set rs. ce_goal_id r = gj_goal_id j \<and> ce_revision r = fe_revision f \<and>
      ce_frozen_fingerprint r = fe_fingerprint f \<and> set (ce_artifact_ids r) \<subseteq> required_ids f)"
    using assms run
    by (auto simp: completion_evidence_from_tool_invocation_def Let_def required_ids_def split: if_splits)
  then show ?thesis using run passed evidence_kinds_mem by metis
qed

text \<open>
  The evidence drawn from a tool invocation is about this goal and its frozen revision, is never
  empty, and is passed only when the invocation belongs to the goal's run, succeeded, was
  verified and reports evidence of the kind the frozen verifier asks for.
\<close>

theorem evidence_comes_from_verified_tool:
  assumes "completion_evidence_from_tool_invocation env j v = Inr rs"
    and "goal_frozen (gj_state j) = Some f"
  shows "ti_run_id v = Some (gj_goal_id j) \<and> rs \<noteq> [] \<and>
    (\<forall>r \<in> set rs. ce_goal_id r = gj_goal_id j \<and> ce_revision r = fe_revision f \<and>
       ce_frozen_fingerprint r = fe_fingerprint f \<and> set (ce_artifact_ids r) \<subseteq> required_ids f \<and>
       (ce_status r = EvidencePassed \<longrightarrow>
          ti_status v = ToolSucceeded \<and> tv_passed (ti_verification v) \<and>
          (\<exists>w \<in> set (ve_verifiers (fe_envelope f)). ce_verifier_id r = gv_id w \<and>
             ce_done_when_id r = gv_done_when_id w \<and> ce_evidence_kind r = gv_evidence_kind w \<and>
             (\<exists>e \<in> set (ti_evidence v). trim (te_kind e) = gv_evidence_kind w))))"
  using assms by (rule tool_evidence_facts)

lemma verifier_by_id_some:
  assumes "w \<in> set (ve_verifiers (fe_envelope f))" and "distinct (map gv_id (ve_verifiers (fe_envelope f)))"
  shows "verifier_by_id f (gv_id w) = Some w"
proof -
  let ?l = "map (\<lambda>v. (gv_id v, v)) (ve_verifiers (fe_envelope f))"
  have "distinct (map fst (rev ?l))" using assms(2) by (simp add: comp_def rev_map [symmetric])
  moreover have "(gv_id w, w) \<in> set (rev ?l)" using assms(1) by simp
  ultimately show ?thesis unfolding verifier_by_id_def by (rule map_of_is_SomeI)
qed

text \<open>
  C25: What the user is promised: when a proposal was validated and frozen under a revision and its
  evidence completes it, then for every condition of the proposal each verifier bound to it (and
  there is one) has exactly one receipt, which passed, is of the kind the verifier asks for and is
  about this goal, revision and frozen envelope; and every required artifact of the proposal is
  named by a passed receipt.
\<close>

theorem complete_goal_meets_its_proposal:
  assumes "validated_projection env catalog goal_id p ctx = Inr validated"
    and "frozen_projection env validated revision = Inr j"
    and "completion_projection env j evidence = Inr c" and "cj_status c = Complete"
  shows "(\<forall>d \<in> set (gp_done_when p). \<exists>v \<in> set (gp_verifiers p). gv_done_when_id v = dw_id d) \<and>
    (\<forall>v \<in> set (gp_verifiers p). \<exists>!r. r \<in> set evidence \<and> ce_verifier_id r = gv_id v) \<and>
    (\<forall>v \<in> set (gp_verifiers p). \<exists>r \<in> set evidence.
       ce_verifier_id r = gv_id v \<and> ce_done_when_id r = gv_done_when_id v \<and>
       ce_evidence_kind r = gv_evidence_kind v \<and> ce_status r = EvidencePassed \<and>
       ce_goal_id r = goal_id \<and> ce_revision r = revision) \<and>
    (\<forall>a \<in> set (gp_required_artifacts p). \<exists>r \<in> set evidence.
       ra_id a \<in> set (ce_artifact_ids r) \<and> ce_status r = EvidencePassed \<and> ce_revision r = revision)"
proof -
  note pv = validated_projection_Inr [OF assms(1)]
  let ?r = "validation_receipt_for env catalog ctx p"
  let ?e = "normalized_envelope p (vt_target_bindings ?r) (vt_capabilities ?r)"
  obtain f where f: "gj_state j = GoalFrozen f" "fe_envelope f = ?e" "fe_revision f = revision"
    "gj_goal_id j = goal_id"
    using assms(2) pv(2,4)
    by (auto simp: frozen_projection_def validated_state_def Let_def split: if_splits)
  have ws: "set (ve_verifiers (fe_envelope f)) = set (gp_verifiers p)"
    "required_ids f = ra_id ` set (gp_required_artifacts p)"
    by (simp_all add: f(2) normalized_envelope_def required_ids_def)
  have dist: "distinct (map gv_id (ve_verifiers (fe_envelope f)))"
    using valid_proposal_parts(2) [OF pv(1)] by (simp add: f(2) normalized_envelope_def distinct_map)
  have full: "complete_evidence goal_id f (set evidence)"
    using completion_status_iff [OF assms(3)] f assms(4) by simp
  have receipt: "\<exists>r \<in> set evidence. ce_verifier_id r = gv_id v \<and> good_evidence goal_id f r"
    if v: "v \<in> set (gp_verifiers p)" for v
    using full v unfolding complete_evidence_def ws(1) by (metis (no_types, lifting) image_iff subsetD)
  have artifact: "\<exists>r \<in> set evidence. ra_id a \<in> set (ce_artifact_ids r) \<and> good_evidence goal_id f r"
    if a: "a \<in> set (gp_required_artifacts p)" for a
    using full a unfolding complete_evidence_def ws(2) by blast
  have bound: "ce_done_when_id r = gv_done_when_id v \<and> ce_evidence_kind r = gv_evidence_kind v \<and>
      ce_status r = EvidencePassed \<and> ce_goal_id r = goal_id \<and> ce_revision r = revision"
    if v: "v \<in> set (gp_verifiers p)" and r: "ce_verifier_id r = gv_id v" "good_evidence goal_id f r" for v r
    using verifier_by_id_some [of v f] v ws(1) dist r f(3) by (auto simp: good_evidence_def)
  have single: "inj_on ce_verifier_id (set evidence)" using full by (simp add: complete_evidence_def)
  show ?thesis
  proof (intro conjI ballI)
    fix d assume "d \<in> set (gp_done_when p)"
    then show "\<exists>v \<in> set (gp_verifiers p). gv_done_when_id v = dw_id d"
      using valid_proposal_parts(1) [OF pv(1)] by (metis image_iff)
  next
    fix v assume v: "v \<in> set (gp_verifiers p)"
    then show "\<exists>!r. r \<in> set evidence \<and> ce_verifier_id r = gv_id v"
      using receipt [OF v] single by (metis inj_onD)
    show "\<exists>r \<in> set evidence. ce_verifier_id r = gv_id v \<and> ce_done_when_id r = gv_done_when_id v \<and>
       ce_evidence_kind r = gv_evidence_kind v \<and> ce_status r = EvidencePassed \<and>
       ce_goal_id r = goal_id \<and> ce_revision r = revision"
      using receipt [OF v] bound [OF v] by blast
  next
    fix a assume "a \<in> set (gp_required_artifacts p)"
    then show "\<exists>r \<in> set evidence. ra_id a \<in> set (ce_artifact_ids r) \<and> ce_status r = EvidencePassed \<and>
        ce_revision r = revision"
      using artifact f(3) by (fastforce simp: good_evidence_def)
  qed
qed

section \<open>A concrete goal\<close>

definition demo_goal_env :: goal_env where
  "demo_goal_env =
     \<lparr>ge_sha_raw = (\<lambda>s. replicate 32 (CHR ''a'')), ge_proposal_json = (\<lambda>p. ''{}''),
      ge_context_json = (\<lambda>c ts. ''{}''), ge_revision_json = (\<lambda>v fp e r. ''{}''),
      ge_frozen_json = (\<lambda>v fp rev e r. ''{}''), ge_envelope_json = (\<lambda>e. ''{}''),
      ge_tool_evidence_json = (\<lambda>i t st ok ks. ''{}''), ge_receipt_json = (\<lambda>v g rev fp fs. ''{}''),
      ge_uuid_text = (\<lambda>u. ''u''), ge_output_field = (\<lambda>out k. None)\<rparr>"

definition demo_proposal :: goal_proposal where
  "demo_proposal =
     \<lparr>gp_version = GOAL_ENVELOPE_PROPOSAL_VERSION, gp_user_goal = ''Tidy'', gp_assumptions = [],
      gp_constraints = [], gp_done_when = [\<lparr>dw_id = ''d1'', dw_description = ''Tidy''\<rparr>],
      gp_required_artifacts = [\<lparr>ra_id = ''a1'', ra_description = ''List''\<rparr>],
      gp_verifiers = [\<lparr>gv_id = ''v1'', gv_done_when_id = ''d1'', gv_description = ''Look'',
                      gv_evidence_kind = ''file''\<rparr>],
      gp_proposed_capabilities = [''t1''],
      gp_external_targets = [\<lparr>et_id = ''x1'', et_description = ''Box''\<rparr>], gp_stop_conditions = []\<rparr>"

definition demo_goal_catalog :: "tool_contract list" where
  "demo_goal_catalog =
     [\<lparr>tc_id = ''t1'', tc_capability = FileRead, tc_risk_level = capability_risk FileRead,
       tc_path_scope = ScopeWorkspace, tc_mutates_machine_state = False\<rparr>]"

definition demo_goal_context :: validation_context where
  "demo_goal_context =
     \<lparr>vc_access_mode = AskEveryStep, vc_workspace = WorkspaceReady, vc_max_risk = Critical,
      vc_enabled_tools = {''t1''}, vc_ready_tools = {''t1''}, vc_approval_routes = {''t1''},
      vc_verifier_kinds = {''file''},
      vc_target_bindings = [(''x1'', \<lparr>ta_target_id = ''x1'', ta_binding_kind = BindPath,
        ta_authority_fingerprint = replicate 64 (CHR ''a''), ta_authority_bound = True\<rparr>)],
      vc_allow_local_effects = False, vc_allow_external_effects = False\<rparr>"

lemmas goal_bounds = MAX_JSON_BYTES_def MAX_ID_BYTES_def MAX_USER_GOAL_BYTES_def MAX_TEXT_BYTES_def
  MAX_LIST_ITEMS_def MAX_VERIFIERS_def MAX_PERSISTED_ENVELOPE_BYTES_def MAX_COMPLETION_EVIDENCE_def

text \<open>A text shorter than a marker and its token holds no secret.\<close>

lemma any_match_suffix: "any_match m f s \<Longrightarrow> m \<noteq> [] \<Longrightarrow> \<exists>t. f t \<and> length m + length t \<le> length s"
proof (induction m f s rule: any_match.induct)
  case (1 m f)
  then show ?case by simp
next
  case (2 m f c cs)
  show ?case
  proof (cases "starts_with m (c # cs)")
    case True
    then have l: "length m \<le> length (c # cs)" unfolding starts_with_def by (metis length_take min.cobounded1)
    show ?thesis
    proof (cases "f (drop (length m) (c # cs))")
      case t: True
      then show ?thesis using l by (intro exI [of _ "drop (length m) (c # cs)"]) simp
    next
      case False
      then have "any_match m f (drop (length m - 1) cs)" using "2.prems"(1) True by simp
      then show ?thesis using "2.IH"(1) True "2.prems"(2) False by fastforce
    qed
  next
    case False
    then show ?thesis using "2.IH"(2) "2.prems" by fastforce
  qed
qed

lemma short_text_clean: "length s < 15 \<Longrightarrow> \<not> contains_secret_like_content s"
proof
  assume l: "length s < 15" and c: "contains_secret_like_content s"
  have lower: "length (ascii_lowercase s) = length s" by (simp add: ascii_lowercase_def)
  have quotes: "length (after_quotes t) \<le> length t" for t
    by (simp add: after_quotes_def length_dropWhile_le)
  have token: "length (takeWhile p t) \<le> length t" for p and t :: string by (rule length_takeWhile_le)
  have no: "\<not> contains_token_after (ascii_lowercase s) m 12" if m: "3 \<le> length m" for m
  proof
    assume "contains_token_after (ascii_lowercase s) m 12"
    moreover have "m \<noteq> []" using m by auto
    ultimately obtain t where "12 \<le> length (takeWhile token_char (after_quotes t))"
      "length m + length t \<le> length s"
      unfolding contains_token_after_def using any_match_suffix lower by metis
    then show False using l m token [of token_char "after_quotes t"] quotes [of t] by linarith
  qed
  have "any_match ''sk-'' (\<lambda>s. length (takeWhile key_char s) \<ge> 12) (ascii_lowercase s)"
    using c no by (auto simp: contains_secret_like_content_def secret_markers_def)
  then obtain t where "12 \<le> length (takeWhile key_char t)" "3 + length t \<le> length s"
    using any_match_suffix lower by fastforce
  then show False using l token [of key_char t] by linarith
qed

lemmas goal_text_eval = goal_text_def goal_id_text_def validate_text_list_def validate_id_list_def
  check_done_when_def check_artifact_def check_target_def id_start_def short_text_clean
  contains_sensitive_local_reference_def local_markers_def is_alpha_def

lemma demo_proposal_valid: "proposal_validate (ge_proposal_json demo_goal_env) demo_proposal = Inr ()"
  by (simp add: proposal_validate_def demo_proposal_def demo_goal_env_def goal_bounds goal_text_eval text_eval)

definition demo_hash :: string where
  "demo_hash = hex_text (replicate 32 (CHR ''a''))"

definition demo_goal_receipt :: validation_receipt where
  "demo_goal_receipt = validation_receipt_for demo_goal_env demo_goal_catalog demo_goal_context demo_proposal"

definition demo_envelope :: validated_envelope where
  "demo_envelope = normalized_envelope demo_proposal (vt_target_bindings demo_goal_receipt)
     (vt_capabilities demo_goal_receipt)"

definition demo_goal :: goal_projection where
  "demo_goal = \<lparr>gj_schema_version = GOAL_LIFECYCLE_SCHEMA_VERSION, gj_goal_id = 7,
     gj_state = GoalValidated demo_hash demo_hash demo_envelope demo_goal_receipt\<rparr>"

definition demo_frozen :: frozen_envelope where
  "demo_frozen = \<lparr>fe_version = GOAL_FROZEN_ENVELOPE_VERSION, fe_proposal_fingerprint = demo_hash,
     fe_revision = demo_hash, fe_envelope = demo_envelope, fe_receipt = demo_goal_receipt,
     fe_fingerprint = demo_hash\<rparr>"

definition demo_frozen_goal :: goal_projection where
  "demo_frozen_goal = \<lparr>gj_schema_version = GOAL_LIFECYCLE_SCHEMA_VERSION, gj_goal_id = 7,
     gj_state = GoalFrozen demo_frozen\<rparr>"

definition demo_evidence :: "evidence_status \<Rightarrow> completion_evidence" where
  "demo_evidence st = \<lparr>ce_evidence_id = 1, ce_goal_id = 7, ce_revision = demo_hash,
     ce_frozen_fingerprint = demo_hash, ce_verifier_id = ''v1'', ce_done_when_id = ''d1'',
     ce_evidence_kind = ''file'', ce_artifact_ids = [''a1''], ce_status = st,
     ce_source_fingerprint = demo_hash\<rparr>"

definition demo_goal_tool :: tool_invocation where
  "demo_goal_tool =
     \<lparr>ti_id = 5, ti_run_id = Some 7, ti_tool_id = ''t1'', ti_tool_version = ''1'',
      ti_capability = FileRead, ti_status = ToolSucceeded, ti_policy_decision = Allow,
      ti_approval_request_id = None, ti_input_summary = [], ti_request_fingerprint = [],
      ti_output = None, ti_evidence = [\<lparr>te_kind = ''file'', te_reference = ''a1'', te_summary = []\<rparr>],
      ti_verification = \<lparr>tv_passed = True, tv_summary = [], tv_checked_at = 0\<rparr>, ti_error = None,
      ti_recovery_hint = [], ti_elapsed_ms = 0, ti_created_at = 0, ti_finished_at = None\<rparr>"

lemma demo_domain_hash: "domain_hash demo_goal_env d v = demo_hash"
  by (simp add: domain_hash_def demo_goal_env_def demo_hash_def)

lemma demo_hash_valid: "valid_hash demo_hash"
  by (simp add: demo_hash_def hex_text_valid)

lemma demo_sha: "\<forall>x. length (ge_sha_raw demo_goal_env x) = 32"
  by (simp add: demo_goal_env_def)

lemma demo_no_failures: "validation_failures demo_goal_catalog demo_goal_context demo_proposal = {}"
  by (simp add: validation_failures_def validate_tools_def validate_targets_def target_result_def
      validate_capability_def proposal_contains_sensitive_local_reference_def proposal_texts_def
      verifier_texts_def demo_goal_catalog_def demo_goal_context_def demo_proposal_def
      effect_class_of_def CONNECTOR_MUTATE_TOOL_ID_def valid_hash_def list_all_iff goal_text_eval text_eval)

lemma demo_validated:
  "validated_projection demo_goal_env demo_goal_catalog 7 demo_proposal demo_goal_context = Inr demo_goal"
proof -
  have d: "vt_disposition demo_goal_receipt = DispositionValidated"
    by (simp add: demo_goal_receipt_def receipt_codes demo_no_failures)
  show ?thesis
    unfolding validated_projection_def demo_proposal_valid bind_res_simps Let_def
      demo_goal_receipt_def [symmetric] demo_envelope_def [symmetric]
    by (simp add: d demo_goal_def proposal_fingerprint_def revision_for_def demo_domain_hash)
qed

lemma demo_freeze: "frozen_projection demo_goal_env demo_goal demo_hash = Inr demo_frozen_goal"
  by (simp add: frozen_projection_def demo_goal_def demo_frozen_goal_def demo_frozen_def
      frozen_fingerprint_def demo_domain_hash Let_def)

lemma demo_frozen_parts:
  "fe_revision demo_frozen = demo_hash" "fe_fingerprint demo_frozen = demo_hash"
  "required_ids demo_frozen = {''a1''}" "ve_verifiers (fe_envelope demo_frozen) = gp_verifiers demo_proposal"
  "goal_frozen (gj_state demo_frozen_goal) = Some demo_frozen" "gj_goal_id demo_frozen_goal = 7"
  by (simp_all add: demo_frozen_def demo_frozen_goal_def demo_envelope_def normalized_envelope_def
      demo_proposal_def required_ids_def)

lemma demo_evidence_good: "good_evidence 7 demo_frozen (demo_evidence st) \<longleftrightarrow> st = EvidencePassed"
  by (simp add: good_evidence_def demo_evidence_def demo_frozen_parts verifier_by_id_def demo_proposal_def
      well_formed_evidence_def demo_hash_valid safe_contract_token_def goal_text_eval text_eval)

lemma demo_completion:
  obtains c where "completion_projection demo_goal_env demo_frozen_goal [demo_evidence st] = Inr c"
    "cj_status c = Complete \<longleftrightarrow> st = EvidencePassed"
proof -
  obtain c where c: "completion_projection demo_goal_env demo_frozen_goal [demo_evidence st] = Inr c"
    unfolding completion_projection_def demo_frozen_parts by (simp add: goal_bounds Let_def)
  have "complete_evidence 7 demo_frozen {demo_evidence st} \<longleftrightarrow> st = EvidencePassed"
    by (simp add: complete_evidence_def demo_evidence_good demo_frozen_parts)
       (simp add: demo_evidence_def demo_proposal_def)
  then show thesis using that [OF c] completion_status_iff [OF c demo_frozen_parts(5)]
    by (simp add: demo_frozen_parts)
qed

section \<open>Witnesses\<close>

theorem valid_proposal_is_contract_witness:
  "proposal_validate (ge_proposal_json demo_goal_env) demo_proposal = Inr () \<and>
   gv_done_when_id ` set (gp_verifiers demo_proposal) = dw_id ` set (gp_done_when demo_proposal)"
  using valid_proposal_is_contract [OF demo_proposal_valid] demo_proposal_valid by blast

theorem validated_goal_can_be_stored_witness: "validate_persisted demo_goal_env demo_goal = Inr ()"
proof (rule validated_goal_can_be_stored [OF demo_validated demo_sha])
  show "\<forall>c \<in> set demo_goal_catalog. \<not> contains_sensitive_local_reference (tc_id c)"
    by (simp add: demo_goal_catalog_def goal_text_eval text_eval)
  show "\<forall>fp rev e r. gj_state demo_goal = GoalValidated fp rev e r \<longrightarrow>
      length (ge_envelope_json demo_goal_env e) \<le> MAX_PERSISTED_ENVELOPE_BYTES"
    by (simp add: demo_goal_env_def goal_bounds)
qed

theorem freeze_keeps_contract_witness:
  "validate_persisted demo_goal_env demo_goal = Inr () \<and>
   goal_revision (gj_state demo_frozen_goal) = Some demo_hash \<and>
   validate_persisted demo_goal_env demo_frozen_goal = Inr ()"
proof -
  have "receipt_is_secret_free demo_goal_receipt"
    unfolding demo_goal_receipt_def
    by (rule receipt_stored [OF demo_proposal_valid demo_sha])
       (simp add: demo_goal_catalog_def goal_text_eval text_eval)
  moreover have "validated_envelope_is_secret_free demo_goal_env demo_envelope demo_goal_receipt"
    by (rule envelope_stored [OF demo_proposal_valid no_failures(1) [OF demo_no_failures] _
          demo_envelope_def demo_goal_receipt_def])
       (simp add: demo_goal_env_def goal_bounds)
  ultimately have v: "validate_persisted demo_goal_env demo_goal = Inr ()"
    by (simp add: validate_persisted_def demo_goal_def demo_hash_valid revision_for_def demo_domain_hash
        demo_goal_receipt_def receipt_codes demo_no_failures proposal_fingerprint_def)
  then show ?thesis using freeze_keeps_contract [OF v demo_freeze] by blast
qed


theorem completion_decides_specification_witness:
  "\<exists>c. completion_projection demo_goal_env demo_frozen_goal [demo_evidence EvidencePassed] = Inr c \<and>
     cj_status c = Complete \<and> cj_receipt c \<noteq> None"
proof (rule demo_completion [of EvidencePassed])
  fix c assume c: "completion_projection demo_goal_env demo_frozen_goal [demo_evidence EvidencePassed] = Inr c"
    and "cj_status c = Complete \<longleftrightarrow> EvidencePassed = EvidencePassed"
  then show ?thesis using completion_decides_specification [OF c demo_frozen_parts(5)] by blast
qed

theorem completion_ignores_order_witness:
  "completion_projection demo_goal_env demo_frozen_goal [demo_evidence EvidencePassed] =
   completion_projection demo_goal_env demo_frozen_goal
     [demo_evidence EvidencePassed, demo_evidence EvidencePassed]"
  by (rule completion_ignores_order) (simp_all add: goal_bounds)

theorem bad_evidence_blocks_witness:
  "\<exists>c. completion_projection demo_goal_env demo_frozen_goal [demo_evidence EvidenceNotPassed] = Inr c \<and>
     cj_status c = VerificationBlocked"
proof (rule demo_completion [of EvidenceNotPassed])
  fix c assume c: "completion_projection demo_goal_env demo_frozen_goal [demo_evidence EvidenceNotPassed] = Inr c"
  have "\<not> good_evidence (gj_goal_id demo_frozen_goal) demo_frozen (demo_evidence EvidenceNotPassed)"
    by (simp add: demo_evidence_good demo_frozen_parts)
  then show ?thesis using bad_evidence_blocks [OF c demo_frozen_parts(5)] c by fastforce
qed

theorem evidence_comes_from_verified_tool_witness:
  "\<exists>rs. completion_evidence_from_tool_invocation demo_goal_env demo_frozen_goal demo_goal_tool = Inr rs \<and>
     rs \<noteq> []"
proof -
  obtain rs where rs:
    "completion_evidence_from_tool_invocation demo_goal_env demo_frozen_goal demo_goal_tool = Inr rs"
    unfolding completion_evidence_from_tool_invocation_def demo_frozen_parts
    by (simp add: demo_goal_tool_def Let_def)
  then show ?thesis using evidence_comes_from_verified_tool [OF rs demo_frozen_parts(5)] by blast
qed

theorem complete_goal_meets_its_proposal_witness:
  "\<exists>r \<in> set [demo_evidence EvidencePassed]. ''a1'' \<in> set (ce_artifact_ids r) \<and> ce_status r = EvidencePassed"
proof (rule demo_completion [of EvidencePassed])
  fix c assume c: "completion_projection demo_goal_env demo_frozen_goal [demo_evidence EvidencePassed] = Inr c"
    and s: "cj_status c = Complete \<longleftrightarrow> EvidencePassed = EvidencePassed"
  have "\<forall>a \<in> set (gp_required_artifacts demo_proposal). \<exists>r \<in> set [demo_evidence EvidencePassed].
      ra_id a \<in> set (ce_artifact_ids r) \<and> ce_status r = EvidencePassed \<and> ce_revision r = demo_hash"
    using complete_goal_meets_its_proposal [OF demo_validated demo_freeze c] s by blast
  then show ?thesis by (simp add: demo_proposal_def)
qed

end
