(* ===== verification/Goal_Store.thy ===== *)
theory Goal_Store
  imports Goal_Safety
begin

text \<open>
  The goal tables of the event store (\<open>kernel/event_store.rs\<close>, from \<open>submit_goal_proposal\<close> to
  \<open>decode_goal_completion_projection\<close>) and the events and the view of
  \<open>kernel/goal_lifecycle.rs\<close> they use. A row keeps the columns beside the projection, whose
  JSON round trip is the identity; the JSON text of an event is a parameter. The blocker of a
  run without completion comes from the goal loop and is a parameter here.
\<close>

section \<open>Data\<close>

definition EVENT_ID_DOMAIN :: string where
  "EVENT_ID_DOMAIN = nul_ended ''ds-agent.goal-envelope-event-id.v1''"
definition COMPLETION_EVENT_ID_DOMAIN :: string where
  "COMPLETION_EVENT_ID_DOMAIN = nul_ended ''ds-agent.goal-envelope-completion-event-id.v1''"

definition AGENT_RUN_GOAL_COMPLETION_BLOCKED_REASON :: string where
  "AGENT_RUN_GOAL_COMPLETION_BLOCKED_REASON = ''goal_completion_verification_blocked''"

fun completion_status_text :: "completion_status \<Rightarrow> string" where
  "completion_status_text VerificationBlocked = ''verification_blocked''"
| "completion_status_text Complete = ''complete''"

record goal_row =
  gr_goal_id :: uuid
  gr_schema_version :: string
  gr_status :: string
  gr_proposal_fingerprint :: string
  gr_revision :: "string option"
  gr_projection :: goal_projection
  gr_row_revision :: u64
  gr_updated_at :: instant

record completion_row =
  cw_goal_id :: uuid
  cw_schema_version :: string
  cw_revision :: string
  cw_frozen_fingerprint :: string
  cw_status :: string
  cw_projection :: goal_completion
  cw_row_revision :: u64
  cw_updated_at :: instant

record goal_store =
  gs_goals :: "goal_row list"
  gs_completions :: "completion_row list"
  gs_exec :: exec_store

record goal_json =
  gn_event :: "goal_projection \<Rightarrow> string"
  gn_completion_event :: "goal_completion \<Rightarrow> string"

datatype run_classification =
    GoalLess
  | ExactComplete completion_receipt
  | ClassifiedBlocked string

section \<open>Events\<close>

definition status_event_type :: "lifecycle_status \<Rightarrow> string" where
  "status_event_type s =
     (case s of StatusProposalReceived \<Rightarrow> ''goal_envelope.proposal_received''
      | StatusValidationBlocked \<Rightarrow> ''goal_envelope.validation_blocked''
      | StatusValidated \<Rightarrow> ''goal_envelope.validated''
      | StatusFrozen \<Rightarrow> ''goal_envelope.frozen'')"

definition or_default :: "string option \<Rightarrow> string" where
  "or_default x = (case x of None \<Rightarrow> [] | Some s \<Rightarrow> s)"

text \<open>A key of several parts, \<open>format!("{}\\0{}..")\<close>, and \<open>join(",")\<close>.\<close>

fun joined :: "string \<Rightarrow> string list \<Rightarrow> string" where
  "joined sep [] = []"
| "joined sep [x] = x"
| "joined sep (x # y # xs) = x @ sep @ joined sep (y # xs)"

definition projection_event :: "goal_env \<Rightarrow> goal_json \<Rightarrow> instant \<Rightarrow> goal_projection \<Rightarrow> access_event" where
  "projection_event env js now j =
     (let s = gj_state j;
          key = joined NUL
            [ge_uuid_text env (gj_goal_id j), goal_proposal_fingerprint s,
             lifecycle_status_text (goal_status s), or_default (goal_revision s),
             or_default (map_option vt_context_fingerprint (goal_receipt s)),
             or_default (map_option fe_fingerprint (goal_frozen s))] in
      \<lparr>ke_id = deterministic_uuid env EVENT_ID_DOMAIN key,
       ke_payload = OtherPayload (status_event_type (goal_status s)) (gn_event js j),
       ke_created_at = now\<rparr>)"

definition completion_event :: "goal_env \<Rightarrow> goal_json \<Rightarrow> instant \<Rightarrow> goal_completion \<Rightarrow> access_event" where
  "completion_event env js now c =
     (let key = joined NUL
            [ge_uuid_text env (cj_goal_id c), cj_revision c, cj_frozen_fingerprint c,
             completion_status_text (cj_status c),
             joined '','' (map (\<lambda>r. ge_uuid_text env (ce_evidence_id r)) (cj_evidence c)),
             or_default (map_option cr_fingerprint (cj_receipt c))] in
      \<lparr>ke_id = deterministic_uuid env COMPLETION_EVENT_ID_DOMAIN key,
       ke_payload = OtherPayload
         (if cj_status c = Complete then ''goal_envelope.completed''
          else ''goal_envelope.verification_blocked'') (gn_completion_event js c),
       ke_created_at = now\<rparr>)"

text \<open>\<open>INSERT OR IGNORE\<close>, without the projection of tools and requests.\<close>

definition insert_goal_kernel_event :: "access_event \<Rightarrow> goal_store \<Rightarrow> goal_store" where
  "insert_goal_kernel_event e st =
     (if ke_id e \<in> ke_id ` set (xs_events (gs_exec st)) then st
      else st\<lparr>gs_exec := (gs_exec st)\<lparr>xs_events := xs_events (gs_exec st) @ [e]\<rparr>\<rparr>)"

section \<open>Goals\<close>

definition decode_goal_projection :: "goal_env \<Rightarrow> uuid \<Rightarrow> goal_row \<Rightarrow> goal_projection store_res" where
  "decode_goal_projection env goal_id w =
     (let j = gr_projection w in
      bind_res (invalid_state (validate_persisted env j)) (\<lambda>_.
        if gj_goal_id j \<noteq> goal_id \<or> gj_schema_version j \<noteq> gr_schema_version w
           \<or> lifecycle_status_text (goal_status (gj_state j)) \<noteq> gr_status w
           \<or> goal_proposal_fingerprint (gj_state j) \<noteq> gr_proposal_fingerprint w
           \<or> goal_revision (gj_state j) \<noteq> gr_revision w
        then Inl (InvalidState ''goal_projection_invalid'') else Inr j))"

definition goal_envelope_projection :: "goal_env \<Rightarrow> goal_store \<Rightarrow> uuid \<Rightarrow> goal_projection option store_res" where
  "goal_envelope_projection env st goal_id =
     (case row_of gr_goal_id (gs_goals st) goal_id of
        None \<Rightarrow> Inr None
      | Some w \<Rightarrow> bind_res (decode_goal_projection env goal_id w) (\<lambda>j. Inr (Some j)))"

definition goal_transition_allowed :: "goal_projection \<Rightarrow> goal_projection \<Rightarrow> bool" where
  "goal_transition_allowed current next \<longleftrightarrow>
     (if gj_goal_id current \<noteq> gj_goal_id next then False
      else if goal_status (gj_state next) = StatusProposalReceived
      then goal_proposal_fingerprint (gj_state current) \<noteq> goal_proposal_fingerprint (gj_state next)
      else if goal_proposal_fingerprint (gj_state current) \<noteq> goal_proposal_fingerprint (gj_state next)
      then False
      else (case (goal_status (gj_state current), goal_status (gj_state next)) of
          (StatusProposalReceived, StatusValidationBlocked) \<Rightarrow> True
        | (StatusProposalReceived, StatusValidated) \<Rightarrow> True
        | (StatusValidationBlocked, StatusValidationBlocked) \<Rightarrow> True
        | (StatusValidationBlocked, StatusValidated) \<Rightarrow> True
        | (StatusValidated, StatusValidationBlocked) \<Rightarrow> True
        | (StatusValidated, StatusValidated) \<Rightarrow> True
        | (StatusValidated, StatusFrozen) \<Rightarrow> True
        | (StatusFrozen, StatusValidationBlocked) \<Rightarrow> True
        | (StatusFrozen, StatusValidated) \<Rightarrow> True
        | _ \<Rightarrow> False))"

text \<open>A write that repeats what the goal already is, or validates a frozen goal again.\<close>

definition repeats :: "goal_projection \<Rightarrow> goal_projection \<Rightarrow> bool" where
  "repeats current next \<longleftrightarrow>
     current = next
     \<or> (goal_status (gj_state next) = StatusProposalReceived
        \<and> goal_proposal_fingerprint (gj_state current) = goal_proposal_fingerprint (gj_state next))
     \<or> (goal_status (gj_state current) = StatusFrozen \<and> goal_status (gj_state next) = StatusValidated
        \<and> goal_proposal_fingerprint (gj_state current) = goal_proposal_fingerprint (gj_state next)
        \<and> goal_revision (gj_state current) = goal_revision (gj_state next))"

definition goal_row_for :: "goal_projection \<Rightarrow> u64 \<Rightarrow> instant \<Rightarrow> goal_row" where
  "goal_row_for j n at =
     \<lparr>gr_goal_id = gj_goal_id j, gr_schema_version = GOAL_LIFECYCLE_SCHEMA_VERSION,
      gr_status = lifecycle_status_text (goal_status (gj_state j)),
      gr_proposal_fingerprint = goal_proposal_fingerprint (gj_state j),
      gr_revision = goal_revision (gj_state j), gr_projection = j, gr_row_revision = n,
      gr_updated_at = at\<rparr>"

definition write_goal :: "goal_projection \<Rightarrow> instant \<Rightarrow> goal_row list \<Rightarrow> goal_row list" where
  "write_goal j at rows =
     upsert_row gr_goal_id (gj_goal_id j) (goal_row_for j 0 at)
       (\<lambda>w. goal_row_for j (gr_row_revision w + 1) at) rows"

definition persist_goal_projection ::
    "goal_env \<Rightarrow> goal_json \<Rightarrow> instant \<Rightarrow> goal_projection \<Rightarrow> goal_store
     \<Rightarrow> (goal_projection \<times> goal_store) store_res" where
  "persist_goal_projection env js now next st =
     bind_res (invalid_state (validate_persisted env next)) (\<lambda>_.
     bind_res (goal_envelope_projection env st (gj_goal_id next)) (\<lambda>found.
       let e = projection_event env js now next;
           write = Inr (next, insert_goal_kernel_event e
             (st\<lparr>gs_goals := write_goal next now (gs_goals st)\<rparr>));
           refused = Inl (InvalidState ''goal_transition_not_allowed'') in
       case found of
         Some current \<Rightarrow>
           if repeats current next then Inr (current, insert_goal_kernel_event e st)
           else if goal_transition_allowed current next then write else refused
       | None \<Rightarrow>
           if goal_status (gj_state next) = StatusProposalReceived then write else refused))"

text \<open>
  The proposal is stored before it is validated, each in a transaction of its own: a submission
  that fails after the first keeps its effect, so the new store is returned on every path.
\<close>

definition submit_goal_proposal ::
    "goal_env \<Rightarrow> goal_json \<Rightarrow> tool_contract list \<Rightarrow> instant \<Rightarrow> instant \<Rightarrow> uuid \<Rightarrow> goal_proposal
     \<Rightarrow> validation_context \<Rightarrow> goal_store \<Rightarrow> goal_projection store_res \<times> goal_store" where
  "submit_goal_proposal env js catalog now later goal_id p ctx st =
     (case proposal_received_projection env goal_id p of
        Inl e \<Rightarrow> (Inl (InvalidState ''goal_proposal_invalid''), st)
      | Inr received \<Rightarrow>
          (case persist_goal_projection env js now received st of
             Inl e \<Rightarrow> (Inl e, st)
           | Inr (_, st1) \<Rightarrow>
               (case validated_projection env catalog goal_id p ctx of
                  Inl e \<Rightarrow> (Inl (InvalidState ''goal_proposal_invalid''), st1)
                | Inr v \<Rightarrow>
                    (case persist_goal_projection env js later v st1 of
                       Inl e \<Rightarrow> (Inl e, st1)
                     | Inr (j, st2) \<Rightarrow> (Inr j, st2)))))"

definition freeze_goal_envelope ::
    "goal_env \<Rightarrow> goal_json \<Rightarrow> instant \<Rightarrow> uuid \<Rightarrow> string \<Rightarrow> goal_store
     \<Rightarrow> (goal_projection \<times> goal_store) store_res" where
  "freeze_goal_envelope env js now goal_id expected st =
     bind_res (goal_envelope_projection env st goal_id) (\<lambda>found.
     bind_res (ok_or found (InvalidState ''goal_not_found'')) (\<lambda>current.
     bind_res (invalid_state (frozen_projection env current expected)) (\<lambda>frozen.
       persist_goal_projection env js now frozen st)))"

section \<open>Completions\<close>

definition decode_goal_completion_projection :: "uuid \<Rightarrow> completion_row \<Rightarrow> goal_completion store_res" where
  "decode_goal_completion_projection goal_id w =
     (let c = cw_projection w in
      if cj_goal_id c \<noteq> goal_id \<or> cj_schema_version c \<noteq> cw_schema_version w
         \<or> cj_schema_version c \<noteq> GOAL_COMPLETION_SCHEMA_VERSION \<or> cj_revision c \<noteq> cw_revision w
         \<or> cj_frozen_fingerprint c \<noteq> cw_frozen_fingerprint w
         \<or> completion_status_text (cj_status c) \<noteq> cw_status w
      then Inl (InvalidState ''goal_completion_projection_invalid'') else Inr c)"

definition goal_completion_projection ::
    "goal_env \<Rightarrow> goal_store \<Rightarrow> uuid \<Rightarrow> goal_completion option store_res" where
  "goal_completion_projection env st goal_id =
     (case row_of cw_goal_id (gs_completions st) goal_id of
        None \<Rightarrow> Inr None
      | Some w \<Rightarrow>
          bind_res (decode_goal_completion_projection goal_id w) (\<lambda>c.
          bind_res (goal_envelope_projection env st goal_id) (\<lambda>found.
          case found of None \<Rightarrow> Inr None
          | Some j \<Rightarrow>
              (case goal_frozen (gj_state j) of
                 None \<Rightarrow> Inr None
               | Some f \<Rightarrow>
                   if cj_revision c \<noteq> fe_revision f \<or> cj_frozen_fingerprint c \<noteq> fe_fingerprint f
                   then Inr None
                   else bind_res (invalid_state (validate_against env c j)) (\<lambda>_. Inr (Some c))))))"

definition completion_row_for :: "goal_completion \<Rightarrow> u64 \<Rightarrow> instant \<Rightarrow> completion_row" where
  "completion_row_for c n at =
     \<lparr>cw_goal_id = cj_goal_id c, cw_schema_version = GOAL_COMPLETION_SCHEMA_VERSION,
      cw_revision = cj_revision c, cw_frozen_fingerprint = cj_frozen_fingerprint c,
      cw_status = completion_status_text (cj_status c), cw_projection = c, cw_row_revision = n,
      cw_updated_at = at\<rparr>"

definition write_completion :: "goal_completion \<Rightarrow> instant \<Rightarrow> completion_row list \<Rightarrow> completion_row list" where
  "write_completion c at rows =
     upsert_row cw_goal_id (cj_goal_id c) (completion_row_for c 0 at)
       (\<lambda>w. completion_row_for c (cw_row_revision w + 1) at) rows"

definition persist_goal_completion_projection ::
    "goal_env \<Rightarrow> goal_json \<Rightarrow> instant \<Rightarrow> goal_projection \<Rightarrow> goal_completion \<Rightarrow> goal_store
     \<Rightarrow> (goal_completion \<times> goal_store) store_res" where
  "persist_goal_completion_projection env js now lifecycle next st =
     bind_res (invalid_state (validate_against env next lifecycle)) (\<lambda>_.
       let e = completion_event env js now next;
           same = is_some_and (row_of cw_goal_id (gs_completions st) (cj_goal_id next))
                    (\<lambda>w. cw_projection w = next) in
       Inr (next,
         insert_goal_kernel_event e
           (if same then st
            else st\<lparr>gs_completions := write_completion next now (gs_completions st)\<rparr>)))"

text \<open>The loop that adds receipts to the evidence already stored.\<close>

fun add_receipts ::
    "completion_evidence list \<Rightarrow> completion_evidence list \<Rightarrow> completion_evidence list store_res" where
  "add_receipts [] evidence = Inr evidence"
| "add_receipts (r # rs) evidence =
     (case row_of ce_evidence_id evidence (ce_evidence_id r) of
        Some old \<Rightarrow>
          if old \<noteq> r then Inl (InvalidState ''goal_completion_evidence_conflict'')
          else add_receipts rs evidence
      | None \<Rightarrow> add_receipts rs (evidence @ [r]))"

definition require_current_binding ::
    "exec_store \<Rightarrow> tool_invocation \<Rightarrow> uuid \<Rightarrow> frozen_envelope \<Rightarrow> unit store_res" where
  "require_current_binding x v goal_id f =
     (case goal_binding_row (xs_bindings x) (ti_id v) of
        None \<Rightarrow> Inl (InvalidState ''goal_completion_invocation_binding_missing'')
      | Some b \<Rightarrow>
          if gb_goal b \<noteq> goal_id \<or> gb_revision b \<noteq> fe_revision f
             \<or> gb_fingerprint b \<noteq> fe_fingerprint f
             \<or> gb_request_fingerprint b \<noteq> ti_request_fingerprint v
          then Inl (InvalidState ''goal_completion_invocation_binding_stale'') else Inr ())"

definition record_goal_completion_for_tool_invocation ::
    "goal_env \<Rightarrow> goal_json \<Rightarrow> instant \<Rightarrow> tool_invocation \<Rightarrow> goal_store
     \<Rightarrow> (goal_completion option \<times> goal_store) store_res" where
  "record_goal_completion_for_tool_invocation env js now v st =
     (case tool_invocation_by_id (gs_exec st) (ti_id v) of
        Inl e \<Rightarrow> Inl (InvalidState ''goal_completion_invocation_not_canonical'')
      | Inr canonical \<Rightarrow>
          if canonical \<noteq> v
          then Inl (InvalidState ''goal_completion_invocation_not_canonical'')
          else (case ti_run_id canonical of
              None \<Rightarrow> Inr (None, st)
            | Some goal_id \<Rightarrow>
                bind_res (goal_envelope_projection env st goal_id) (\<lambda>found.
                case found of None \<Rightarrow> Inr (None, st)
                | Some lifecycle \<Rightarrow>
                    bind_res (ok_or (goal_frozen (gj_state lifecycle))
                      (InvalidState ''goal_completion_goal_not_frozen'')) (\<lambda>f.
                    bind_res (require_current_binding (gs_exec st) canonical goal_id f) (\<lambda>_.
                    bind_res (invalid_state
                      (completion_evidence_from_tool_invocation env lifecycle canonical)) (\<lambda>receipts.
                    bind_res (goal_completion_projection env st goal_id) (\<lambda>old.
                    bind_res (add_receipts receipts
                      (case old of None \<Rightarrow> [] | Some c \<Rightarrow> cj_evidence c)) (\<lambda>evidence.
                    bind_res (invalid_state (completion_projection env lifecycle evidence)) (\<lambda>c.
                    bind_res (persist_goal_completion_projection env js now lifecycle c st) (\<lambda>(c, st).
                      Inr (Some c, st)))))))))))"

text \<open>How a run ends: \<open>blocker\<close> is what the goal loop stored for the run.\<close>

definition blocked_reason :: "string option store_res \<Rightarrow> run_classification store_res" where
  "blocked_reason blocker =
     bind_res blocker (\<lambda>reason.
       Inr (ClassifiedBlocked
         (case reason of None \<Rightarrow> AGENT_RUN_GOAL_COMPLETION_BLOCKED_REASON | Some r \<Rightarrow> r)))"

definition classify_agent_run_completion_from_connection ::
    "goal_env \<Rightarrow> (uuid \<Rightarrow> string option store_res) \<Rightarrow> goal_store \<Rightarrow> uuid \<Rightarrow> run_classification store_res" where
  "classify_agent_run_completion_from_connection env blocker st run_id =
     bind_res (goal_envelope_projection env st run_id) (\<lambda>found.
     case found of None \<Rightarrow> Inr GoalLess
     | Some j \<Rightarrow>
         if goal_frozen (gj_state j) = None then blocked_reason (blocker run_id)
         else bind_res (goal_completion_projection env st run_id) (\<lambda>completion.
           case completion of None \<Rightarrow> blocked_reason (blocker run_id)
           | Some c \<Rightarrow>
               if cj_status c \<noteq> Complete then blocked_reason (blocker run_id)
               else (case cj_receipt c of
                   None \<Rightarrow> Inl (InvalidState ''goal_completion_projection_missing_receipt'')
                 | Some r \<Rightarrow> Inr (ExactComplete r))))"

section \<open>The view for the user interface\<close>

record ui_projection =
  up_version :: string
  up_goal_id :: uuid
  up_status :: ui_status
  up_reason_codes :: "string list"
  up_revision :: "string option"
  up_fingerprint :: string
  up_completion_fingerprint :: "string option"
  up_user_goal_summary :: "string option"
  up_done_when_count :: nat
  up_required_artifact_count :: nat
  up_verifier_count :: nat

text \<open>\<open>stable_code\<close>: the snake case names of the codes.\<close>

fun completion_code_text :: "completion_code \<Rightarrow> string" where
  "completion_code_text ArtifactIdentityMismatch = ''artifact_identity_mismatch''"
| "completion_code_text DuplicateEvidence = ''duplicate_evidence''"
| "completion_code_text EvidenceFailed = ''evidence_failed''"
| "completion_code_text EvidenceGoalMismatch = ''evidence_goal_mismatch''"
| "completion_code_text EvidenceRevisionMismatch = ''evidence_revision_mismatch''"
| "completion_code_text EvidenceFingerprintMismatch = ''evidence_fingerprint_mismatch''"
| "completion_code_text MissingArtifactEvidence = ''missing_artifact_evidence''"
| "completion_code_text MissingVerifierEvidence = ''missing_verifier_evidence''"
| "completion_code_text UnknownEvidence = ''unknown_evidence''"
| "completion_code_text VerifierBindingMismatch = ''verifier_binding_mismatch''"

fun validation_code_text :: "validation_code \<Rightarrow> string" where
  "validation_code_text AuthorizationUnavailable = ''authorization_unavailable''"
| "validation_code_text CapabilityDisabled = ''capability_disabled''"
| "validation_code_text CapabilityNotReady = ''capability_not_ready''"
| "validation_code_text CapabilityRiskNotAllowed = ''capability_risk_not_allowed''"
| "validation_code_text ExternalEffectNotAllowed = ''external_effect_not_allowed''"
| "validation_code_text LocalEffectNotAllowed = ''local_effect_not_allowed''"
| "validation_code_text SensitiveLocalReference = ''sensitive_local_reference''"
| "validation_code_text TargetBindingInvalid = ''target_binding_invalid''"
| "validation_code_text TargetUnbound = ''target_unbound''"
| "validation_code_text UnknownCapability = ''unknown_capability''"
| "validation_code_text VerifierUnavailable = ''verifier_unavailable''"
| "validation_code_text WorkspaceNotReady = ''workspace_not_ready''"

text \<open>
  \<open>bounded_summary\<close> on the bytes of a UTF-8 text: the first \<open>n\<close> characters, a byte that does not
  start a character going with the one before it.
\<close>

definition continuation :: "char \<Rightarrow> bool" where
  "continuation c \<longleftrightarrow> 128 \<le> code c \<and> code c < 192"

fun take_chars :: "nat \<Rightarrow> string \<Rightarrow> string \<times> string" where
  "take_chars n [] = ([], [])"
| "take_chars n (b # s) =
     (if continuation b then (let (x, y) = take_chars n s in (b # x, y))
      else if n = 0 then ([], b # s)
      else (let (x, y) = take_chars (n - 1) s in (b # x, y)))"

definition bounded_summary :: "string \<Rightarrow> nat \<Rightarrow> string" where
  "bounded_summary v n =
     (case take_chars n v of (x, []) \<Rightarrow> x | (x, _ # _) \<Rightarrow> x @ ''...'')"

definition state_envelope :: "goal_state \<Rightarrow> validated_envelope option" where
  "state_envelope s =
     (case s of GoalValidated _ _ e _ \<Rightarrow> Some e | GoalFrozen f \<Rightarrow> Some (fe_envelope f) | _ \<Rightarrow> None)"

definition count_of :: "('a \<Rightarrow> 'b list) \<Rightarrow> 'a option \<Rightarrow> nat" where
  "count_of f x = (case x of None \<Rightarrow> 0 | Some e \<Rightarrow> length (f e))"

definition goal_ui_projection ::
    "goal_env \<Rightarrow> goal_projection \<Rightarrow> goal_completion option \<Rightarrow> ui_projection res" where
  "goal_ui_projection env j completion =
     bind_res (case completion of None \<Rightarrow> Inr () | Some c \<Rightarrow> validate_against env c j) (\<lambda>_.
       let s = gj_state j; e = state_envelope s in
       Inr \<lparr>up_version = GOAL_UI_PROJECTION_VERSION, up_goal_id = gj_goal_id j,
            up_status = ui_status_of (goal_status s) (map_option cj_status completion),
            up_reason_codes =
              (case completion of
                 Some c \<Rightarrow> map completion_code_text (cj_failure_codes c)
               | None \<Rightarrow> (case goal_receipt s of None \<Rightarrow> []
                          | Some r \<Rightarrow> map validation_code_text (vt_failure_codes r))),
            up_revision = goal_revision s,
            up_fingerprint =
              (case goal_frozen s of Some f \<Rightarrow> fe_fingerprint f | None \<Rightarrow> goal_proposal_fingerprint s),
            up_completion_fingerprint =
              (case completion of None \<Rightarrow> None
               | Some c \<Rightarrow> map_option cr_fingerprint (cj_receipt c)),
            up_user_goal_summary = map_option (\<lambda>e. bounded_summary (ve_user_goal e) 320) e,
            up_done_when_count = count_of ve_done_when e,
            up_required_artifact_count = count_of ve_required_artifacts e,
            up_verifier_count = count_of ve_verifiers e\<rparr>)"

definition goal_envelope_ui_projection ::
    "goal_env \<Rightarrow> goal_store \<Rightarrow> uuid \<Rightarrow> ui_projection option store_res" where
  "goal_envelope_ui_projection env st goal_id =
     bind_res (goal_envelope_projection env st goal_id) (\<lambda>found.
     case found of None \<Rightarrow> Inr None
     | Some j \<Rightarrow>
         bind_res (goal_completion_projection env st goal_id) (\<lambda>completion.
         bind_res (invalid_state (goal_ui_projection env j completion)) (\<lambda>u. Inr (Some u))))"

end
