(* ===== verification/Goal_Store_Safety.thy ===== *)
theory Goal_Store_Safety
  imports Goal_Store
begin

text \<open>
  The runs of the goal tables: one rule per operation that commits, the other operations of the
  store being any step of the access tables. The invariant says that every row decodes and that
  every receipt of a completion was drawn from a recorded tool invocation that is bound to the
  goal, its revision and its frozen envelope.
\<close>

section \<open>The step relation\<close>

definition with_goals :: "goal_env \<Rightarrow> goal_store \<Rightarrow> exec_store" where
  "with_goals env st =
     (gs_exec st)\<lparr>xs_goals := (\<lambda>run. bind_res (goal_envelope_projection env st run) (\<lambda>found.
        Inr (map_option (\<lambda>j. map_option (\<lambda>f. \<lparr>fv_revision = fe_revision f,
          fv_fingerprint = fe_fingerprint f\<rparr>) (goal_frozen (gj_state j))) found)))\<rparr>"

inductive goal_next :: "goal_env \<Rightarrow> goal_json \<Rightarrow> goal_store \<Rightarrow> goal_store \<Rightarrow> bool"
  for env js where
  goal_submit: "submit_goal_proposal env js catalog now later g p ctx st = (result, st')
     \<Longrightarrow> goal_next env js st st'"
| goal_freeze: "freeze_goal_envelope env js now g expected st = Inr (j, st') \<Longrightarrow> goal_next env js st st'"
| goal_record: "record_goal_completion_for_tool_invocation env js now v st = Inr (c, st')
     \<Longrightarrow> goal_next env js st st'"
| goal_exec: "access_next (with_goals env st) x \<Longrightarrow> goal_next env js st (st\<lparr>gs_exec := x\<rparr>)"

definition goal_initial :: "goal_store \<Rightarrow> bool" where
  "goal_initial st \<longleftrightarrow> gs_goals st = [] \<and> gs_completions st = [] \<and> access_initial (gs_exec st)"

section \<open>What the log and the bindings say of a receipt\<close>

abbreviation payloads :: "exec_store \<Rightarrow> access_payload set" where
  "payloads x \<equiv> ke_payload ` set (xs_events x)"

definition tools_logged :: "exec_store \<Rightarrow> bool" where
  "tools_logged x \<longleftrightarrow> (\<forall>w \<in> set (xs_tools x). ToolRecorded (tr_invocation w) \<in> payloads x)"

text \<open>
  The witness of a receipt: an invocation of the goal's run in the log, bound to the goal at the
  revision and fingerprint of the receipt; a passed receipt has a succeeded and verified one
  that reports evidence of the kind of the receipt.
\<close>

definition receipt_source :: "exec_store \<Rightarrow> completion_evidence \<Rightarrow> tool_invocation \<Rightarrow> bool" where
  "receipt_source x r v \<longleftrightarrow>
     ToolRecorded v \<in> payloads x \<and> ti_run_id v = Some (ce_goal_id r) \<and>
     (\<exists>b \<in> set (xs_bindings x). gb_invocation b = ti_id v \<and> gb_goal b = ce_goal_id r \<and>
        gb_revision b = ce_revision r \<and> gb_fingerprint b = ce_frozen_fingerprint r \<and>
        gb_request_fingerprint b = ti_request_fingerprint v) \<and>
     (ce_status r = EvidencePassed \<longrightarrow>
        ti_status v = ToolSucceeded \<and> tv_passed (ti_verification v) \<and>
        (\<exists>e \<in> set (ti_evidence v). trim (te_kind e) = ce_evidence_kind r))"

definition completions_sourced :: "exec_store \<Rightarrow> completion_row list \<Rightarrow> bool" where
  "completions_sourced x rows \<longleftrightarrow>
     (\<forall>w \<in> set rows. \<forall>r \<in> set (cj_evidence (cw_projection w)). \<exists>v. receipt_source x r v)"

definition rows_decode :: "goal_env \<Rightarrow> goal_row list \<Rightarrow> bool" where
  "rows_decode env rows \<longleftrightarrow> distinct (map gr_goal_id rows) \<and>
     (\<forall>w \<in> set rows. decode_goal_projection env (gr_goal_id w) w = Inr (gr_projection w))"

definition goal_inv :: "goal_env \<Rightarrow> goal_store \<Rightarrow> bool" where
  "goal_inv env st \<longleftrightarrow> rows_decode env (gs_goals st) \<and> tools_logged (gs_exec st) \<and>
     completions_sourced (gs_exec st) (gs_completions st)"

definition grows :: "exec_store \<Rightarrow> exec_store \<Rightarrow> bool" where
  "grows x y \<longleftrightarrow> set (xs_events x) \<subseteq> set (xs_events y) \<and> set (xs_bindings x) \<subseteq> set (xs_bindings y)"

lemma grows_refl [simp]: "grows x x"
  by (simp add: grows_def)

lemma receipt_source_grows: "receipt_source x r v \<Longrightarrow> grows x y \<Longrightarrow> receipt_source y r v"
  unfolding receipt_source_def grows_def by blast

lemma completions_sourced_grows:
  "completions_sourced x rows \<Longrightarrow> grows x y \<Longrightarrow> completions_sourced y rows"
  unfolding completions_sourced_def using receipt_source_grows by meson

section \<open>The access tables\<close>

lemma apply_tools:
  assumes "apply_execution_projection e x = Inr y" and "ke_payload e \<in> payloads x" and "tools_logged x"
  shows "tools_logged y"
proof (cases "\<not> is_projected (ke_payload e) \<or> ke_id e \<in> set (xs_applied x)")
  case True
  then show ?thesis using assms apply_skip by force
next
  case False
  note ev = apply_frame(1) [OF assms(1)]
  show ?thesis
    using assms False unfolding tools_logged_def ev apply_execution_projection_def
    by (cases "ke_payload e")
       (auto simp: Let_def bind_res_Inr_iff project_tool_def upsert_row_def set_update split: if_splits)
qed

lemma insert_tools:
  assumes "insert_kernel_event e x = Inr y" and "tools_logged x"
  shows "tools_logged y \<and> grows x y"
proof -
  let ?x = "x\<lparr>xs_events := xs_events x @ [e]\<rparr>"
  have ap: "apply_execution_projection e ?x = Inr y" using assms(1) by (simp add: insert_Inr)
  have "tools_logged ?x" using assms(2) by (auto simp: tools_logged_def)
  then have "tools_logged y" by (rule apply_tools [OF ap, rotated]) simp
  then show ?thesis using apply_frame(1,7) [OF ap] by (auto simp: grows_def)
qed

lemma append_tool_tools:
  assumes "append_tool_invocation event_id now v x = Inr y" and "tools_logged x"
  shows "tools_logged y \<and> grows x y"
proof -
  obtain u where u: "insert_kernel_event \<lparr>ke_id = event_id, ke_payload = ToolRecorded v, ke_created_at = now\<rparr> u
      = Inr y" "u = x \<or> (\<exists>r f. bind_tool_goal now v r f x = Inr u)"
    using assms(1) unfolding append_tool_invocation_def
    by (auto simp: bind_res_Inr_iff split: if_splits option.splits)
  have "xs_events u = xs_events x \<and> xs_tools u = xs_tools x \<and> set (xs_bindings x) \<subseteq> set (xs_bindings u)"
    using u(2) by (auto simp: bind_tool_goal_def split: option.splits if_splits)
  then have "tools_logged u" "grows x u" using assms(2) by (auto simp: tools_logged_def grows_def)
  then show ?thesis using insert_tools [OF u(1)] unfolding grows_def by blast
qed

lemma access_next_tools:
  assumes "access_inv x" and "access_next x y" and "tools_logged x"
  shows "tools_logged y \<and> grows x y"
  using assms(2)
proof (cases rule: access_next.cases)
  case (next_tool event_id now v)
  then show ?thesis using append_tool_tools assms(3) by blast
next
  case next_replay
  then show ?thesis using replay_Inr [OF assms(1)] assms(3) by (auto simp: tools_logged_def grows_def)
next
  case next_append
  then show ?thesis using insert_tools append_event_insert assms(3) by blast
next
  case next_insert
  then show ?thesis using insert_tools assms(3) by blast
next
  case next_resolve
  then show ?thesis using insert_tools resolve_Inr assms(3) by blast
next
  case next_resolve_exact
  then show ?thesis using insert_tools resolve_exact_Inr assms(3) by blast
qed (use assms(3) in \<open>auto simp: tools_logged_def grows_def\<close>)

lemma insert_goal_frame [simp]:
  "gs_goals (insert_goal_kernel_event e st) = gs_goals st"
  "gs_completions (insert_goal_kernel_event e st) = gs_completions st"
  by (simp_all add: insert_goal_kernel_event_def)

lemma insert_goal_event_exec:
  assumes "ke_payload e = OtherPayload ty body"
  shows "gs_exec (insert_goal_kernel_event e st) = gs_exec st \<or>
     insert_kernel_event e (gs_exec st) = Inr (gs_exec (insert_goal_kernel_event e st))"
  using assms
  by (auto simp: insert_goal_kernel_event_def insert_kernel_event_def apply_execution_projection_def is_projected_def)

lemma event_payloads:
  "\<exists>ty body. ke_payload (projection_event env js now j) = OtherPayload ty body"
  "\<exists>ty body. ke_payload (completion_event env js now c) = OtherPayload ty body"
  by (simp_all add: projection_event_def completion_event_def Let_def)

text \<open>What an operation may do to the access tables: grow, and keep their invariants.\<close>

definition exec_ok :: "exec_store \<Rightarrow> exec_store \<Rightarrow> bool" where
  "exec_ok x y \<longleftrightarrow> (access_inv x \<and> tools_logged x \<longrightarrow> access_inv y \<and> tools_logged y) \<and>
     (access_inv x \<and> tools_logged x \<longrightarrow> grows x y)"

lemma exec_ok_refl [simp]: "exec_ok x x"
  by (simp add: exec_ok_def)

lemma exec_ok_trans: "exec_ok x y \<Longrightarrow> exec_ok y z \<Longrightarrow> exec_ok x z"
  unfolding exec_ok_def grows_def by blast

lemma exec_ok_insert: "insert_kernel_event e x = Inr y \<Longrightarrow> exec_ok x y"
  using insert_inv insert_tools by (auto simp: exec_ok_def)

lemma exec_ok_goal_event:
  "exec_ok (gs_exec st) (gs_exec (insert_goal_kernel_event (projection_event env js now j) st))"
  "exec_ok (gs_exec st) (gs_exec (insert_goal_kernel_event (completion_event env js now c) st))"
  using insert_goal_event_exec event_payloads exec_ok_insert exec_ok_refl by metis+

lemma exec_ok_with_goals:
  assumes "access_next (with_goals env st) x"
  shows "exec_ok (gs_exec st) x"
proof -
  have "access_inv (gs_exec st) \<Longrightarrow> access_inv (with_goals env st)"
    by (simp add: with_goals_def access_inv_def rebuilds_def proj_def)
  moreover have "tools_logged (with_goals env st) = tools_logged (gs_exec st)"
    "grows (with_goals env st) x = grows (gs_exec st) x"
    by (simp_all add: with_goals_def tools_logged_def grows_def)
  ultimately show ?thesis
    using access_next_inv [OF _ assms] access_next_tools [OF _ assms] by (auto simp: exec_ok_def)
qed

section \<open>Goals\<close>

lemma decode_row_for:
  assumes "validate_persisted env j = Inr ()"
  shows "decode_goal_projection env (gj_goal_id j) (goal_row_for j n at) = Inr j"
proof -
  have "gj_schema_version j = GOAL_LIFECYCLE_SCHEMA_VERSION"
    using assms by (auto simp: validate_persisted_def split: if_splits)
  then show ?thesis using assms by (simp add: decode_goal_projection_def goal_row_for_def)
qed

lemma goal_row_for_fields [simp]:
  "gr_goal_id (goal_row_for j n at) = gj_goal_id j" "gr_projection (goal_row_for j n at) = j"
  by (simp_all add: goal_row_for_def)

lemma write_goal_row:
  "row_of gr_goal_id (write_goal j at rows) g =
     (if g = gj_goal_id j
      then Some (goal_row_for j (case row_of gr_goal_id rows g of None \<Rightarrow> 0 | Some w \<Rightarrow> gr_row_revision w + 1) at)
      else row_of gr_goal_id rows g)"
  unfolding write_goal_def by (subst row_of_upsert) (auto split: option.splits)

lemma write_goal_decodes:
  assumes "rows_decode env rows" and "validate_persisted env j = Inr ()"
  shows "rows_decode env (write_goal j at rows)"
proof -
  have "distinct (map gr_goal_id (write_goal j at rows))"
    unfolding write_goal_def using assms(1) by (intro distinct_upsert) (simp_all add: rows_decode_def)
  moreover have "decode_goal_projection env (gr_goal_id w) w = Inr (gr_projection w)"
    if "w \<in> set (write_goal j at rows)" for w
    using that assms decode_row_for [OF assms(2)]
    by (auto simp: write_goal_def upsert_row_def set_update rows_decode_def split: if_splits)
  ultimately show ?thesis by (simp add: rows_decode_def)
qed

lemma goal_read:
  assumes "rows_decode env (gs_goals st)"
  shows "goal_envelope_projection env st g = Inr (map_option gr_projection (row_of gr_goal_id (gs_goals st) g))"
proof (cases "row_of gr_goal_id (gs_goals st) g")
  case None
  then show ?thesis by (simp add: goal_envelope_projection_def)
next
  case (Some w)
  then have "decode_goal_projection env g w = Inr (gr_projection w)"
    using assms row_of_SomeD [OF Some] by (auto simp: rows_decode_def)
  then show ?thesis using Some by (simp add: goal_envelope_projection_def)
qed

lemma decoded_valid:
  "decode_goal_projection env g w = Inr j \<Longrightarrow> validate_persisted env j = Inr () \<and> gj_goal_id j = g"
  by (auto simp: decode_goal_projection_def Let_def bind_res_Inr_iff invalid_state_Inr_iff split: if_splits)

lemma read_valid:
  "goal_envelope_projection env st g = Inr (Some j) \<Longrightarrow> validate_persisted env j = Inr () \<and> gj_goal_id j = g"
  by (auto simp: goal_envelope_projection_def bind_res_Inr_iff dest: decoded_valid split: option.splits)

text \<open>A successful write of a goal either repeats what is there or stores a permitted successor.\<close>

lemma persist_goal_Inr:
  assumes "persist_goal_projection env js now next st = Inr (j, st')"
  shows "validate_persisted env next = Inr () \<and> exec_ok (gs_exec st) (gs_exec st') \<and>
    gs_completions st' = gs_completions st \<and>
    ((j = next \<and> gs_goals st' = write_goal next now (gs_goals st) \<and>
      (\<forall>c. goal_envelope_projection env st (gj_goal_id next) = Inr (Some c) \<longrightarrow>
         \<not> repeats c next \<and> goal_transition_allowed c next) \<and>
      (goal_envelope_projection env st (gj_goal_id next) = Inr None \<longrightarrow>
         goal_status (gj_state next) = StatusProposalReceived)) \<or>
     (gs_goals st' = gs_goals st \<and> repeats j next \<and>
      goal_envelope_projection env st (gj_goal_id next) = Inr (Some j)))"
proof -
  obtain found where v: "validate_persisted env next = Inr ()"
    and f: "goal_envelope_projection env st (gj_goal_id next) = Inr found"
    using assms by (auto simp: persist_goal_projection_def bind_res_Inr_iff invalid_state_Inr_iff)
  note ok = exec_ok_goal_event(1) [where env = env and js = js and now = now and j = "next"]
  show ?thesis
  proof (cases found)
    case None
    then show ?thesis using assms v f ok [of "st\<lparr>gs_goals := write_goal next now (gs_goals st)\<rparr>"]
      by (auto simp: persist_goal_projection_def Let_def split: if_splits)
  next
    case (Some c)
    then show ?thesis using assms v f ok [of "st\<lparr>gs_goals := write_goal next now (gs_goals st)\<rparr>"] ok [of st]
      by (auto simp: persist_goal_projection_def Let_def split: if_splits)
  qed
qed

section \<open>Completions\<close>

lemma add_receipts_set: "add_receipts rs ev = Inr ev' \<Longrightarrow> set ev' \<subseteq> set ev \<union> set rs"
proof (induction rs arbitrary: ev)
  case Nil
  then show ?case by simp
next
  case (Cons r rs)
  then show ?case by (fastforce split: option.splits if_splits)
qed

lemma completion_evidence_subset:
  assumes "completion_projection env j ev = Inr c"
  shows "set (cj_evidence c) \<subseteq> set ev" "cj_goal_id c = gj_goal_id j"
proof -
  show "set (cj_evidence c) \<subseteq> set ev"
    by (rule completion_projection_Inr [OF assms]) (use unique_evidence_spec in fastforce)
  show "cj_goal_id c = gj_goal_id j"
    by (rule completion_projection_Inr [OF assms])
qed

lemma completion_read:
  assumes "goal_completion_projection env st g = Inr (Some c)"
  obtains w j f where "row_of cw_goal_id (gs_completions st) g = Some w" "cw_projection w = c"
    "goal_envelope_projection env st g = Inr (Some j)" "goal_frozen (gj_state j) = Some f"
    "validate_against env c j = Inr ()" "cj_revision c = fe_revision f"
    "cj_frozen_fingerprint c = fe_fingerprint f"
proof -
  obtain w where w: "row_of cw_goal_id (gs_completions st) g = Some w"
    using assms by (auto simp: goal_completion_projection_def split: option.splits)
  obtain found where d: "decode_goal_completion_projection g w = Inr (cw_projection w)"
    and f: "goal_envelope_projection env st g = Inr found"
    using assms w
    by (auto simp: goal_completion_projection_def decode_goal_completion_projection_def Let_def
        bind_res_Inr_iff split: if_splits)
  obtain j where j: "found = Some j"
    using assms w d f by (cases found) (auto simp: goal_completion_projection_def)
  obtain fz where fz: "goal_frozen (gj_state j) = Some fz"
    using assms w d f j by (cases "goal_frozen (gj_state j)") (auto simp: goal_completion_projection_def)
  show thesis
    by (rule that [OF w _ f [unfolded j] fz])
       (use assms w d f j fz in \<open>auto simp: goal_completion_projection_def bind_res_Inr_iff
          invalid_state_Inr_iff split: if_splits\<close>)
qed

lemma completion_read_row:
  assumes "goal_completion_projection env st g = Inr (Some c)"
  shows "\<exists>w. row_of cw_goal_id (gs_completions st) g = Some w \<and> cw_projection w = c"
  by (rule completion_read [OF assms]) blast

lemma write_completion_rows:
  "w \<in> set (write_completion c now rows) \<Longrightarrow>
     cw_projection w = c \<or> cw_projection w \<in> cw_projection ` set rows"
  by (auto simp: write_completion_def upsert_row_def set_update completion_row_for_def split: if_splits)

lemma persist_completion_Inr:
  assumes "persist_goal_completion_projection env js now j c st = Inr (d, st')"
  shows "d = c \<and> validate_against env c j = Inr () \<and> exec_ok (gs_exec st) (gs_exec st') \<and>
    gs_goals st' = gs_goals st \<and>
    (\<forall>w \<in> set (gs_completions st'). cw_projection w = c \<or>
       cw_projection w \<in> cw_projection ` set (gs_completions st))"
proof -
  have "exec_ok (gs_exec st) (gs_exec st')"
    using assms exec_ok_goal_event(2) [of "st\<lparr>gs_completions := write_completion c now (gs_completions st)\<rparr>"]
      exec_ok_goal_event(2) [of st]
    by (auto simp: persist_goal_completion_projection_def Let_def bind_res_Inr_iff)
  then show ?thesis using assms
    by (cases "is_some_and (row_of cw_goal_id (gs_completions st) (cj_goal_id c)) (\<lambda>w. cw_projection w = c)")
       (auto simp: persist_goal_completion_projection_def Let_def bind_res_Inr_iff invalid_state_Inr_iff
         dest: write_completion_rows)
qed

lemma tool_by_id_logged:
  assumes "tool_invocation_by_id x i = Inr v" and "tools_logged x"
  shows "ToolRecorded v \<in> payloads x"
  using assms by (auto simp: tool_invocation_by_id_def tools_logged_def dest!: row_of_SomeD split: option.splits)

lemma current_binding:
  assumes "require_current_binding x v g f = Inr ()"
  shows "\<exists>b \<in> set (xs_bindings x). gb_invocation b = ti_id v \<and> gb_goal b = g \<and>
     gb_revision b = fe_revision f \<and> gb_fingerprint b = fe_fingerprint f \<and>
     gb_request_fingerprint b = ti_request_fingerprint v"
  using assms
  by (auto simp: require_current_binding_def goal_binding_row_def dest!: row_of_SomeD
      split: option.splits if_splits)

text \<open>What recording a completion went through.\<close>

lemma record_completion_Inr:
  assumes "record_goal_completion_for_tool_invocation env js now v st = Inr (out, st')"
  shows "out = None \<and> st' = st \<or>
    (\<exists>g j f receipts old evidence c. tool_invocation_by_id (gs_exec st) (ti_id v) = Inr v \<and>
       ti_run_id v = Some g \<and> goal_envelope_projection env st g = Inr (Some j) \<and>
       goal_frozen (gj_state j) = Some f \<and> require_current_binding (gs_exec st) v g f = Inr () \<and>
       completion_evidence_from_tool_invocation env j v = Inr receipts \<and>
       goal_completion_projection env st g = Inr old \<and>
       add_receipts receipts (case old of None \<Rightarrow> [] | Some c \<Rightarrow> cj_evidence c) = Inr evidence \<and>
       completion_projection env j evidence = Inr c \<and> out = Some c \<and>
       persist_goal_completion_projection env js now j c st = Inr (c, st'))"
proof (cases "ti_run_id v")
  case None
  then show ?thesis using assms
    by (auto simp: record_goal_completion_for_tool_invocation_def split: sum.splits if_splits)
next
  case (Some g)
  have v: "tool_invocation_by_id (gs_exec st) (ti_id v) = Inr v"
    using assms by (auto simp: record_goal_completion_for_tool_invocation_def split: sum.splits if_splits)
  obtain found where f: "goal_envelope_projection env st g = Inr found"
    using assms Some v by (auto simp: record_goal_completion_for_tool_invocation_def bind_res_Inr_iff)
  show ?thesis
  proof (cases found)
    case None
    then show ?thesis using assms Some v f by (simp add: record_goal_completion_for_tool_invocation_def)
  next
    case j: (Some j)
    obtain fz receipts old evidence c d where r: "goal_frozen (gj_state j) = Some fz"
      "require_current_binding (gs_exec st) v g fz = Inr ()"
      "completion_evidence_from_tool_invocation env j v = Inr receipts"
      "goal_completion_projection env st g = Inr old"
      "add_receipts receipts (case old of None \<Rightarrow> [] | Some c \<Rightarrow> cj_evidence c) = Inr evidence"
      "completion_projection env j evidence = Inr c"
      "persist_goal_completion_projection env js now j c st = Inr (d, st')" "out = Some d"
      using assms v f Some j unfolding record_goal_completion_for_tool_invocation_def
      by (auto simp: bind_res_Inr_iff invalid_state_Inr_iff ok_or_Inr_iff)
    have "d = c" using persist_completion_Inr [OF r(7)] by simp
    then show ?thesis using v f Some j r by blast
  qed
qed

section \<open>The invariant\<close>

definition store_inv :: "goal_env \<Rightarrow> goal_store \<Rightarrow> bool" where
  "store_inv env st \<longleftrightarrow> access_inv (gs_exec st) \<and> goal_inv env st"

lemma store_inv_grows:
  assumes "store_inv env st" and "exec_ok (gs_exec st) (gs_exec st')"
    and "rows_decode env (gs_goals st')" and "gs_completions st' = gs_completions st"
  shows "store_inv env st'"
  using assms completions_sourced_grows by (auto simp: store_inv_def goal_inv_def exec_ok_def)

lemma persist_goal_inv:
  assumes "store_inv env st" and "persist_goal_projection env js now nxt st = Inr (j, st')"
  shows "store_inv env st'"
proof -
  note p = persist_goal_Inr [OF assms(2)]
  have "rows_decode env (gs_goals st')"
    using p assms(1) write_goal_decodes by (auto simp: store_inv_def goal_inv_def)
  then show ?thesis using store_inv_grows [OF assms(1)] p by blast
qed

lemma submit_inv:
  assumes "store_inv env st" and "submit_goal_proposal env js catalog now later g p ctx st = (result, st')"
  shows "store_inv env st'"
  using assms
  by (auto simp: submit_goal_proposal_def split: sum.splits prod.splits
      intro: persist_goal_inv [OF assms(1)] persist_goal_inv [OF persist_goal_inv [OF assms(1)]])

lemma freeze_Inr:
  assumes "freeze_goal_envelope env js now g expected st = Inr (j, st')"
  shows "\<exists>current frozen. goal_envelope_projection env st g = Inr (Some current) \<and>
     frozen_projection env current expected = Inr frozen \<and>
     persist_goal_projection env js now frozen st = Inr (j, st')"
  using assms by (auto simp: freeze_goal_envelope_def bind_res_Inr_iff ok_or_Inr_iff invalid_state_Inr_iff)

lemma receipt_source_of_tool:
  assumes "completion_evidence_from_tool_invocation env j v = Inr rs" and "r \<in> set rs"
    and "goal_frozen (gj_state j) = Some f" and "gj_goal_id j = g"
    and "require_current_binding x v g f = Inr ()" and "ToolRecorded v \<in> payloads x"
  shows "receipt_source x r v"
proof -
  have "ti_run_id v = Some g" "ce_goal_id r = g" "ce_revision r = fe_revision f"
    "ce_frozen_fingerprint r = fe_fingerprint f"
    "ce_status r = EvidencePassed \<longrightarrow> ti_status v = ToolSucceeded \<and> tv_passed (ti_verification v) \<and>
       (\<exists>e \<in> set (ti_evidence v). trim (te_kind e) = ce_evidence_kind r)"
    using tool_evidence_facts [OF assms(1,3)] assms(2,4) by (simp_all, metis)
  then show ?thesis unfolding receipt_source_def using current_binding [OF assms(5)] assms(6) by simp
qed

lemma record_inv:
  assumes inv: "store_inv env st"
    and rec: "record_goal_completion_for_tool_invocation env js now v st = Inr (out, st')"
  shows "store_inv env st'"
proof (cases "out = None \<and> st' = st")
  case True
  then show ?thesis using inv by simp
next
  case False
  then obtain g j f receipts old evidence c where r: "tool_invocation_by_id (gs_exec st) (ti_id v) = Inr v"
    "goal_envelope_projection env st g = Inr (Some j)" "goal_frozen (gj_state j) = Some f"
    "require_current_binding (gs_exec st) v g f = Inr ()"
    "completion_evidence_from_tool_invocation env j v = Inr receipts"
    "goal_completion_projection env st g = Inr old"
    "add_receipts receipts (case old of None \<Rightarrow> [] | Some c \<Rightarrow> cj_evidence c) = Inr evidence"
    "completion_projection env j evidence = Inr c"
    "persist_goal_completion_projection env js now j c st = Inr (c, st')"
    using record_completion_Inr [OF rec] by blast
  note p = persist_completion_Inr [OF r(9)]
  have g: "grows (gs_exec st) (gs_exec st')" using p inv by (auto simp: exec_ok_def store_inv_def goal_inv_def)
  have logged: "ToolRecorded v \<in> payloads (gs_exec st)"
    using tool_by_id_logged [OF r(1)] inv by (simp add: store_inv_def goal_inv_def)
  have old_rows: "\<exists>u. receipt_source (gs_exec st) e u" if d: "old = Some d" and e: "e \<in> set (cj_evidence d)" for d e
  proof -
    obtain w where "row_of cw_goal_id (gs_completions st) g = Some w" "cw_projection w = d"
      using completion_read_row r(6) d by blast
    then show ?thesis using inv e row_of_SomeD
      by (fastforce simp: store_inv_def goal_inv_def completions_sourced_def)
  qed
  have new: "\<exists>u. receipt_source (gs_exec st) e u" if "e \<in> set (cj_evidence c)" for e
  proof -
    have "e \<in> set (case old of None \<Rightarrow> [] | Some c \<Rightarrow> cj_evidence c) \<union> set receipts"
      using that completion_evidence_subset(1) [OF r(8)] add_receipts_set [OF r(7)] by blast
    then show ?thesis
      using old_rows receipt_source_of_tool [OF r(5) _ r(3) _ r(4) logged] read_valid [OF r(2)]
      by (cases old) auto
  qed
  have "\<exists>u. receipt_source (gs_exec st) e u"
    if w: "w \<in> set (gs_completions st')" "e \<in> set (cj_evidence (cw_projection w))" for w e
  proof -
    have "cw_projection w = c \<or> (\<exists>w' \<in> set (gs_completions st). cw_projection w' = cw_projection w)"
      using p w(1) by fastforce
    then show ?thesis using new w(2) inv by (fastforce simp: store_inv_def goal_inv_def completions_sourced_def)
  qed
  then have "completions_sourced (gs_exec st') (gs_completions st')"
    unfolding completions_sourced_def using receipt_source_grows [OF _ g] by meson
  then show ?thesis using p inv by (auto simp: store_inv_def goal_inv_def exec_ok_def)
qed

lemma goal_next_inv: "store_inv env st \<Longrightarrow> goal_next env js st st' \<Longrightarrow> store_inv env st'"
proof (erule goal_next.cases)
  fix now g expected s j s'
  assume "store_inv env st" "st = s" "st' = s'" "freeze_goal_envelope env js now g expected s = Inr (j, s')"
  then show ?thesis using freeze_Inr persist_goal_inv by blast
next
  fix s x
  assume a: "store_inv env st" "st = s" "st' = s\<lparr>gs_exec := x\<rparr>" "access_next (with_goals env s) x"
  then show ?thesis using store_inv_grows [OF a(1), of st'] exec_ok_with_goals [OF a(4)]
    by (simp add: store_inv_def goal_inv_def)
qed (auto dest: submit_inv record_inv)

lemma goal_initial_inv: "goal_initial st \<Longrightarrow> store_inv env st"
  by (simp add: goal_initial_def store_inv_def goal_inv_def rows_decode_def completions_sourced_def
      access_initial_inv) (simp add: access_initial_def tools_logged_def)

interpretation goals: transition_system "goal_next env js" "store_inv env" for env js
  by unfold_locales (rule goal_next_inv)

lemma goal_run_inv: "goal_initial st0 \<Longrightarrow> (goal_next env js)\<^sup>*\<^sup>* st0 st \<Longrightarrow> store_inv env st"
  using goals.run_inv goal_initial_inv by blast

section \<open>Properties of the runs\<close>

lemma adjacent_distinct:
  assumes "adjacent (\<lambda>a b. key a < (key b :: string)) xs"
  shows "distinct (map key xs)"
proof -
  have "sorted_wrt (<) (map key xs)"
    using assms
  proof (induction xs rule: induct_list012)
    case (3 x y zs)
    then have "sorted_wrt (<) (map key (y # zs))" "key x < key y" by simp_all
    then show ?case by auto
  qed simp_all
  then show ?thesis by (simp add: strict_sorted_iff)
qed

lemma frozen_verifiers_distinct:
  assumes "validate_persisted env j = Inr ()" and "goal_frozen (gj_state j) = Some f"
  shows "distinct (map gv_id (ve_verifiers (fe_envelope f)))"
proof -
  have "gj_state j = GoalFrozen f" using assms(2) by (cases "gj_state j") simp_all
  then have "validated_envelope_is_secret_free env (fe_envelope f) (fe_receipt f)"
    using assms(1) by (auto simp: validate_persisted_def split: if_splits)
  then show ?thesis by (intro adjacent_distinct) (simp add: validated_envelope_is_secret_free_def)
qed

lemma classified_complete:
  assumes "classify_agent_run_completion_from_connection env blocker st run = Inr (ExactComplete receipt)"
  shows "\<exists>c. goal_completion_projection env st run = Inr (Some c) \<and> cj_status c = Complete \<and>
     cj_receipt c = Some receipt"
proof -
  note d = classify_agent_run_completion_from_connection_def blocked_reason_def
  obtain found where f: "goal_envelope_projection env st run = Inr found"
    using assms by (auto simp: d bind_res_Inr_iff)
  obtain j where j: "found = Some j" using assms f by (cases found) (simp_all add: d)
  have z: "goal_frozen (gj_state j) \<noteq> None"
    using assms f j by (auto simp: d bind_res_Inr_iff split: if_splits)
  obtain x where x: "goal_completion_projection env st run = Inr x"
    using assms f j z by (auto simp: d bind_res_Inr_iff split: if_splits)
  obtain c where c: "x = Some c" using assms f j z x by (cases x) (auto simp: d bind_res_Inr_iff split: if_splits)
  show ?thesis using assms f j z x c
    by (cases "cj_status c"; cases "cj_receipt c") (auto simp: d bind_res_Inr_iff split: if_splits)
qed

lemma validated_against:
  "validate_against env c j = Inr () \<Longrightarrow> completion_projection env j (cj_evidence c) = Inr c"
  by (auto simp: validate_against_def bind_res_Inr_iff split: if_splits)

lemma complete_row_evidence:
  assumes inv: "store_inv env st" and c: "goal_completion_projection env st run = Inr (Some c)"
    and done_: "cj_status c = Complete"
  shows "\<exists>j f. goal_envelope_projection env st run = Inr (Some j) \<and> goal_frozen (gj_state j) = Some f \<and>
    gj_goal_id j = run \<and> complete_evidence run f (set (cj_evidence c)) \<and>
    distinct (map gv_id (ve_verifiers (fe_envelope f))) \<and>
    cj_receipt c = Some (receipt_for env run f (cj_evidence c)) \<and>
    (\<forall>r \<in> set (cj_evidence c). \<exists>v. receipt_source (gs_exec st) r v)"
proof (rule completion_read [OF c])
  fix w j f
  assume w: "row_of cw_goal_id (gs_completions st) run = Some w" "cw_projection w = c"
    and j: "goal_envelope_projection env st run = Inr (Some j)" "goal_frozen (gj_state j) = Some f"
    "validate_against env c j = Inr ()"
  note p = validated_against [OF j(3)] and jv = read_valid [OF j(1)]
  have "complete_evidence run f (set (cj_evidence c))"
    using completion_status_iff [OF p j(2)] done_ jv by simp
  moreover have "\<forall>r \<in> set (cj_evidence c). \<exists>v. receipt_source (gs_exec st) r v"
    using inv row_of_SomeD [OF w(1)] w(2) by (auto simp: store_inv_def goal_inv_def completions_sourced_def)
  moreover have "cj_receipt c = Some (receipt_for env run f (cj_evidence c))"
    by (rule completion_projection_Inr [OF p]) (use done_ j(2) jv in auto)
  ultimately show ?thesis using j jv frozen_verifiers_distinct by blast
qed

lemma classified_run_evidence:
  assumes "store_inv env st"
    and "classify_agent_run_completion_from_connection env blocker st run = Inr (ExactComplete receipt)"
  shows "\<exists>j f. goal_envelope_projection env st run = Inr (Some j) \<and> gj_state j = GoalFrozen f \<and>
     cr_revision receipt = fe_revision f \<and> cr_frozen_fingerprint receipt = fe_fingerprint f \<and>
     (\<forall>w \<in> set (ve_verifiers (fe_envelope f)). \<exists>v. ToolRecorded v \<in> ke_payload ` set (xs_events (gs_exec st)) \<and>
        ti_run_id v = Some run \<and> ti_status v = ToolSucceeded \<and> tv_passed (ti_verification v) \<and>
        (\<exists>e \<in> set (ti_evidence v). trim (te_kind e) = gv_evidence_kind w) \<and>
        (\<exists>b \<in> set (xs_bindings (gs_exec st)). gb_invocation b = ti_id v \<and> gb_goal b = run \<and>
           gb_revision b = fe_revision f \<and> gb_fingerprint b = fe_fingerprint f))"
proof -
  note inv = assms(1)
  obtain c where c: "goal_completion_projection env st run = Inr (Some c)" "cj_status c = Complete"
    "cj_receipt c = Some receipt"
    using classified_complete [OF assms(2)] by blast
  obtain j f where j: "goal_envelope_projection env st run = Inr (Some j)"
    "goal_frozen (gj_state j) = Some f" and full: "complete_evidence run f (set (cj_evidence c))"
    and dist: "distinct (map gv_id (ve_verifiers (fe_envelope f)))"
    and rc: "cj_receipt c = Some (receipt_for env run f (cj_evidence c))"
    and src: "\<forall>r \<in> set (cj_evidence c). \<exists>v. receipt_source (gs_exec st) r v"
    using complete_row_evidence [OF inv c(1,2)] by blast
  have st: "gj_state j = GoalFrozen f" using j(2) by (cases "gj_state j") simp_all
  have work: "\<exists>r v. receipt_source (gs_exec st) r v \<and> good_evidence run f r \<and>
      ce_evidence_kind r = gv_evidence_kind w"
    if w: "w \<in> set (ve_verifiers (fe_envelope f))" for w
  proof -
    obtain r where r: "r \<in> set (cj_evidence c)" "ce_verifier_id r = gv_id w"
      using full w unfolding complete_evidence_def by (metis (no_types, lifting) image_iff subsetD)
    then have "good_evidence run f r" using full by (simp add: complete_evidence_def)
    moreover have "ce_evidence_kind r = gv_evidence_kind w"
      using calculation r(2) verifier_by_id_some [OF w dist] by (auto simp: good_evidence_def)
    ultimately show ?thesis using src r(1) by blast
  qed
  have "\<exists>v. ToolRecorded v \<in> payloads (gs_exec st) \<and> ti_run_id v = Some run \<and>
      ti_status v = ToolSucceeded \<and> tv_passed (ti_verification v) \<and>
      (\<exists>e \<in> set (ti_evidence v). trim (te_kind e) = gv_evidence_kind w) \<and>
      (\<exists>b \<in> set (xs_bindings (gs_exec st)). gb_invocation b = ti_id v \<and> gb_goal b = run \<and>
         gb_revision b = fe_revision f \<and> gb_fingerprint b = fe_fingerprint f)"
    if w: "w \<in> set (ve_verifiers (fe_envelope f))" for w
    using work [OF w] unfolding receipt_source_def good_evidence_def by metis
  moreover have "cr_revision receipt = fe_revision f \<and> cr_frozen_fingerprint receipt = fe_fingerprint f"
    using rc c(3) by (auto simp: receipt_for_def Let_def)
  ultimately show ?thesis using j(1) st by blast
qed

text \<open>
  C2: A run is reported complete only on recorded work. In every reachable store, if a run with a
  goal is classified as exactly complete, its goal is frozen, the receipt names its revision and
  fingerprint, and for every verifier of the frozen envelope the event log holds a tool invocation
  of this run that succeeded, was verified, reports evidence of the verifier's kind and is bound
  to this revision and frozen envelope.
\<close>

theorem complete_run_has_recorded_evidence:
  assumes "goal_initial st0" and "(goal_next env js)\<^sup>*\<^sup>* st0 st"
    and "classify_agent_run_completion_from_connection env blocker st run = Inr (ExactComplete receipt)"
  shows "\<exists>j f. goal_envelope_projection env st run = Inr (Some j) \<and> gj_state j = GoalFrozen f \<and>
     cr_revision receipt = fe_revision f \<and> cr_frozen_fingerprint receipt = fe_fingerprint f \<and>
     (\<forall>w \<in> set (ve_verifiers (fe_envelope f)). \<exists>v. ToolRecorded v \<in> ke_payload ` set (xs_events (gs_exec st)) \<and>
        ti_run_id v = Some run \<and> ti_status v = ToolSucceeded \<and> tv_passed (ti_verification v) \<and>
        (\<exists>e \<in> set (ti_evidence v). trim (te_kind e) = gv_evidence_kind w) \<and>
        (\<exists>b \<in> set (xs_bindings (gs_exec st)). gb_invocation b = ti_id v \<and> gb_goal b = run \<and>
           gb_revision b = fe_revision f \<and> gb_fingerprint b = fe_fingerprint f))"
  by (rule classified_run_evidence [OF goal_run_inv [OF assms(1,2)] assms(3)])

text \<open>
  Reading a goal never fails: on every reachable store the stored goals decode, pass the check
  of stored goals and carry the id they are read under; and a proposal that does not validate is
  refused and changes nothing.
\<close>

theorem goal_reads_succeed:
  assumes "goal_initial st0" and "(goal_next env js)\<^sup>*\<^sup>* st0 st"
  shows "(\<exists>found. goal_envelope_projection env st g = Inr found \<and>
      (\<forall>j. found = Some j \<longrightarrow> validate_persisted env j = Inr () \<and> gj_goal_id j = g)) \<and>
    (proposal_validate (ge_proposal_json env) p \<noteq> Inr () \<longrightarrow>
      submit_goal_proposal env js catalog now later g p ctx st =
        (Inl (InvalidState ''goal_proposal_invalid''), st))"
proof -
  have "rows_decode env (gs_goals st)"
    using goal_run_inv [OF assms] by (simp add: store_inv_def goal_inv_def)
  then have "goal_envelope_projection env st g =
      Inr (map_option gr_projection (row_of gr_goal_id (gs_goals st) g))" by (rule goal_read)
  moreover have "submit_goal_proposal env js catalog now later g p ctx st =
      (Inl (InvalidState ''goal_proposal_invalid''), st)"
    if "proposal_validate (ge_proposal_json env) p \<noteq> Inr ()"
    using that
    by (cases "proposal_validate (ge_proposal_json env) p")
       (simp_all add: submit_goal_proposal_def proposal_received_projection_def)
  ultimately show ?thesis using read_valid by metis
qed

lemma persist_goal_reads:
  assumes "persist_goal_projection env js now nxt st = Inr (j, st')" and "rows_decode env (gs_goals st)"
  shows "goal_envelope_projection env st' g = goal_envelope_projection env st g \<or>
    (g = gj_goal_id nxt \<and> goal_envelope_projection env st' g = Inr (Some nxt) \<and>
     (\<forall>c. goal_envelope_projection env st g = Inr (Some c) \<longrightarrow> goal_transition_allowed c nxt) \<and>
     (goal_envelope_projection env st g = Inr None \<longrightarrow> goal_status (gj_state nxt) = StatusProposalReceived))"
proof -
  note p = persist_goal_Inr [OF assms(1)]
  show ?thesis
  proof (cases "gs_goals st' = gs_goals st")
    case True
    then show ?thesis by (simp add: goal_envelope_projection_def)
  next
    case False
    then have w: "gs_goals st' = write_goal nxt now (gs_goals st)" using p by blast
    have d: "rows_decode env (gs_goals st')"
      using write_goal_decodes [OF assms(2)] p w by simp
    show ?thesis
      using goal_read [OF d, of g] goal_read [OF assms(2), of g] p False
      by (cases "g = gj_goal_id nxt") (auto simp: w write_goal_row)
  qed
qed

lemma unfrozen_write:
  assumes "persist_goal_projection env js now nxt st = Inr (j, st')" and "rows_decode env (gs_goals st)"
    and "goal_status (gj_state nxt) \<noteq> StatusFrozen"
    and "goal_envelope_projection env st' g = Inr (Some j')" and "gj_state j' = GoalFrozen f"
  shows "goal_envelope_projection env st g = Inr (Some j')"
  using persist_goal_reads [OF assms(1,2), of g] assms(3-5) by auto

text \<open>
  C40: A goal becomes frozen only from its own validation: whenever a step of a reachable store ends
  with a frozen goal, the goal was frozen with the same envelope before the step, or the step
  froze a goal that was stored as validated with this fingerprint, revision, envelope and
  receipt.
\<close>

theorem frozen_goal_was_validated:
  assumes "goal_initial st0" and "(goal_next env js)\<^sup>*\<^sup>* st0 st" and "goal_next env js st st'"
    and "goal_envelope_projection env st' g = Inr (Some j')" and "gj_state j' = GoalFrozen f"
  shows "\<exists>j. goal_envelope_projection env st g = Inr (Some j) \<and>
     (gj_state j = GoalFrozen f \<or>
      gj_state j = GoalValidated (fe_proposal_fingerprint f) (fe_revision f) (fe_envelope f) (fe_receipt f))"
proof -
  have d: "rows_decode env (gs_goals st)"
    using goal_run_inv [OF assms(1,2)] by (simp add: store_inv_def goal_inv_def)
  show ?thesis
    using assms(3)
  proof (cases rule: goal_next.cases)
    case (goal_submit catalog now later i p ctx result)
    have rcv: "goal_status (gj_state x) \<noteq> StatusFrozen" if "proposal_received_projection env i p = Inr x" for x
      using that by (auto simp: proposal_received_projection_def bind_res_Inr_iff)
    have val: "goal_status (gj_state x) \<noteq> StatusFrozen" if "validated_projection env catalog i p ctx = Inr x" for x
      using validated_projection_Inr(4) [OF that] by (simp add: validated_state_def Let_def)
    have "goal_envelope_projection env st g = Inr (Some j')"
    proof (cases "proposal_received_projection env i p")
      case (Inl a)
      then show ?thesis using goal_submit assms(4) by (simp add: submit_goal_proposal_def)
    next
      case r: (Inr x)
      show ?thesis
      proof (cases "persist_goal_projection env js now x st")
        case (Inl a)
        then show ?thesis using goal_submit assms(4) r by (simp add: submit_goal_proposal_def)
      next
        case p: (Inr q)
        obtain k st1 where q: "q = (k, st1)" by (cases q)
        have d1: "rows_decode env (gs_goals st1)"
          using persist_goal_Inr [OF p [unfolded q]] write_goal_decodes [OF d] d by auto
        have "goal_envelope_projection env st1 g = Inr (Some j')"
          using goal_submit assms(4,5) r p q val unfrozen_write [OF _ d1]
          by (auto simp: submit_goal_proposal_def split: sum.splits)
        then show ?thesis using unfrozen_write [OF p [unfolded q] d rcv [OF r]] assms(5) by blast
      qed
    qed
    then show ?thesis using assms(5) by blast
  next
    case (goal_freeze now i expected k)
    obtain current fz where c: "goal_envelope_projection env st i = Inr (Some current)"
      "frozen_projection env current expected = Inr fz" "persist_goal_projection env js now fz st = Inr (k, st')"
      using freeze_Inr [OF goal_freeze] by blast
    have "gj_goal_id fz = i"
      using c(2) read_valid [OF c(1)] by (auto simp: frozen_projection_def Let_def split: goal_state.splits if_splits)
    show ?thesis
    proof (cases "goal_envelope_projection env st' g = goal_envelope_projection env st g")
      case True
      then have "goal_envelope_projection env st g = Inr (Some j')" using assms(4) by simp
      then show ?thesis using assms(5) by blast
    next
      case False
      then have "g = i" "j' = fz"
        using persist_goal_reads [OF c(3) d, of g] assms(4) \<open>gj_goal_id fz = i\<close> by auto
      then show ?thesis using assms(5) c(1,2)
        by (auto simp: frozen_projection_def Let_def split: goal_state.splits if_splits)
    qed
  next
    case (goal_record now v out)
    have "gs_goals st' = gs_goals st"
      using record_completion_Inr [OF goal_record] persist_completion_Inr by blast
    then show ?thesis using assms(4,5) by (auto simp: goal_envelope_projection_def)
  next
    case (goal_exec x)
    then show ?thesis using assms(4,5) by (auto simp: goal_envelope_projection_def)
  qed
qed

text \<open>
  Submitting a proposal again does not disturb a frozen goal: if the same proposal validates in
  the same way, to the revision that is frozen, the submission returns the frozen goal and leaves
  the goals as they are.
\<close>

theorem resubmission_keeps_frozen_goal:
  assumes "goal_initial st0" and "(goal_next env js)\<^sup>*\<^sup>* st0 st"
    and "goal_envelope_projection env st g = Inr (Some j)" and "gj_state j = GoalFrozen f"
    and "validated_projection env catalog g p ctx = Inr v" and "validate_persisted env v = Inr ()"
    and "gj_state v = GoalValidated (fe_proposal_fingerprint f) (fe_revision f) e r"
  shows "\<exists>st'. submit_goal_proposal env js catalog now later g p ctx st = (Inr j, st') \<and>
     gs_goals st' = gs_goals st \<and> gs_completions st' = gs_completions st"
proof -
  have fp: "proposal_fingerprint env p = fe_proposal_fingerprint f"
    using validated_projection_Inr(4) [OF assms(5)] assms(7)
    by (auto simp: validated_state_def Let_def split: if_splits)
  have pv: "proposal_validate (ge_proposal_json env) p = Inr ()" and v: "gj_goal_id v = g"
    using validated_projection_Inr [OF assms(5)] by simp_all
  let ?r = "\<lparr>gj_schema_version = GOAL_LIFECYCLE_SCHEMA_VERSION, gj_goal_id = g,
    gj_state = GoalProposalReceived (fe_proposal_fingerprint f)\<rparr>"
  have rc: "proposal_received_projection env g p = Inr ?r"
    by (simp add: proposal_received_projection_def pv fp)
  have vr: "validate_persisted env ?r = Inr ()"
    using assms(6,7) by (auto simp: validate_persisted_def split: if_splits)
  define st1 where "st1 = insert_goal_kernel_event (projection_event env js now ?r) st"
  have 1: "persist_goal_projection env js now ?r st = Inr (j, st1)"
    by (simp add: persist_goal_projection_def vr assms(3,4) repeats_def st1_def Let_def)
  have "goal_envelope_projection env st1 g = Inr (Some j)"
    using assms(3) by (simp add: goal_envelope_projection_def st1_def)
  then have "persist_goal_projection env js later v st1 =
      Inr (j, insert_goal_kernel_event (projection_event env js later v) st1)"
    by (simp add: persist_goal_projection_def assms(4,6,7) v repeats_def Let_def)
  then show ?thesis by (simp add: submit_goal_proposal_def rc 1 assms(5) st1_def)
qed

section \<open>A concrete run\<close>

definition demo_goal_json :: goal_json where
  "demo_goal_json = \<lparr>gn_event = (\<lambda>j. ''{}''), gn_completion_event = (\<lambda>c. ''{}'')\<rparr>"

definition demo_start :: goal_store where
  "demo_start = \<lparr>gs_goals = [], gs_completions = [], gs_exec = blank\<rparr>"

definition demo_submitted :: goal_store where
  "demo_submitted = snd (submit_goal_proposal demo_goal_env demo_goal_json demo_goal_catalog 1 2 7
     demo_proposal demo_goal_context demo_start)"

definition demo_frozen_store :: goal_store where
  "demo_frozen_store =
     (case freeze_goal_envelope demo_goal_env demo_goal_json 3 7 demo_hash demo_submitted of
        Inr (j, st) \<Rightarrow> st | Inl e \<Rightarrow> demo_start)"

definition demo_run_tool :: "tool_status \<Rightarrow> tool_invocation" where
  "demo_run_tool s = demo_goal_tool\<lparr>ti_status := s, ti_request_fingerprint := ''f''\<rparr>"

definition demo_exec :: "nat \<Rightarrow> tool_status \<Rightarrow> goal_store \<Rightarrow> goal_store" where
  "demo_exec i s st =
     (case append_tool_invocation i (int i) (demo_run_tool s) (with_goals demo_goal_env st) of
        Inr x \<Rightarrow> st\<lparr>gs_exec := x\<rparr> | Inl e \<Rightarrow> demo_start)"

lemma demo_goal_valid: "validate_persisted demo_goal_env demo_goal = Inr ()"
proof -
  have "receipt_is_secret_free demo_goal_receipt"
    unfolding demo_goal_receipt_def
    by (rule receipt_stored [OF demo_proposal_valid demo_sha])
       (simp add: demo_goal_catalog_def goal_text_eval text_eval)
  moreover have "validated_envelope_is_secret_free demo_goal_env demo_envelope demo_goal_receipt"
    by (rule envelope_stored [OF demo_proposal_valid no_failures(1) [OF demo_no_failures] _
          demo_envelope_def demo_goal_receipt_def])
       (simp add: demo_goal_env_def goal_bounds)
  ultimately show ?thesis
    by (simp add: validate_persisted_def demo_goal_def demo_hash_valid revision_for_def demo_domain_hash
        demo_goal_receipt_def receipt_codes demo_no_failures proposal_fingerprint_def)
qed

lemma demo_frozen_valid: "validate_persisted demo_goal_env demo_frozen_goal = Inr ()"
  using demo_goal_valid
  by (auto simp: validate_persisted_def demo_goal_def demo_frozen_goal_def demo_frozen_def
      frozen_fingerprint_def demo_domain_hash split: if_splits)

definition demo_received :: goal_projection where
  "demo_received = \<lparr>gj_schema_version = GOAL_LIFECYCLE_SCHEMA_VERSION, gj_goal_id = 7,
     gj_state = GoalProposalReceived demo_hash\<rparr>"

lemma demo_received_facts:
  "proposal_received_projection demo_goal_env 7 demo_proposal = Inr demo_received"
  "validate_persisted demo_goal_env demo_received = Inr ()"
  by (simp_all add: proposal_received_projection_def demo_proposal_valid demo_received_def
      proposal_fingerprint_def demo_domain_hash validate_persisted_def demo_hash_valid)

text \<open>A write to an empty or one-row goal table.\<close>

lemma demo_persist:
  assumes "rows_decode demo_goal_env (gs_goals st)" and "validate_persisted demo_goal_env j = Inr ()"
    and "gj_goal_id j = 7"
    and "case row_of gr_goal_id (gs_goals st) 7 of None \<Rightarrow> goal_status (gj_state j) = StatusProposalReceived
         | Some w \<Rightarrow> \<not> repeats (gr_projection w) j \<and> goal_transition_allowed (gr_projection w) j"
  shows "persist_goal_projection demo_goal_env demo_goal_json now j st =
     Inr (j, insert_goal_kernel_event (projection_event demo_goal_env demo_goal_json now j)
       (st\<lparr>gs_goals := write_goal j now (gs_goals st)\<rparr>))"
  using assms goal_read [OF assms(1), of 7]
  by (cases "row_of gr_goal_id (gs_goals st) 7") (simp_all add: persist_goal_projection_def Let_def)

lemma demo_submit:
  "fst (submit_goal_proposal demo_goal_env demo_goal_json demo_goal_catalog 1 2 7 demo_proposal
     demo_goal_context demo_start) = Inr demo_goal"
  "gs_goals demo_submitted = [goal_row_for demo_goal 1 2]"
  "rows_decode demo_goal_env [goal_row_for demo_goal 1 2]"
proof -
  have 0: "rows_decode demo_goal_env (gs_goals demo_start)" by (simp add: demo_start_def rows_decode_def)
  have 1: "rows_decode demo_goal_env [goal_row_for demo_received 0 1]"
    using decode_row_for [OF demo_received_facts(2)] by (simp add: rows_decode_def)
  show 2: "rows_decode demo_goal_env [goal_row_for demo_goal 1 2]"
    using decode_row_for [OF demo_goal_valid] by (simp add: rows_decode_def)
  have w: "write_goal demo_received 1 [] = [goal_row_for demo_received 0 1]"
    "write_goal demo_goal 2 [goal_row_for demo_received 0 1] = [goal_row_for demo_goal 1 2]"
    by (simp_all add: write_goal_def upsert_row_def update_row_def row_of_Cons demo_received_def demo_goal_def
        goal_row_for_def)
  have p1: "persist_goal_projection demo_goal_env demo_goal_json 1 demo_received demo_start =
      Inr (demo_received, insert_goal_kernel_event (projection_event demo_goal_env demo_goal_json 1 demo_received)
        (demo_start\<lparr>gs_goals := [goal_row_for demo_received 0 1]\<rparr>))"
    by (subst demo_persist [OF 0 demo_received_facts(2)])
       (simp_all add: demo_start_def demo_received_def w [unfolded demo_received_def])
  have p2: "persist_goal_projection demo_goal_env demo_goal_json 2 demo_goal st =
      Inr (demo_goal, insert_goal_kernel_event (projection_event demo_goal_env demo_goal_json 2 demo_goal)
        (st\<lparr>gs_goals := [goal_row_for demo_goal 1 2]\<rparr>))"
    if "gs_goals st = [goal_row_for demo_received 0 1]" for st
    using that w(2) 1
    by (subst demo_persist [OF _ demo_goal_valid])
       (simp_all add: row_of_Cons repeats_def goal_transition_allowed_def demo_goal_def demo_received_def)
  show "fst (submit_goal_proposal demo_goal_env demo_goal_json demo_goal_catalog 1 2 7 demo_proposal
     demo_goal_context demo_start) = Inr demo_goal"
    "gs_goals demo_submitted = [goal_row_for demo_goal 1 2]"
    by (simp_all add: demo_submitted_def submit_goal_proposal_def demo_received_facts demo_validated p1 p2)
qed

lemma demo_freeze_step:
  "freeze_goal_envelope demo_goal_env demo_goal_json 3 7 demo_hash demo_submitted =
     Inr (demo_frozen_goal, demo_frozen_store)"
  "gs_goals demo_frozen_store = [goal_row_for demo_frozen_goal 2 3]"
proof -
  have g: "goal_envelope_projection demo_goal_env demo_submitted 7 = Inr (Some demo_goal)"
    using demo_submit(3)
    by (subst goal_read) (simp_all add: demo_submit(2) row_of_Cons, simp add: demo_goal_def)
  have w: "write_goal demo_frozen_goal 3 [goal_row_for demo_goal 1 2] = [goal_row_for demo_frozen_goal 2 3]"
    by (simp add: write_goal_def upsert_row_def update_row_def row_of_Cons demo_frozen_goal_def demo_goal_def
        goal_row_for_def)
  have p: "persist_goal_projection demo_goal_env demo_goal_json 3 demo_frozen_goal demo_submitted =
      Inr (demo_frozen_goal,
        insert_goal_kernel_event (projection_event demo_goal_env demo_goal_json 3 demo_frozen_goal)
        (demo_submitted\<lparr>gs_goals := [goal_row_for demo_frozen_goal 2 3]\<rparr>))"
    using demo_submit(2,3) w
    by (subst demo_persist [OF _ demo_frozen_valid])
       (simp_all add: row_of_Cons repeats_def goal_transition_allowed_def demo_goal_def demo_frozen_goal_def
         demo_frozen_def)
  then show f: "freeze_goal_envelope demo_goal_env demo_goal_json 3 7 demo_hash demo_submitted =
     Inr (demo_frozen_goal, demo_frozen_store)"
    by (simp add: demo_frozen_store_def freeze_goal_envelope_def g demo_freeze)
  show "gs_goals demo_frozen_store = [goal_row_for demo_frozen_goal 2 3]"
    using p by (simp add: demo_frozen_store_def freeze_goal_envelope_def g demo_freeze)
qed

definition demo_ran :: goal_store where
  "demo_ran = demo_exec 101 ToolSucceeded (demo_exec 100 ToolRunning demo_frozen_store)"

definition demo_done :: goal_store where
  "demo_done =
     (case record_goal_completion_for_tool_invocation demo_goal_env demo_goal_json 5
             (demo_run_tool ToolSucceeded) demo_ran of
        Inr (c, st) \<Rightarrow> st | Inl e \<Rightarrow> demo_start)"

lemma demo_frozen_read:
  "gs_goals st = [goal_row_for demo_frozen_goal 2 3] \<Longrightarrow>
     goal_envelope_projection demo_goal_env st 7 = Inr (Some demo_frozen_goal)"
  using decode_row_for [OF demo_frozen_valid]
  by (simp add: goal_envelope_projection_def row_of_Cons) (simp add: demo_frozen_goal_def)

lemma demo_event_id: "1000 < deterministic_uuid demo_goal_env d v"
proof -
  have "replicate 16 (code (CHR ''a'')) = [97, 97, 97, 97, 97, 97, 97, 97, 97, 97, 97, 97, 97, 97, 97, 97]"
    by (simp add: numeral_eq_Suc code_def)
  then show ?thesis by (simp add: deterministic_uuid_def demo_goal_env_def)
qed

lemma demo_event_id_100: "100 \<le> deterministic_uuid demo_goal_env d v"
  using demo_event_id [of d v] by simp

lemma persist_goal_shape:
  assumes "persist_goal_projection env js now j st = Inr (k, st')"
  shows "\<exists>gs. st' = insert_goal_kernel_event (projection_event env js now j) (st\<lparr>gs_goals := gs\<rparr>)"
proof -
  have same: "\<exists>gs. insert_goal_kernel_event e st = insert_goal_kernel_event e (st\<lparr>gs_goals := gs\<rparr>)" for e
    by (rule exI [of _ "gs_goals st"]) simp
  obtain found where "goal_envelope_projection env st (gj_goal_id j) = Inr found"
    using assms by (auto simp: persist_goal_projection_def bind_res_Inr_iff)
  then show ?thesis using assms same
    by (cases found) (auto simp: persist_goal_projection_def Let_def bind_res_Inr_iff split: if_splits)
qed

lemma demo_events_frozen:
  "\<forall>e \<in> set (xs_events (gs_exec demo_frozen_store)). 1000 < ke_id e"
  "xs_tools (gs_exec demo_frozen_store) = []" "xs_bindings (gs_exec demo_frozen_store) = []"
  "xs_applied (gs_exec demo_frozen_store) = []" "gs_completions demo_frozen_store = []"
proof -
  have frame: "xs_tools (gs_exec (insert_goal_kernel_event e st)) = xs_tools (gs_exec st)"
    "xs_bindings (gs_exec (insert_goal_kernel_event e st)) = xs_bindings (gs_exec st)"
    "xs_applied (gs_exec (insert_goal_kernel_event e st)) = xs_applied (gs_exec st)" for e st
    by (simp_all add: insert_goal_kernel_event_def)
  have keep: "x \<in> set (xs_events (gs_exec (insert_goal_kernel_event
        (projection_event demo_goal_env js now j) st))) \<Longrightarrow>
      x \<in> set (xs_events (gs_exec st)) \<or> 1000 < ke_id x" for x js now j st
    using demo_event_id by (auto simp: insert_goal_kernel_event_def projection_event_def Let_def split: if_splits)
  let ?ok = "\<lambda>st. (\<forall>e \<in> set (xs_events (gs_exec st)). 1000 < ke_id e) \<and> xs_tools (gs_exec st) = [] \<and>
    xs_bindings (gs_exec st) = [] \<and> xs_applied (gs_exec st) = [] \<and> gs_completions st = []"
  have persist: "?ok st'"
    if p: "persist_goal_projection demo_goal_env js now j st = Inr (k, st')" and ok: "?ok st"
    for js now j st k st'
  proof -
    obtain gs where "st' = insert_goal_kernel_event (projection_event demo_goal_env js now j) (st\<lparr>gs_goals := gs\<rparr>)"
      using persist_goal_shape [OF p] by blast
    then show ?thesis using keep ok by (fastforce simp: frame)
  qed
  have "?ok demo_submitted"
    unfolding demo_submitted_def submit_goal_proposal_def
    by (auto split: sum.splits prod.splits dest!: persist simp: demo_start_def blank_def)
  then have "?ok demo_frozen_store" using freeze_Inr [OF demo_freeze_step(1)] persist by blast
  then show "\<forall>e \<in> set (xs_events (gs_exec demo_frozen_store)). 1000 < ke_id e"
    "xs_tools (gs_exec demo_frozen_store) = []" "xs_bindings (gs_exec demo_frozen_store) = []"
    "xs_applied (gs_exec demo_frozen_store) = []" "gs_completions demo_frozen_store = []" by simp_all
qed

definition demo_binding_row :: goal_binding where
  "demo_binding_row = \<lparr>gb_invocation = 5, gb_goal = 7, gb_revision = demo_hash, gb_fingerprint = demo_hash,
     gb_request_fingerprint = ''f'', gb_bound_at = 100\<rparr>"

lemma demo_goals_view:
  assumes "gs_goals st = [goal_row_for demo_frozen_goal 2 3]"
  shows "xs_goals (with_goals demo_goal_env st) 7 =
     Inr (Some (Some \<lparr>fv_revision = demo_hash, fv_fingerprint = demo_hash\<rparr>))"
  by (simp add: with_goals_def demo_frozen_read [OF assms] demo_frozen_parts)

lemma demo_run_tool_fields:
  "ti_id (demo_run_tool s) = 5" "ti_run_id (demo_run_tool s) = Some 7" "ti_status (demo_run_tool s) = s"
  "ti_request_fingerprint (demo_run_tool s) = ''f''" "tv_passed (ti_verification (demo_run_tool s))"
  by (simp_all add: demo_run_tool_def demo_goal_tool_def)

lemma demo_running:
  fixes st defines "x \<equiv> with_goals demo_goal_env st"
  assumes "gs_goals st = [goal_row_for demo_frozen_goal 2 3]" and "xs_tools (gs_exec st) = []"
    and "xs_bindings (gs_exec st) = []" and "xs_applied (gs_exec st) = []"
    and "100 \<notin> ke_id ` set (xs_events (gs_exec st))"
  shows "append_tool_invocation 100 100 (demo_run_tool ToolRunning) x = Inr (x\<lparr>
     xs_bindings := [demo_binding_row],
     xs_events := xs_events x @ [\<lparr>ke_id = 100, ke_payload = ToolRecorded (demo_run_tool ToolRunning),
       ke_created_at = 100\<rparr>],
     xs_applied := [100],
     xs_tools := [\<lparr>tr_invocation = demo_run_tool ToolRunning, tr_revision = 0, tr_created_at = 100,
       tr_updated_at = 100\<rparr>]\<rparr>)"
proof -
  have f: "xs_tools x = []" "xs_bindings x = []" "xs_applied x = []" "100 \<notin> ke_id ` set (xs_events x)"
    using assms(3-6) by (simp_all add: x_def with_goals_def)
  have g: "xs_goals x 7 = Inr (Some (Some \<lparr>fv_revision = demo_hash, fv_fingerprint = demo_hash\<rparr>))"
    unfolding x_def by (rule demo_goals_view [OF assms(2)])
  show ?thesis
    using f g
    by (simp add: append_tool_invocation_def demo_run_tool_fields bind_tool_goal_def goal_binding_row_def
        insert_kernel_event_def apply_execution_projection_def is_projected_def project_tool_def upsert_row_def
        demo_binding_row_def)
qed

lemma demo_succeeded:
  fixes st defines "x \<equiv> with_goals demo_goal_env st"
  assumes "xs_applied (gs_exec st) = [100]" and "101 \<notin> ke_id ` set (xs_events (gs_exec st))"
    and "xs_tools (gs_exec st) = [\<lparr>tr_invocation = demo_run_tool ToolRunning, tr_revision = 0,
       tr_created_at = 100, tr_updated_at = 100\<rparr>]"
  shows "append_tool_invocation 101 101 (demo_run_tool ToolSucceeded) x = Inr (x\<lparr>
     xs_events := xs_events x @ [\<lparr>ke_id = 101, ke_payload = ToolRecorded (demo_run_tool ToolSucceeded),
       ke_created_at = 101\<rparr>],
     xs_applied := [100, 101],
     xs_tools := [\<lparr>tr_invocation = demo_run_tool ToolSucceeded, tr_revision = 1, tr_created_at = 100,
       tr_updated_at = 101\<rparr>]\<rparr>)"
  using assms
  by (simp add: with_goals_def append_tool_invocation_def demo_run_tool_fields insert_kernel_event_def
      apply_execution_projection_def is_projected_def project_tool_def upsert_row_def update_row_def
      row_of_Cons tool_key_def)

lemma demo_ran_facts:
  "append_tool_invocation 100 100 (demo_run_tool ToolRunning) (with_goals demo_goal_env demo_frozen_store) =
     Inr (gs_exec (demo_exec 100 ToolRunning demo_frozen_store))"
  "append_tool_invocation 101 101 (demo_run_tool ToolSucceeded)
     (with_goals demo_goal_env (demo_exec 100 ToolRunning demo_frozen_store)) = Inr (gs_exec demo_ran)"
  "gs_goals demo_ran = [goal_row_for demo_frozen_goal 2 3]" "gs_completions demo_ran = []"
  "tool_invocation_by_id (gs_exec demo_ran) 5 = Inr (demo_run_tool ToolSucceeded)"
  "xs_bindings (gs_exec demo_ran) = [demo_binding_row]"
  "demo_exec 100 ToolRunning demo_frozen_store =
     demo_frozen_store\<lparr>gs_exec := gs_exec (demo_exec 100 ToolRunning demo_frozen_store)\<rparr>"
  "demo_ran = (demo_exec 100 ToolRunning demo_frozen_store)\<lparr>gs_exec := gs_exec demo_ran\<rparr>"
  "\<forall>e \<in> set (xs_events (gs_exec demo_ran)). 100 \<le> ke_id e"
proof -
  let ?s = "demo_exec 100 ToolRunning demo_frozen_store"
  have fresh: "100 \<notin> ke_id ` set (xs_events (gs_exec demo_frozen_store))"
    "101 \<notin> ke_id ` set (xs_events (gs_exec demo_frozen_store))"
    using demo_events_frozen(1) by force+
  note r = demo_running [OF demo_freeze_step(2) demo_events_frozen(2,3,4) fresh(1)]
  show 1: "append_tool_invocation 100 100 (demo_run_tool ToolRunning) (with_goals demo_goal_env demo_frozen_store) =
     Inr (gs_exec ?s)" "?s = demo_frozen_store\<lparr>gs_exec := gs_exec ?s\<rparr>"
    using r by (simp_all add: demo_exec_def)
  have s: "gs_exec ?s = (with_goals demo_goal_env demo_frozen_store)\<lparr>
     xs_bindings := [demo_binding_row],
     xs_events := xs_events (with_goals demo_goal_env demo_frozen_store) @
       [\<lparr>ke_id = 100, ke_payload = ToolRecorded (demo_run_tool ToolRunning), ke_created_at = 100\<rparr>],
     xs_applied := [100],
     xs_tools := [\<lparr>tr_invocation = demo_run_tool ToolRunning, tr_revision = 0, tr_created_at = 100,
       tr_updated_at = 100\<rparr>]\<rparr>" "gs_goals ?s = gs_goals demo_frozen_store"
      "gs_completions ?s = gs_completions demo_frozen_store"
    using r by (simp_all add: demo_exec_def)
  have fresh2: "101 \<notin> ke_id ` set (xs_events (gs_exec ?s))"
    using fresh(2) by (simp add: s(1) with_goals_def)
  have q: "append_tool_invocation 101 101 (demo_run_tool ToolSucceeded) (with_goals demo_goal_env ?s) =
    Inr ((with_goals demo_goal_env ?s)\<lparr>
     xs_events := xs_events (with_goals demo_goal_env ?s) @
       [\<lparr>ke_id = 101, ke_payload = ToolRecorded (demo_run_tool ToolSucceeded), ke_created_at = 101\<rparr>],
     xs_applied := [100, 101],
     xs_tools := [\<lparr>tr_invocation = demo_run_tool ToolSucceeded, tr_revision = 1, tr_created_at = 100,
       tr_updated_at = 101\<rparr>]\<rparr>)"
    by (rule demo_succeeded [OF _ fresh2]) (simp_all add: s(1))
  show "append_tool_invocation 101 101 (demo_run_tool ToolSucceeded) (with_goals demo_goal_env ?s) =
      Inr (gs_exec demo_ran)" "demo_ran = ?s\<lparr>gs_exec := gs_exec demo_ran\<rparr>"
    using q by (simp_all add: demo_ran_def demo_exec_def [of 101])
  have x: "gs_exec demo_ran = (with_goals demo_goal_env ?s)\<lparr>
     xs_events := xs_events (with_goals demo_goal_env ?s) @
       [\<lparr>ke_id = 101, ke_payload = ToolRecorded (demo_run_tool ToolSucceeded), ke_created_at = 101\<rparr>],
     xs_applied := [100, 101],
     xs_tools := [\<lparr>tr_invocation = demo_run_tool ToolSucceeded, tr_revision = 1, tr_created_at = 100,
       tr_updated_at = 101\<rparr>]\<rparr>"
    using q by (simp add: demo_ran_def demo_exec_def [of 101])
  show "gs_goals demo_ran = [goal_row_for demo_frozen_goal 2 3]" "gs_completions demo_ran = []"
    using q s(2,3) demo_freeze_step(2) demo_events_frozen(5) by (simp_all add: demo_ran_def demo_exec_def [of 101])
  show "tool_invocation_by_id (gs_exec demo_ran) 5 = Inr (demo_run_tool ToolSucceeded)"
    by (simp add: x tool_invocation_by_id_def row_of_Cons tool_key_def demo_run_tool_fields)
  show "xs_bindings (gs_exec demo_ran) = [demo_binding_row]"
    by (simp add: x with_goals_def s(1))
  show "\<forall>e \<in> set (xs_events (gs_exec demo_ran)). 100 \<le> ke_id e"
    using demo_events_frozen(1) by (fastforce simp: x s(1) with_goals_def)
qed

definition demo_receipt_row :: completion_evidence where
  "demo_receipt_row = (demo_evidence EvidencePassed)
     \<lparr>ce_evidence_id := deterministic_uuid demo_goal_env COMPLETION_EVIDENCE_DOMAIN
       (''u'' @ NUL @ ''u'' @ NUL @ demo_hash @ NUL @ ''v1'')\<rparr>"

lemma demo_tool_receipts:
  "completion_evidence_from_tool_invocation demo_goal_env demo_frozen_goal (demo_run_tool ToolSucceeded) =
     Inr [demo_receipt_row]"
proof -
  have k: "evidence_kinds (demo_run_tool ToolSucceeded) = [''file'']"
    by (simp add: evidence_kinds_def demo_run_tool_def demo_goal_tool_def sorted_set_def
        safe_contract_token_def goal_text_eval text_eval)
  have a: "invocation_matches_artifact demo_goal_env (demo_run_tool ToolSucceeded) ''a1''"
    by (simp add: invocation_matches_artifact_def demo_run_tool_def demo_goal_tool_def text_eval)
  have r: "map ra_id (ve_required_artifacts (fe_envelope demo_frozen)) = [''a1'']"
    by (simp add: demo_frozen_def demo_envelope_def normalized_envelope_def demo_proposal_def)
  have u: "ge_uuid_text demo_goal_env i = ''u''" for i by (simp add: demo_goal_env_def)
  show ?thesis
    unfolding completion_evidence_from_tool_invocation_def demo_frozen_parts option_tests bind_res_simps
      Let_def k r u demo_run_tool_fields
    by (simp add: a demo_domain_hash demo_receipt_row_def demo_evidence_def demo_run_tool_fields)
       (simp add: demo_proposal_def)
qed

lemma demo_receipt_complete: "complete_evidence 7 demo_frozen {demo_receipt_row}"
proof -
  have "good_evidence 7 demo_frozen demo_receipt_row"
    using demo_evidence_good [of EvidencePassed]
    by (simp add: demo_receipt_row_def good_evidence_def well_formed_evidence_def)
  then show ?thesis
    by (simp add: complete_evidence_def demo_frozen_parts)
       (simp add: demo_receipt_row_def demo_evidence_def demo_proposal_def)
qed

lemma demo_recorded:
  obtains c where
    "record_goal_completion_for_tool_invocation demo_goal_env demo_goal_json 5 (demo_run_tool ToolSucceeded)
       demo_ran = Inr (Some c, demo_done)"
    "cj_status c = Complete" "gs_goals demo_done = [goal_row_for demo_frozen_goal 2 3]"
    "row_of cw_goal_id (gs_completions demo_done) 7 = Some (completion_row_for c 0 5)" "cj_goal_id c = 7"
    "completion_projection demo_goal_env demo_frozen_goal (cj_evidence c) = Inr c"
    "cj_revision c = demo_hash" "cj_frozen_fingerprint c = demo_hash"
    "\<forall>e \<in> set (xs_events (gs_exec demo_done)). 100 \<le> ke_id e"
proof -
  obtain c where c: "completion_projection demo_goal_env demo_frozen_goal [demo_receipt_row] = Inr c"
    unfolding completion_projection_def demo_frozen_parts by (simp add: goal_bounds Let_def)
  have ev: "cj_evidence c = [demo_receipt_row]"
    by (rule completion_projection_Inr [OF c]) simp
  have meta: "cj_goal_id c = 7 \<and> cj_revision c = demo_hash \<and> cj_frozen_fingerprint c = demo_hash \<and>
      cj_schema_version c = GOAL_COMPLETION_SCHEMA_VERSION"
    by (rule completion_projection_Inr [OF c]) (simp add: demo_frozen_parts)
  have done_: "cj_status c = Complete"
    using completion_status_iff [OF c demo_frozen_parts(5)] demo_receipt_complete
    by (simp add: demo_frozen_parts)
  have v: "validate_against demo_goal_env c demo_frozen_goal = Inr ()"
    using meta ev c by (simp add: validate_against_def demo_frozen_parts)
  have b: "require_current_binding (gs_exec demo_ran) (demo_run_tool ToolSucceeded) 7 demo_frozen = Inr ()"
    by (simp add: require_current_binding_def goal_binding_row_def demo_ran_facts(3-6) row_of_Cons
        demo_binding_row_def demo_run_tool_fields demo_frozen_parts)
  have none: "goal_completion_projection demo_goal_env demo_ran 7 = Inr None"
    by (simp add: goal_completion_projection_def demo_ran_facts(3-6))
  have p: "persist_goal_completion_projection demo_goal_env demo_goal_json 5 demo_frozen_goal c demo_ran =
      Inr (c, insert_goal_kernel_event (completion_event demo_goal_env demo_goal_json 5 c)
        (demo_ran\<lparr>gs_completions := [completion_row_for c 0 5]\<rparr>))"
    by (simp add: persist_goal_completion_projection_def v demo_ran_facts(3-6) write_completion_def upsert_row_def)
  have r: "record_goal_completion_for_tool_invocation demo_goal_env demo_goal_json 5
        (demo_run_tool ToolSucceeded) demo_ran =
      Inr (Some c, insert_goal_kernel_event (completion_event demo_goal_env demo_goal_json 5 c)
        (demo_ran\<lparr>gs_completions := [completion_row_for c 0 5]\<rparr>))"
    by (simp add: record_goal_completion_for_tool_invocation_def demo_run_tool_fields demo_ran_facts(3-6)
        demo_frozen_read [OF demo_ran_facts(3)] demo_frozen_parts b demo_tool_receipts none c p)
  then have d: "demo_done = insert_goal_kernel_event (completion_event demo_goal_env demo_goal_json 5 c)
        (demo_ran\<lparr>gs_completions := [completion_row_for c 0 5]\<rparr>)" by (simp add: demo_done_def)
  have "100 \<le> ke_id (completion_event demo_goal_env demo_goal_json 5 c)"
    unfolding completion_event_def Let_def kernel_event.select_convs by (rule demo_event_id_100)
  then have ids: "\<forall>e \<in> set (xs_events (gs_exec demo_done)). 100 \<le> ke_id e"
    using demo_ran_facts(9) by (auto simp: d insert_goal_kernel_event_def)
  show thesis
    by (rule that [of c, OF _ _ _ _ _ _ _ _ ids])
       (use r done_ meta c ev in \<open>simp_all add: d demo_ran_facts(3-6) row_of_Cons completion_row_for_def\<close>)
qed

lemma demo_run_steps:
  "goal_initial demo_start" "(goal_next demo_goal_env demo_goal_json)\<^sup>*\<^sup>* demo_start demo_submitted"
  "goal_next demo_goal_env demo_goal_json demo_submitted demo_frozen_store"
  "(goal_next demo_goal_env demo_goal_json)\<^sup>*\<^sup>* demo_start demo_done"
proof -
  show "goal_initial demo_start" by (simp add: goal_initial_def demo_start_def)
  have 1: "goal_next demo_goal_env demo_goal_json demo_start demo_submitted"
    by (rule goal_submit [where result = "Inr demo_goal"])
       (use demo_submit(1) in \<open>simp add: demo_submitted_def prod_eq_iff\<close>)
  show 2: "goal_next demo_goal_env demo_goal_json demo_submitted demo_frozen_store"
    by (rule goal_freeze [OF demo_freeze_step(1)])
  have 3: "goal_next demo_goal_env demo_goal_json demo_frozen_store (demo_exec 100 ToolRunning demo_frozen_store)"
    by (subst demo_ran_facts(7), rule goal_exec, rule next_tool, rule demo_ran_facts(1))
  have 4: "goal_next demo_goal_env demo_goal_json (demo_exec 100 ToolRunning demo_frozen_store) demo_ran"
    by (subst demo_ran_facts(8), rule goal_exec, rule next_tool, rule demo_ran_facts(2))
  have 5: "goal_next demo_goal_env demo_goal_json demo_ran demo_done"
    by (rule demo_recorded) (rule goal_record)
  show "(goal_next demo_goal_env demo_goal_json)\<^sup>*\<^sup>* demo_start demo_submitted" using 1 by simp
  then show "(goal_next demo_goal_env demo_goal_json)\<^sup>*\<^sup>* demo_start demo_done"
    using 2 3 4 5 by (meson rtranclp.rtrancl_into_rtrancl)
qed

lemma demo_classified:
  obtains receipt where "\<And>blocker. classify_agent_run_completion_from_connection demo_goal_env blocker demo_done 7
      = Inr (ExactComplete receipt)" and "goal_envelope_projection demo_goal_env demo_done 7 = Inr (Some demo_frozen_goal)"
    "\<forall>e \<in> set (xs_events (gs_exec demo_done)). 100 \<le> ke_id e"
proof (rule demo_recorded)
  fix c assume r: "cj_status c = Complete" "gs_goals demo_done = [goal_row_for demo_frozen_goal 2 3]"
    "row_of cw_goal_id (gs_completions demo_done) 7 = Some (completion_row_for c 0 5)" "cj_goal_id c = 7"
    "completion_projection demo_goal_env demo_frozen_goal (cj_evidence c) = Inr c"
    "cj_revision c = demo_hash" "cj_frozen_fingerprint c = demo_hash"
    and ids: "\<forall>e \<in> set (xs_events (gs_exec demo_done)). 100 \<le> ke_id e"
  have s: "cj_schema_version c = GOAL_COMPLETION_SCHEMA_VERSION"
    by (rule completion_projection_Inr [OF r(5)]) simp
  have "cj_receipt c \<noteq> None"
    by (rule completion_projection_Inr [OF r(5)]) (simp add: r(1))
  then obtain receipt where rc: "cj_receipt c = Some receipt" by blast
  have "goal_completion_projection demo_goal_env demo_done 7 = Inr (Some c)"
    by (simp add: goal_completion_projection_def r decode_goal_completion_projection_def completion_row_for_def
        s demo_frozen_read [OF r(2)] demo_frozen_parts validate_against_def)
  then have "classify_agent_run_completion_from_connection demo_goal_env blocker demo_done 7
      = Inr (ExactComplete receipt)" for blocker
    by (simp add: classify_agent_run_completion_from_connection_def demo_frozen_read [OF r(2)]
        demo_frozen_parts r(1) rc)
  then show thesis using that demo_frozen_read [OF r(2)] ids by blast
qed

theorem complete_run_has_recorded_evidence_witness:
  "\<exists>receipt v. classify_agent_run_completion_from_connection demo_goal_env (\<lambda>_. Inr None) demo_done 7
      = Inr (ExactComplete receipt) \<and>
    ToolRecorded v \<in> ke_payload ` set (xs_events (gs_exec demo_done)) \<and> ti_status v = ToolSucceeded"
proof (rule demo_classified)
  fix receipt
  assume cl: "\<And>blocker. classify_agent_run_completion_from_connection demo_goal_env blocker demo_done 7
      = Inr (ExactComplete receipt)"
    and g: "goal_envelope_projection demo_goal_env demo_done 7 = Inr (Some demo_frozen_goal)"
  obtain j f where "goal_envelope_projection demo_goal_env demo_done 7 = Inr (Some j)"
    "gj_state j = GoalFrozen f"
    "\<forall>w \<in> set (ve_verifiers (fe_envelope f)). \<exists>v. ToolRecorded v \<in> ke_payload ` set (xs_events (gs_exec demo_done)) \<and>
        ti_status v = ToolSucceeded"
    using complete_run_has_recorded_evidence [OF demo_run_steps(1,4) cl] by blast
  moreover have "ve_verifiers (fe_envelope demo_frozen) \<noteq> []"
    by (simp add: demo_frozen_parts demo_proposal_def)
  ultimately show ?thesis
    using cl g by (fastforce simp: demo_frozen_goal_def neq_Nil_conv)
qed

theorem goal_reads_succeed_witness:
  "goal_envelope_projection demo_goal_env demo_submitted 7 = Inr (Some demo_goal) \<and>
   validate_persisted demo_goal_env demo_goal = Inr ()"
proof -
  have "goal_envelope_projection demo_goal_env demo_submitted 7 = Inr (Some demo_goal)"
    using demo_submit(3)
    by (subst goal_read) (simp_all add: demo_submit(2) row_of_Cons, simp add: demo_goal_def)
  then show ?thesis
    using goal_reads_succeed [OF demo_run_steps(1,2), of 7] by auto
qed

theorem frozen_goal_was_validated_witness:
  "\<exists>j. goal_envelope_projection demo_goal_env demo_submitted 7 = Inr (Some j) \<and>
     (gj_state j = GoalFrozen demo_frozen \<or>
      gj_state j = GoalValidated demo_hash demo_hash demo_envelope demo_goal_receipt)"
proof -
  have "gj_state demo_frozen_goal = GoalFrozen demo_frozen" by (simp add: demo_frozen_goal_def)
  then have "\<exists>j. goal_envelope_projection demo_goal_env demo_submitted 7 = Inr (Some j) \<and>
     (gj_state j = GoalFrozen demo_frozen \<or>
      gj_state j = GoalValidated (fe_proposal_fingerprint demo_frozen) (fe_revision demo_frozen)
        (fe_envelope demo_frozen) (fe_receipt demo_frozen))"
    by (rule frozen_goal_was_validated [OF demo_run_steps(1,2,3) demo_frozen_read [OF demo_freeze_step(2)]])
  then show ?thesis by (simp add: demo_frozen_def)
qed

theorem resubmission_keeps_frozen_goal_witness:
  "fst (submit_goal_proposal demo_goal_env demo_goal_json demo_goal_catalog 8 9 7 demo_proposal
     demo_goal_context demo_frozen_store) = Inr demo_frozen_goal"
proof -
  have run: "(goal_next demo_goal_env demo_goal_json)\<^sup>*\<^sup>* demo_start demo_frozen_store"
    using demo_run_steps(2,3) by (rule rtranclp.rtrancl_into_rtrancl)
  have st: "gj_state demo_frozen_goal = GoalFrozen demo_frozen" by (simp add: demo_frozen_goal_def)
  have v: "gj_state demo_goal = GoalValidated (fe_proposal_fingerprint demo_frozen) (fe_revision demo_frozen)
      demo_envelope demo_goal_receipt" by (simp add: demo_goal_def demo_frozen_def)
  show ?thesis
    using resubmission_keeps_frozen_goal [OF demo_run_steps(1) run demo_frozen_read [OF demo_freeze_step(2)]
        st demo_validated demo_goal_valid v, of 8 9] by auto
qed

end
