(* ===== verification/Goal_Continuation.thy ===== *)
theory Goal_Continuation
  imports Goal_Store "HOL-Library.Product_Lexorder"
begin

text \<open>
  The goal loop, \<open>kernel/goal_continuation.rs\<close>: after every model answer and every round of
  tools a checkpoint counts what the run has used, compares the gaps of the completion with the
  gaps before, and says whether the loop goes on, is complete or is blocked. The JSON texts that
  are hashed are the parameters of \<open>loop_json\<close>; SHA-256 is that of \<open>goal_env\<close>.
\<close>

section \<open>Constants\<close>

definition CONTEXT_CHECKPOINT_VERSION :: string where
  "CONTEXT_CHECKPOINT_VERSION = ''ds-agent.context-checkpoint/v1''"
definition GAP_FINGERPRINT_DOMAIN :: string where
  "GAP_FINGERPRINT_DOMAIN = nul_ended ''ds-agent.goal-gap-fingerprint.v1''"
definition GAP_SET_FINGERPRINT_DOMAIN :: string where
  "GAP_SET_FINGERPRINT_DOMAIN = nul_ended ''ds-agent.goal-gap-set-fingerprint.v1''"
definition CHECKPOINT_FINGERPRINT_DOMAIN :: string where
  "CHECKPOINT_FINGERPRINT_DOMAIN = nul_ended ''ds-agent.context-checkpoint-fingerprint.v1''"
definition IDENTITY_FINGERPRINT_DOMAIN :: string where
  "IDENTITY_FINGERPRINT_DOMAIN = nul_ended ''ds-agent.context-identity-fingerprint.v1''"
definition TOOL_ROUND_FINGERPRINT_DOMAIN :: string where
  "TOOL_ROUND_FINGERPRINT_DOMAIN = nul_ended ''ds-agent.context-tool-round-fingerprint.v1''"
definition MAX_CHECKPOINT_IDENTITIES :: nat where
  "MAX_CHECKPOINT_IDENTITIES = 1024"

section \<open>Data\<close>

datatype observation_stage = InitialModel | AfterToolRound | AfterModelFollowup | Final

record model_usage =
  mu_request_id :: uuid
  mu_elapsed_ms :: u64
  mu_total_tokens :: "u32 option"
  mu_estimated_cost_micro_usd :: "u64 option"

record tool_usage =
  tu_invocation_id :: uuid
  tu_elapsed_ms :: u64

record loop_observation =
  lo_stage :: observation_stage
  lo_local_tool_round :: u32
  lo_model_usage :: "model_usage list"
  lo_tool_usage :: "tool_usage list"
  lo_observed_at :: instant

record goal_gap =
  gg_code :: string
  gg_goal_revision :: string
  gg_frozen_fingerprint :: string
  gg_fingerprint :: string

record budget_limits =
  bl_max_model_rounds :: u32
  bl_max_tool_rounds :: u32
  bl_max_elapsed_ms :: u64
  bl_max_tokens :: u64
  bl_max_cost_micro_usd :: u64
  bl_max_consecutive_non_improvement :: u32

definition default_limits :: budget_limits where
  "default_limits =
     \<lparr>bl_max_model_rounds = 5, bl_max_tool_rounds = 4, bl_max_elapsed_ms = 15 * 60 * 1000,
      bl_max_tokens = 64000, bl_max_cost_micro_usd = 5000000,
      bl_max_consecutive_non_improvement = 2\<rparr>"

record loop_budget =
  lb_limits :: budget_limits
  lb_model_rounds :: u32
  lb_tool_rounds :: u32
  lb_elapsed_ms :: u64
  lb_tokens :: u64
  lb_cost_micro_usd :: u64
  lb_token_unknown_rounds :: u32
  lb_cost_unknown_rounds :: u32
  lb_evidence_total :: u32
  lb_new_evidence_count :: u32
  lb_consecutive_non_improvement :: u32
  lb_accounted_model_request_ids :: "uuid list"
  lb_accounted_tool_invocation_ids :: "uuid list"
  lb_accounted_tool_round_fingerprints :: "string list"
  lb_accounted_evidence_ids :: "uuid list"

definition default_budget :: loop_budget where
  "default_budget =
     \<lparr>lb_limits = default_limits, lb_model_rounds = 0, lb_tool_rounds = 0, lb_elapsed_ms = 0,
      lb_tokens = 0, lb_cost_micro_usd = 0, lb_token_unknown_rounds = 0,
      lb_cost_unknown_rounds = 0, lb_evidence_total = 0, lb_new_evidence_count = 0,
      lb_consecutive_non_improvement = 0, lb_accounted_model_request_ids = [],
      lb_accounted_tool_invocation_ids = [], lb_accounted_tool_round_fingerprints = [],
      lb_accounted_evidence_ids = []\<rparr>"

datatype blocker_code =
    ModelRoundBudgetExhausted | ToolRoundBudgetExhausted | ElapsedBudgetExhausted
  | TokenBudgetExhausted | CostBudgetExhausted | NoNewEvidence | RepeatedGaps

fun blocker_code_text :: "blocker_code \<Rightarrow> string" where
  "blocker_code_text ModelRoundBudgetExhausted = ''model_round_budget_exhausted''"
| "blocker_code_text ToolRoundBudgetExhausted = ''tool_round_budget_exhausted''"
| "blocker_code_text ElapsedBudgetExhausted = ''elapsed_budget_exhausted''"
| "blocker_code_text TokenBudgetExhausted = ''token_budget_exhausted''"
| "blocker_code_text CostBudgetExhausted = ''cost_budget_exhausted''"
| "blocker_code_text NoNewEvidence = ''no_new_evidence''"
| "blocker_code_text RepeatedGaps = ''repeated_gaps''"

record blocker =
  bk_code :: blocker_code
  bk_gap_fingerprint :: string
  bk_model_rounds :: u32
  bk_tool_rounds :: u32
  bk_elapsed_ms :: u64
  bk_tokens :: u64
  bk_cost_micro_usd :: u64
  bk_evidence_total :: u32

definition stable_reason :: "blocker \<Rightarrow> string" where
  "stable_reason b = ''goal_continuation_'' @ blocker_code_text (bk_code b)"

datatype checkpoint_status = CheckpointContinue | CheckpointComplete | CheckpointBlocked

record authorization_identity =
  au_group_id :: uuid
  au_task_id :: uuid
  au_projection_revision :: u64
  au_manifest_revision :: string
  au_manifest_fingerprint :: string
  au_preview_hash :: string
  au_status :: string
  au_request_fingerprints :: "string list"

record resource_identity =
  re_claim_id :: uuid
  re_tool_invocation_id :: uuid
  re_access :: string
  re_key_fingerprint :: string
  re_lease_expires_at :: instant

record artifact_identity =
  ai_artifact_id :: string
  ai_kind :: string
  ai_fingerprint :: string

record source_identity =
  so_invocation_id :: uuid
  so_tool_id :: string
  so_tool_version :: string
  so_request_fingerprint :: string
  so_source_fingerprint :: string

record checkpoint_seed =
  sd_run_id :: uuid
  sd_goal :: frozen_envelope
  sd_completion :: goal_completion
  sd_authorizations :: "authorization_identity list"
  sd_resources :: "resource_identity list"
  sd_artifacts :: "artifact_identity list"
  sd_sources :: "source_identity list"

text \<open>The part of a checkpoint that its fingerprint covers, and the whole checkpoint.\<close>

record context_canonical =
  ck_version :: string
  ck_run_id :: uuid
  ck_goal :: frozen_envelope
  ck_constraints :: "string list"
  ck_authorizations :: "authorization_identity list"
  ck_evidence :: "completion_evidence list"
  ck_gaps :: "goal_gap list"
  ck_gap_fingerprint :: string
  ck_resources :: "resource_identity list"
  ck_artifacts :: "artifact_identity list"
  ck_sources :: "source_identity list"
  ck_budget :: loop_budget
  ck_status :: checkpoint_status
  ck_blocker :: "blocker option"

record context_checkpoint = context_canonical +
  ck_fingerprint :: string
  ck_created_at :: instant
  ck_updated_at :: instant

record loop_json =
  lj_gap :: "string \<Rightarrow> string \<Rightarrow> string \<Rightarrow> string"
  lj_gap_set :: "string \<Rightarrow> string \<Rightarrow> string list \<Rightarrow> string"
  lj_round :: "uuid \<Rightarrow> string \<Rightarrow> string \<Rightarrow> u32 \<Rightarrow> uuid list \<Rightarrow> uuid list \<Rightarrow> string"
  lj_checkpoint :: "context_canonical \<Rightarrow> string"
  lj_prompt :: "context_checkpoint \<Rightarrow> string"

section \<open>Texts, sorting and saturation\<close>

definition safe_code :: "string \<Rightarrow> bool" where
  "safe_code v \<longleftrightarrow>
     (let v = trim v in
      v \<noteq> [] \<and> length v \<le> 160
      \<and> list_all (\<lambda>c. is_alnum c \<or> c = CHR ''.'' \<or> c = CHR ''_'' \<or> c = CHR ''-'') v)"

text \<open>\<open>Vec::dedup_by_key\<close>: of consecutive items with one key the first is kept.\<close>

fun dedup_by_key :: "('a \<Rightarrow> 'k) \<Rightarrow> 'a list \<Rightarrow> 'a list" where
  "dedup_by_key key (x # y # xs) =
     (if key x = key y then dedup_by_key key (x # xs) else x # dedup_by_key key (y # xs))"
| "dedup_by_key key xs = xs"

definition sat_add :: "'a::len word \<Rightarrow> 'a word \<Rightarrow> 'a word" where
  "sat_add x y = (if x + y < x then - 1 else x + y)"

definition checked_inc :: "'a::len word \<Rightarrow> 'a word option" where
  "checked_inc x = (if x = - 1 then None else Some (x + 1))"

definition u32_of_len :: "nat \<Rightarrow> u32 option" where
  "u32_of_len n = (if n < 2 ^ 32 then Some (of_nat n) else None)"

definition u32_or_max :: "nat \<Rightarrow> u32" where
  "u32_or_max n = (case u32_of_len n of None \<Rightarrow> - 1 | Some w \<Rightarrow> w)"

text \<open>
  The items of a loop that skips nil ids and ids already in its set, adding the others to it.
\<close>

fun fresh_items :: "('a \<Rightarrow> uuid) \<Rightarrow> uuid set \<Rightarrow> 'a list \<Rightarrow> 'a list" where
  "fresh_items key seen [] = []"
| "fresh_items key seen (x # xs) =
     (if is_nil (key x) \<or> key x \<in> seen then fresh_items key seen xs
      else x # fresh_items key (insert (key x) seen) xs)"

text \<open>\<open>collect\<close> of results: the first error wins.\<close>

fun traverse_res :: "('a \<Rightarrow> 'e + 'b) \<Rightarrow> 'a list \<Rightarrow> 'e + 'b list" where
  "traverse_res f [] = Inr []"
| "traverse_res f (x # xs) =
     bind_res (f x) (\<lambda>y. bind_res (traverse_res f xs) (\<lambda>ys. Inr (y # ys)))"

section \<open>Fingerprints\<close>

definition identity_fingerprint :: "goal_env \<Rightarrow> string \<Rightarrow> string" where
  "identity_fingerprint env v = domain_hash env IDENTITY_FINGERPRINT_DOMAIN v"

definition gap_fingerprint :: "goal_env \<Rightarrow> loop_json \<Rightarrow> goal_gap \<Rightarrow> string res" where
  "gap_fingerprint env js g =
     (if \<not> safe_code (gg_code g) \<or> \<not> valid_hash (gg_goal_revision g)
         \<or> \<not> valid_hash (gg_frozen_fingerprint g)
      then Inl ''context_checkpoint_gap_invalid''
      else Inr (domain_hash env GAP_FINGERPRINT_DOMAIN
        (lj_gap js (gg_code g) (gg_goal_revision g) (gg_frozen_fingerprint g))))"

definition gap_set_fingerprint :: "goal_env \<Rightarrow> loop_json \<Rightarrow> frozen_envelope \<Rightarrow> goal_gap list \<Rightarrow> string" where
  "gap_set_fingerprint env js f gaps =
     domain_hash env GAP_SET_FINGERPRINT_DOMAIN
       (lj_gap_set js (fe_revision f) (fe_fingerprint f) (map gg_fingerprint gaps))"

definition gaps_from_completion ::
    "goal_env \<Rightarrow> loop_json \<Rightarrow> frozen_envelope \<Rightarrow> goal_completion \<Rightarrow> goal_gap list res" where
  "gaps_from_completion env js f c =
     traverse_res
       (\<lambda>t. let g = \<lparr>gg_code = t, gg_goal_revision = fe_revision f,
                     gg_frozen_fingerprint = fe_fingerprint f, gg_fingerprint = []\<rparr> in
         bind_res (gap_fingerprint env js g) (\<lambda>fp. Inr (g\<lparr>gg_fingerprint := fp\<rparr>)))
       (sorted_set (map completion_code_text (cj_failure_codes c)))"

definition recompute_fingerprint :: "goal_env \<Rightarrow> loop_json \<Rightarrow> context_checkpoint \<Rightarrow> string" where
  "recompute_fingerprint env js c =
     domain_hash env CHECKPOINT_FINGERPRINT_DOMAIN (lj_checkpoint js (context_canonical.truncate c))"

section \<open>Normal form of what is observed\<close>

definition normalize_seed :: "checkpoint_seed \<Rightarrow> checkpoint_seed res" where
  "normalize_seed s =
     (if length (sd_authorizations s) > MAX_CHECKPOINT_IDENTITIES
         \<or> length (cj_evidence (sd_completion s)) > MAX_CHECKPOINT_IDENTITIES
         \<or> length (sd_resources s) > MAX_CHECKPOINT_IDENTITIES
         \<or> length (sd_artifacts s) > MAX_CHECKPOINT_IDENTITIES
         \<or> length (sd_sources s) > MAX_CHECKPOINT_IDENTITIES
      then Inl ''context_checkpoint_identity_limit''
      else Inr (s\<lparr>
        sd_authorizations :=
          map (\<lambda>a. a\<lparr>au_request_fingerprints := sorted_set (au_request_fingerprints a)\<rparr>)
            (dedup_by_key au_group_id (sort_key au_group_id (sd_authorizations s))),
        sd_resources := dedup_by_key re_claim_id (sort_key re_claim_id (sd_resources s)),
        sd_artifacts := dedup_by_key (\<lambda>a. a)
          (sort_key (\<lambda>a. (ai_artifact_id a, ai_kind a, ai_fingerprint a)) (sd_artifacts s)),
        sd_sources := dedup_by_key so_invocation_id (sort_key so_invocation_id (sd_sources s))\<rparr>))"

definition normalize_observation :: "loop_observation \<Rightarrow> loop_observation res" where
  "normalize_observation obs =
     (if length (lo_model_usage obs) > MAX_CHECKPOINT_IDENTITIES
         \<or> length (lo_tool_usage obs) > MAX_CHECKPOINT_IDENTITIES
      then Inl ''context_checkpoint_observation_limit''
      else Inr (obs\<lparr>
        lo_model_usage := dedup_by_key mu_request_id (sort_key mu_request_id (lo_model_usage obs)),
        lo_tool_usage := dedup_by_key tu_invocation_id (sort_key tu_invocation_id (lo_tool_usage obs))\<rparr>))"

section \<open>Accounting\<close>

definition count_model :: "model_usage \<Rightarrow> loop_budget \<Rightarrow> loop_budget" where
  "count_model u b =
     (let b = b\<lparr>lb_model_rounds := sat_inc (lb_model_rounds b),
                lb_elapsed_ms := sat_add (lb_elapsed_ms b) (mu_elapsed_ms u)\<rparr>;
          b = (case mu_total_tokens u of
                 Some n \<Rightarrow> b\<lparr>lb_tokens := sat_add (lb_tokens b) (ucast n)\<rparr>
               | None \<Rightarrow> b\<lparr>lb_token_unknown_rounds := sat_inc (lb_token_unknown_rounds b)\<rparr>);
          b = (case mu_estimated_cost_micro_usd u of
                 Some n \<Rightarrow> b\<lparr>lb_cost_micro_usd := sat_add (lb_cost_micro_usd b) n\<rparr>
               | None \<Rightarrow> b\<lparr>lb_cost_unknown_rounds := sat_inc (lb_cost_unknown_rounds b)\<rparr>) in
      b\<lparr>lb_accounted_model_request_ids := lb_accounted_model_request_ids b @ [mu_request_id u]\<rparr>)"

definition account_model_usage :: "model_usage list \<Rightarrow> loop_budget \<Rightarrow> loop_budget" where
  "account_model_usage us b =
     (let b = fold count_model
                (fresh_items mu_request_id (set (lb_accounted_model_request_ids b)) us) b in
      b\<lparr>lb_accounted_model_request_ids := sort (lb_accounted_model_request_ids b)\<rparr>)"

definition count_tool :: "tool_usage \<Rightarrow> loop_budget \<Rightarrow> loop_budget" where
  "count_tool u b =
     b\<lparr>lb_elapsed_ms := sat_add (lb_elapsed_ms b) (tu_elapsed_ms u),
       lb_accounted_tool_invocation_ids := lb_accounted_tool_invocation_ids b @ [tu_invocation_id u]\<rparr>"

definition account_tool_usage :: "tool_usage list \<Rightarrow> loop_budget \<Rightarrow> loop_budget" where
  "account_tool_usage us b =
     (let b = fold count_tool
                (fresh_items tu_invocation_id (set (lb_accounted_tool_invocation_ids b)) us) b in
      b\<lparr>lb_accounted_tool_invocation_ids := sort (lb_accounted_tool_invocation_ids b)\<rparr>)"

definition account_evidence :: "completion_evidence list \<Rightarrow> loop_budget \<Rightarrow> u32 \<times> loop_budget" where
  "account_evidence es b =
     (let new = fresh_items ce_evidence_id (set (lb_accounted_evidence_ids b)) es in
      (fold (\<lambda>_. sat_inc) new 0,
       b\<lparr>lb_accounted_evidence_ids := sort (lb_accounted_evidence_ids b @ map ce_evidence_id new)\<rparr>))"

definition round_fingerprint ::
    "goal_env \<Rightarrow> loop_json \<Rightarrow> uuid \<Rightarrow> frozen_envelope \<Rightarrow> loop_observation \<Rightarrow> string" where
  "round_fingerprint env js run_id f obs =
     domain_hash env TOOL_ROUND_FINGERPRINT_DOMAIN
       (lj_round js run_id (fe_revision f) (fe_fingerprint f) (lo_local_tool_round obs)
          (sort (map mu_request_id (lo_model_usage obs)))
          (sort (map tu_invocation_id (lo_tool_usage obs))))"

definition account_tool_round ::
    "goal_env \<Rightarrow> loop_json \<Rightarrow> uuid \<Rightarrow> frozen_envelope \<Rightarrow> loop_observation \<Rightarrow> loop_budget
     \<Rightarrow> (bool \<times> loop_budget) res" where
  "account_tool_round env js run_id f obs b =
     (let fp = round_fingerprint env js run_id f obs in
      if fp \<in> set (lb_accounted_tool_round_fingerprints b) then Inr (False, b)
      else bind_res (ok_or (checked_inc (lb_tool_rounds b)) ''context_checkpoint_counter_overflow'')
        (\<lambda>n. Inr (True, b\<lparr>lb_tool_rounds := n,
           lb_accounted_tool_round_fingerprints :=
             sort (lb_accounted_tool_round_fingerprints b @ [fp])\<rparr>)))"

section \<open>What blocks the loop\<close>

definition exhausted :: "loop_budget \<Rightarrow> bool \<Rightarrow> blocker_code option" where
  "exhausted b new_tool_round =
     (let l = lb_limits b in
      if lb_model_rounds b \<ge> bl_max_model_rounds l then Some ModelRoundBudgetExhausted
      else if lb_tool_rounds b \<ge> bl_max_tool_rounds l then Some ToolRoundBudgetExhausted
      else if lb_elapsed_ms b \<ge> bl_max_elapsed_ms l then Some ElapsedBudgetExhausted
      else if lb_tokens b \<ge> bl_max_tokens l then Some TokenBudgetExhausted
      else if lb_cost_micro_usd b \<ge> bl_max_cost_micro_usd l then Some CostBudgetExhausted
      else if new_tool_round \<and> lb_evidence_total b = 0 then Some NoNewEvidence
      else if new_tool_round
              \<and> lb_consecutive_non_improvement b \<ge> bl_max_consecutive_non_improvement l
      then Some RepeatedGaps else None)"

definition blocker_for ::
    "completion_status \<Rightarrow> string \<Rightarrow> loop_budget \<Rightarrow> bool \<Rightarrow> blocker option" where
  "blocker_for status gap_fp b new_tool_round =
     (if status = Complete then None
      else map_option
        (\<lambda>blocked. \<lparr>bk_code = blocked, bk_gap_fingerprint = gap_fp,
           bk_model_rounds = lb_model_rounds b, bk_tool_rounds = lb_tool_rounds b,
           bk_elapsed_ms = lb_elapsed_ms b, bk_tokens = lb_tokens b,
           bk_cost_micro_usd = lb_cost_micro_usd b, bk_evidence_total = lb_evidence_total b\<rparr>)
        (exhausted b new_tool_round))"

section \<open>Checks\<close>

definition authorization_identity_valid :: "authorization_identity \<Rightarrow> uuid \<Rightarrow> bool" where
  "authorization_identity_valid a run_id \<longleftrightarrow>
     \<not> is_nil (au_group_id a) \<and> au_task_id a = run_id \<and> valid_hash (au_manifest_revision a)
     \<and> valid_hash (au_manifest_fingerprint a) \<and> valid_hash (au_preview_hash a)
     \<and> safe_code (au_status a) \<and> list_all valid_hash (au_request_fingerprints a)"

definition resource_identity_valid :: "resource_identity \<Rightarrow> bool" where
  "resource_identity_valid r \<longleftrightarrow>
     \<not> is_nil (re_claim_id r) \<and> \<not> is_nil (re_tool_invocation_id r)
     \<and> re_access r \<in> {''read'', ''write''} \<and> valid_hash (re_key_fingerprint r)"

definition artifact_identity_valid :: "artifact_identity \<Rightarrow> bool" where
  "artifact_identity_valid a \<longleftrightarrow>
     safe_code (ai_artifact_id a) \<and> safe_code (ai_kind a) \<and> valid_hash (ai_fingerprint a)"

definition source_identity_valid :: "source_identity \<Rightarrow> bool" where
  "source_identity_valid s \<longleftrightarrow>
     \<not> is_nil (so_invocation_id s) \<and> safe_code (so_tool_id s) \<and> safe_code (so_tool_version s)
     \<and> valid_hash (so_request_fingerprint s) \<and> valid_hash (so_source_fingerprint s)"

definition budget_valid :: "loop_budget \<Rightarrow> bool" where
  "budget_valid b \<longleftrightarrow>
     (let l = lb_limits b in
      bl_max_model_rounds l > 0 \<and> bl_max_tool_rounds l > 0 \<and> bl_max_elapsed_ms l > 0
      \<and> bl_max_tokens l > 0 \<and> bl_max_cost_micro_usd l > 0
      \<and> bl_max_consecutive_non_improvement l > 0)
     \<and> lb_model_rounds b = u32_or_max (length (lb_accounted_model_request_ids b))
     \<and> lb_tool_rounds b = u32_or_max (length (lb_accounted_tool_round_fingerprints b))
     \<and> lb_evidence_total b = u32_or_max (length (lb_accounted_evidence_ids b))
     \<and> distinct (lb_accounted_model_request_ids b)
     \<and> distinct (lb_accounted_tool_invocation_ids b)
     \<and> distinct (lb_accounted_evidence_ids b)
     \<and> distinct (lb_accounted_tool_round_fingerprints b)
     \<and> list_all valid_hash (lb_accounted_tool_round_fingerprints b)"

definition checkpoint_shape_valid :: "context_checkpoint \<Rightarrow> bool" where
  "checkpoint_shape_valid c \<longleftrightarrow>
     ck_version c = CONTEXT_CHECKPOINT_VERSION \<and> \<not> is_nil (ck_run_id c)
     \<and> (case ck_evidence c of [] \<Rightarrow> True | r # _ \<Rightarrow> ck_run_id c = ce_goal_id r)
     \<and> fe_revision (ck_goal c) \<noteq> [] \<and> valid_hash (fe_revision (ck_goal c))
     \<and> valid_hash (fe_fingerprint (ck_goal c))
     \<and> ck_constraints c = ve_constraints (fe_envelope (ck_goal c))
     \<and> ck_created_at c \<le> ck_updated_at c
     \<and> length (ck_authorizations c) \<le> MAX_CHECKPOINT_IDENTITIES
     \<and> length (ck_evidence c) \<le> MAX_CHECKPOINT_IDENTITIES
     \<and> length (ck_resources c) \<le> MAX_CHECKPOINT_IDENTITIES
     \<and> length (ck_artifacts c) \<le> MAX_CHECKPOINT_IDENTITIES
     \<and> length (ck_sources c) \<le> MAX_CHECKPOINT_IDENTITIES"

text \<open>The condition of the loop over the gaps; hashing a gap fails with the error of the loop.\<close>

definition gap_ok :: "goal_env \<Rightarrow> loop_json \<Rightarrow> frozen_envelope \<Rightarrow> goal_gap \<Rightarrow> bool" where
  "gap_ok env js f g \<longleftrightarrow>
     gg_goal_revision g = fe_revision f \<and> gg_frozen_fingerprint g = fe_fingerprint f
     \<and> gap_fingerprint env js g = Inr (gg_fingerprint g) \<and> safe_code (gg_code g)"

definition status_ok :: "context_checkpoint \<Rightarrow> bool" where
  "status_ok c \<longleftrightarrow>
     (case (ck_status c, ck_blocker c) of
        (CheckpointBlocked, Some b) \<Rightarrow> bk_gap_fingerprint b = ck_gap_fingerprint c
      | (CheckpointComplete, None) \<Rightarrow> ck_gaps c = []
      | (CheckpointContinue, None) \<Rightarrow> ck_gaps c \<noteq> []
      | _ \<Rightarrow> False)"

definition checkpoint_validate :: "goal_env \<Rightarrow> loop_json \<Rightarrow> context_checkpoint \<Rightarrow> unit res" where
  "checkpoint_validate env js c =
     (if \<not> checkpoint_shape_valid c then Inl ''context_checkpoint_invalid''
      else if \<not> list_all (gap_ok env js (ck_goal c)) (ck_gaps c)
      then Inl ''context_checkpoint_gap_invalid''
      else if ck_gap_fingerprint c \<noteq> gap_set_fingerprint env js (ck_goal c) (ck_gaps c)
              \<or> list_ex (\<lambda>a. \<not> authorization_identity_valid a (ck_run_id c)) (ck_authorizations c)
              \<or> list_ex (\<lambda>r. \<not> resource_identity_valid r) (ck_resources c)
              \<or> list_ex (\<lambda>a. \<not> artifact_identity_valid a) (ck_artifacts c)
              \<or> list_ex (\<lambda>s. \<not> source_identity_valid s) (ck_sources c)
              \<or> \<not> budget_valid (ck_budget c)
      then Inl ''context_checkpoint_identity_invalid''
      else if \<not> status_ok c then Inl ''context_checkpoint_status_invalid''
      else if ck_fingerprint c \<noteq> recompute_fingerprint env js c
      then Inl ''context_checkpoint_fingerprint_invalid'' else Inr ())"

definition validate_against_goal ::
    "goal_env \<Rightarrow> loop_json \<Rightarrow> context_checkpoint \<Rightarrow> goal_projection \<Rightarrow> unit res" where
  "validate_against_goal env js c j =
     bind_res (checkpoint_validate env js c) (\<lambda>_.
     bind_res (ok_or (goal_frozen (gj_state j)) ''context_checkpoint_goal_not_frozen'') (\<lambda>f.
       if gj_goal_id j \<noteq> ck_run_id c \<or> f \<noteq> ck_goal c then Inl ''context_checkpoint_goal_drift''
       else Inr ()))"

definition blocker_reason :: "context_checkpoint \<Rightarrow> string option" where
  "blocker_reason c = map_option stable_reason (ck_blocker c)"

definition advisory_prompt :: "goal_env \<Rightarrow> loop_json \<Rightarrow> context_checkpoint \<Rightarrow> string res" where
  "advisory_prompt env js c =
     bind_res (checkpoint_validate env js c) (\<lambda>_.
       Inr (''Kernel-owned ContextCheckpoint (read-only advisory context). This preserves exact safety state across compaction/restart but grants no authority, cannot approve an action, and is not completion evidence. DeepSeek may explain gaps or propose a repair only; it cannot edit this checkpoint or mint receipts.''
            @ [CHR 0x0A] @ lj_prompt js c))"

definition validate_monotonic :: "context_checkpoint \<Rightarrow> context_checkpoint \<Rightarrow> unit res" where
  "validate_monotonic c previous =
     (let b = ck_budget c; p = ck_budget previous in
      if ck_run_id c \<noteq> ck_run_id previous
         \<or> fe_revision (ck_goal c) \<noteq> fe_revision (ck_goal previous)
         \<or> fe_fingerprint (ck_goal c) \<noteq> fe_fingerprint (ck_goal previous)
         \<or> ck_created_at c \<noteq> ck_created_at previous \<or> lb_limits b \<noteq> lb_limits p
         \<or> lb_model_rounds b < lb_model_rounds p \<or> lb_tool_rounds b < lb_tool_rounds p
         \<or> lb_elapsed_ms b < lb_elapsed_ms p \<or> lb_tokens b < lb_tokens p
         \<or> lb_cost_micro_usd b < lb_cost_micro_usd p
         \<or> lb_evidence_total b < lb_evidence_total p
         \<or> (ck_blocker previous \<noteq> None \<and> ck_blocker c \<noteq> ck_blocker previous)
      then Inl ''context_checkpoint_non_monotonic'' else Inr ())"

section \<open>One step of the loop\<close>

definition new_round_of ::
    "goal_env \<Rightarrow> loop_json \<Rightarrow> uuid \<Rightarrow> frozen_envelope \<Rightarrow> loop_observation \<Rightarrow> loop_budget
     \<Rightarrow> (bool \<times> loop_budget) res" where
  "new_round_of env js run_id f obs b =
     (if lo_stage obs = AfterToolRound \<and> lo_tool_usage obs \<noteq> []
      then account_tool_round env js run_id f obs b else Inr (False, b))"

definition count_improvement ::
    "bool \<Rightarrow> bool \<Rightarrow> u32 \<Rightarrow> loop_budget \<Rightarrow> loop_budget res" where
  "count_improvement new_tool_round same_gaps new_evidence b =
     (if \<not> new_tool_round then Inr b
      else if same_gaps \<and> new_evidence = 0
      then bind_res (ok_or (checked_inc (lb_consecutive_non_improvement b))
             ''context_checkpoint_counter_overflow'')
             (\<lambda>n. Inr (b\<lparr>lb_consecutive_non_improvement := n\<rparr>))
      else Inr (b\<lparr>lb_consecutive_non_improvement := 0\<rparr>))"

text \<open>The budget after an observation: all the counting of a step, in its order.\<close>

definition account ::
    "goal_env \<Rightarrow> loop_json \<Rightarrow> checkpoint_seed \<Rightarrow> loop_observation \<Rightarrow> bool \<Rightarrow> loop_budget
     \<Rightarrow> (bool \<times> loop_budget) res" where
  "account env js s obs same_gaps b =
     (let b = account_model_usage (lo_model_usage obs) b;
          b = account_tool_usage (lo_tool_usage obs) b;
          (new_evidence, b) = account_evidence (cj_evidence (sd_completion s)) b in
      bind_res (new_round_of env js (sd_run_id s) (sd_goal s) obs b) (\<lambda>(new_tool_round, b).
      let b = b\<lparr>lb_new_evidence_count := new_evidence\<rparr> in
      bind_res (ok_or (u32_of_len (length (lb_accounted_evidence_ids b)))
        ''context_checkpoint_evidence_limit'') (\<lambda>total.
      let b = b\<lparr>lb_evidence_total := total\<rparr> in
      bind_res (count_improvement new_tool_round same_gaps new_evidence b) (\<lambda>b.
        Inr (new_tool_round, b)))))"

definition checkpoint_of ::
    "checkpoint_seed \<Rightarrow> loop_observation \<Rightarrow> context_checkpoint option \<Rightarrow> goal_gap list \<Rightarrow> string
     \<Rightarrow> bool \<Rightarrow> loop_budget \<Rightarrow> context_checkpoint" where
  "checkpoint_of s obs previous gaps gap_fp new_tool_round b =
     (let stored = Option.bind previous ck_blocker;
          blocked = (case stored of Some x \<Rightarrow> Some x
            | None \<Rightarrow> blocker_for (cj_status (sd_completion s)) gap_fp b new_tool_round) in
      \<lparr>ck_version = CONTEXT_CHECKPOINT_VERSION, ck_run_id = sd_run_id s, ck_goal = sd_goal s,
       ck_constraints = ve_constraints (fe_envelope (sd_goal s)),
       ck_authorizations = sd_authorizations s, ck_evidence = cj_evidence (sd_completion s),
       ck_gaps = gaps, ck_gap_fingerprint = gap_fp, ck_resources = sd_resources s,
       ck_artifacts = sd_artifacts s, ck_sources = sd_sources s, ck_budget = b,
       ck_status =
         (if blocked \<noteq> None then CheckpointBlocked
          else if cj_status (sd_completion s) = Complete then CheckpointComplete
          else CheckpointContinue),
       ck_blocker = blocked, ck_fingerprint = [],
       ck_created_at = (case previous of None \<Rightarrow> lo_observed_at obs | Some p \<Rightarrow> ck_created_at p),
       ck_updated_at = lo_observed_at obs\<rparr>)"

definition advance ::
    "goal_env \<Rightarrow> loop_json \<Rightarrow> context_checkpoint option \<Rightarrow> checkpoint_seed \<Rightarrow> loop_observation
     \<Rightarrow> context_checkpoint res" where
  "advance env js previous s obs =
     bind_res (case previous of None \<Rightarrow> Inr () | Some p \<Rightarrow> checkpoint_validate env js p) (\<lambda>_.
     if is_nil (sd_run_id s) \<or> sd_run_id s \<noteq> cj_goal_id (sd_completion s)
        \<or> fe_revision (sd_goal s) \<noteq> cj_revision (sd_completion s)
        \<or> fe_fingerprint (sd_goal s) \<noteq> cj_frozen_fingerprint (sd_completion s)
     then Inl ''context_checkpoint_goal_binding_invalid''
     else bind_res (normalize_seed s) (\<lambda>s.
       bind_res (normalize_observation obs) (\<lambda>obs.
       bind_res (gaps_from_completion env js (sd_goal s) (sd_completion s)) (\<lambda>gaps.
       let gap_fp = gap_set_fingerprint env js (sd_goal s) gaps;
           same_gaps = is_some_and previous (\<lambda>p. ck_gap_fingerprint p = gap_fp);
           b = (case previous of None \<Rightarrow> default_budget | Some p \<Rightarrow> ck_budget p) in
       bind_res (account env js s obs same_gaps b) (\<lambda>(new_tool_round, b).
       let c = checkpoint_of s obs previous gaps gap_fp new_tool_round b;
           c = c\<lparr>ck_fingerprint := recompute_fingerprint env js c\<rparr> in
       bind_res (checkpoint_validate env js c) (\<lambda>_.
       bind_res (case previous of None \<Rightarrow> Inr () | Some p \<Rightarrow> validate_monotonic c p) (\<lambda>_.
         Inr c)))))))"

end
