(* ===== verification/Goal_Continuation_Safety.thy ===== *)
theory Goal_Continuation_Safety
  imports Goal_Continuation Goal_Store_Safety
begin

text \<open>
  The goal loop counts every model request, every tool invocation, every round and every receipt
  once, never turns a counter back, stays blocked once it is blocked, and cannot go on for ever.
\<close>

section \<open>Items that are counted once\<close>

lemma fresh_items_keys:
  "key ` set (fresh_items key seen xs) = key ` set xs - insert 0 seen"
  by (induction key seen xs rule: fresh_items.induct) (auto simp: is_nil_def)

lemma fresh_items_distinct: "distinct (map key (fresh_items key seen xs))"
proof (induction key seen xs rule: fresh_items.induct)
  case (2 key seen x xs)
  have "key x \<notin> key ` set (fresh_items key (insert (key x) seen) xs)"
    by (simp add: fresh_items_keys)
  with 2 show ?case by (cases "is_nil (key x) \<or> key x \<in> seen") simp_all
qed simp

lemma fresh_items_none: "fresh_items key seen xs = [] \<longleftrightarrow> key ` set xs \<subseteq> insert 0 seen"
  by (simp only: Diff_eq_empty_iff [symmetric] fresh_items_keys [symmetric] image_is_empty set_empty)

lemma fresh_items_set: "set (fresh_items key seen xs) \<subseteq> set xs"
  by (induction key seen xs rule: fresh_items.induct) auto

lemma distinct_append_fresh:
  "distinct ids \<Longrightarrow> distinct (ids @ map key (fresh_items key (set ids) xs))"
  by (auto simp: fresh_items_distinct fresh_items_keys)

section \<open>Saturating counters\<close>

lemma sat_add_ge: "x \<le> sat_add x y" for x :: "'a::len word"
  by (simp add: sat_add_def not_less)

lemma u32_or_max_0 [simp]: "u32_or_max 0 = 0"
  by (simp add: u32_or_max_def u32_of_len_def)

lemma unat_u32_or_max: "unat (u32_or_max n) = min n (2 ^ 32 - 1)"
proof (cases "n < 2 ^ 32")
  case True
  then show ?thesis by (simp add: u32_or_max_def u32_of_len_def take_bit_nat_eq_self unsigned_of_nat)
next
  case False
  then show ?thesis
    by (simp add: u32_or_max_def u32_of_len_def unsigned_minus_1_eq_mask mask_eq_exp_minus_1)
qed

lemma sat_inc_u32_or_max: "sat_inc (u32_or_max n) = u32_or_max (Suc n)"
proof -
  have "unat (sat_inc (u32_or_max n)) = unat (u32_or_max (Suc n))"
    by (simp add: unat_sat_inc unat_u32_or_max)
  then show ?thesis by (rule word_unat_eq_iff [THEN iffD2])
qed

lemma u32_or_max_mono: "m \<le> n \<Longrightarrow> u32_or_max m \<le> u32_or_max n"
  by (simp add: word_le_nat_alt unat_u32_or_max)

lemma u32_of_len_or_max: "u32_of_len n = Some w \<Longrightarrow> w = u32_or_max n"
  by (simp add: u32_or_max_def)

lemma checked_inc_u32_or_max: "checked_inc (u32_or_max n) = Some w \<Longrightarrow> w = u32_or_max (Suc n)"
  using sat_inc_u32_or_max [of n] by (auto simp: checked_inc_def sat_inc_def split: if_splits)

lemma fold_sat_inc: "fold (\<lambda>_. sat_inc) xs (u32_or_max n) = u32_or_max (n + length xs)"
  by (induction xs arbitrary: n) (simp_all add: sat_inc_u32_or_max)

lemma fold_sat_inc_0: "fold (\<lambda>_. sat_inc) xs 0 = u32_or_max (length xs)"
  using fold_sat_inc [of xs 0] by simp

section \<open>One kind of usage after the other\<close>

lemma count_model_simps [simp]:
  "lb_limits (count_model u b) = lb_limits b"
  "lb_model_rounds (count_model u b) = sat_inc (lb_model_rounds b)"
  "lb_tool_rounds (count_model u b) = lb_tool_rounds b"
  "lb_elapsed_ms (count_model u b) = sat_add (lb_elapsed_ms b) (mu_elapsed_ms u)"
  "lb_evidence_total (count_model u b) = lb_evidence_total b"
  "lb_consecutive_non_improvement (count_model u b) = lb_consecutive_non_improvement b"
  "lb_accounted_model_request_ids (count_model u b) = lb_accounted_model_request_ids b @ [mu_request_id u]"
  "lb_accounted_tool_invocation_ids (count_model u b) = lb_accounted_tool_invocation_ids b"
  "lb_accounted_tool_round_fingerprints (count_model u b) = lb_accounted_tool_round_fingerprints b"
  "lb_accounted_evidence_ids (count_model u b) = lb_accounted_evidence_ids b"
  by (simp_all add: count_model_def Let_def split: option.splits)

lemma count_model_mono:
  "lb_tokens b \<le> lb_tokens (count_model u b)"
  "lb_cost_micro_usd b \<le> lb_cost_micro_usd (count_model u b)"
  by (simp_all add: count_model_def Let_def sat_add_ge split: option.splits)

text \<open>What the counting of a step may and may not change.\<close>

definition budget_grows :: "loop_budget \<Rightarrow> loop_budget \<Rightarrow> bool" where
  "budget_grows b c \<longleftrightarrow>
     lb_limits c = lb_limits b \<and> lb_model_rounds b \<le> lb_model_rounds c
     \<and> lb_tool_rounds b \<le> lb_tool_rounds c \<and> lb_elapsed_ms b \<le> lb_elapsed_ms c
     \<and> lb_tokens b \<le> lb_tokens c \<and> lb_cost_micro_usd b \<le> lb_cost_micro_usd c
     \<and> lb_evidence_total b \<le> lb_evidence_total c"

lemma budget_grows_refl [simp, intro]: "budget_grows b b"
  by (simp add: budget_grows_def)

lemma budget_grows_trans: "budget_grows a b \<Longrightarrow> budget_grows b c \<Longrightarrow> budget_grows a c"
  by (auto simp: budget_grows_def)

lemma count_model_grows: "budget_grows b (count_model u b)"
  by (simp add: budget_grows_def count_model_mono sat_inc_ge sat_add_ge)

lemma fold_grows: "(\<And>u b. budget_grows b (f u b)) \<Longrightarrow> budget_grows b (fold f us b)"
  by (induction us arbitrary: b) (auto intro: budget_grows_trans)

lemma fold_count_model:
  "lb_accounted_model_request_ids (fold count_model us b)
     = lb_accounted_model_request_ids b @ map mu_request_id us"
  "lb_accounted_tool_invocation_ids (fold count_model us b) = lb_accounted_tool_invocation_ids b"
  "lb_accounted_tool_round_fingerprints (fold count_model us b) = lb_accounted_tool_round_fingerprints b"
  "lb_accounted_evidence_ids (fold count_model us b) = lb_accounted_evidence_ids b"
  "lb_tool_rounds (fold count_model us b) = lb_tool_rounds b"
  "lb_evidence_total (fold count_model us b) = lb_evidence_total b"
  "lb_consecutive_non_improvement (fold count_model us b) = lb_consecutive_non_improvement b"
  "lb_limits (fold count_model us b) = lb_limits b"
  "lb_model_rounds b = u32_or_max n \<Longrightarrow>
     lb_model_rounds (fold count_model us b) = u32_or_max (n + length us)"
  by (induction us arbitrary: b n) (simp_all add: sat_inc_u32_or_max)

lemma fold_count_tool:
  "fold count_tool us b =
     b\<lparr>lb_elapsed_ms := fold (\<lambda>u n. sat_add n (tu_elapsed_ms u)) us (lb_elapsed_ms b),
       lb_accounted_tool_invocation_ids := lb_accounted_tool_invocation_ids b @ map tu_invocation_id us\<rparr>"
  by (induction us arbitrary: b) (simp_all add: count_tool_def)

lemma fold_sat_add_ge: "n \<le> fold (\<lambda>u n. sat_add n (f u)) us n" for n :: "'a::len word"
  by (induction us arbitrary: n) (auto intro: order_trans sat_add_ge)

lemma account_model_usage_simps [simp]:
  "lb_limits (account_model_usage us b) = lb_limits b"
  "lb_tool_rounds (account_model_usage us b) = lb_tool_rounds b"
  "lb_evidence_total (account_model_usage us b) = lb_evidence_total b"
  "lb_consecutive_non_improvement (account_model_usage us b) = lb_consecutive_non_improvement b"
  "lb_accounted_tool_invocation_ids (account_model_usage us b) = lb_accounted_tool_invocation_ids b"
  "lb_accounted_tool_round_fingerprints (account_model_usage us b) = lb_accounted_tool_round_fingerprints b"
  "lb_accounted_evidence_ids (account_model_usage us b) = lb_accounted_evidence_ids b"
  by (simp_all add: account_model_usage_def Let_def fold_count_model)

lemma account_model_usage_ids:
  "lb_accounted_model_request_ids (account_model_usage us b) =
     sort (lb_accounted_model_request_ids b
       @ map mu_request_id (fresh_items mu_request_id (set (lb_accounted_model_request_ids b)) us))"
  by (simp add: account_model_usage_def Let_def fold_count_model)

lemma account_model_usage_grows: "budget_grows b (account_model_usage us b)"
  using fold_grows [of count_model, OF count_model_grows]
  by (simp add: account_model_usage_def Let_def budget_grows_def)

lemma account_model_usage_rounds:
  "lb_model_rounds b = u32_or_max (length (lb_accounted_model_request_ids b)) \<Longrightarrow>
     lb_model_rounds (account_model_usage us b)
       = u32_or_max (length (lb_accounted_model_request_ids (account_model_usage us b)))"
  by (simp add: account_model_usage_def Let_def fold_count_model)

lemma account_tool_usage_ids:
  "lb_accounted_tool_invocation_ids (account_tool_usage us b) =
     sort (lb_accounted_tool_invocation_ids b
       @ map tu_invocation_id (fresh_items tu_invocation_id (set (lb_accounted_tool_invocation_ids b)) us))"
  by (simp add: account_tool_usage_def Let_def fold_count_tool)

lemma account_tool_usage_simps [simp]:
  "lb_limits (account_tool_usage us b) = lb_limits b"
  "lb_model_rounds (account_tool_usage us b) = lb_model_rounds b"
  "lb_tool_rounds (account_tool_usage us b) = lb_tool_rounds b"
  "lb_tokens (account_tool_usage us b) = lb_tokens b"
  "lb_cost_micro_usd (account_tool_usage us b) = lb_cost_micro_usd b"
  "lb_evidence_total (account_tool_usage us b) = lb_evidence_total b"
  "lb_consecutive_non_improvement (account_tool_usage us b) = lb_consecutive_non_improvement b"
  "lb_accounted_model_request_ids (account_tool_usage us b) = lb_accounted_model_request_ids b"
  "lb_accounted_tool_round_fingerprints (account_tool_usage us b) = lb_accounted_tool_round_fingerprints b"
  "lb_accounted_evidence_ids (account_tool_usage us b) = lb_accounted_evidence_ids b"
  by (simp_all add: account_tool_usage_def Let_def fold_count_tool)

lemma account_tool_usage_grows: "budget_grows b (account_tool_usage us b)"
proof -
  have "lb_elapsed_ms b \<le> lb_elapsed_ms (account_tool_usage us b)"
    by (simp add: account_tool_usage_def Let_def fold_count_tool fold_sat_add_ge)
  then show ?thesis by (simp add: budget_grows_def)
qed

section \<open>The counting of a step\<close>

lemma new_round_cases:
  assumes "new_round_of env js run f obs b = Inr (r, c)"
  obtains (old) "\<not> r" "c = b"
  | (new) n where "r" "lo_stage obs = AfterToolRound" "lo_tool_usage obs \<noteq> []"
      "round_fingerprint env js run f obs \<notin> set (lb_accounted_tool_round_fingerprints b)"
      "checked_inc (lb_tool_rounds b) = Some n"
      "c = b\<lparr>lb_tool_rounds := n, lb_accounted_tool_round_fingerprints :=
         sort (lb_accounted_tool_round_fingerprints b @ [round_fingerprint env js run f obs])\<rparr>"
proof (cases "lo_stage obs = AfterToolRound \<and> lo_tool_usage obs \<noteq> []
    \<and> round_fingerprint env js run f obs \<notin> set (lb_accounted_tool_round_fingerprints b)")
  case True
  then have "bind_res (ok_or (checked_inc (lb_tool_rounds b)) ''context_checkpoint_counter_overflow'')
      (\<lambda>n. Inr (True, b\<lparr>lb_tool_rounds := n, lb_accounted_tool_round_fingerprints :=
         sort (lb_accounted_tool_round_fingerprints b @ [round_fingerprint env js run f obs])\<rparr>)) = Inr (r, c)"
    using assms by (simp add: new_round_of_def account_tool_round_def Let_def)
  then show thesis using True new by (cases "checked_inc (lb_tool_rounds b)") (simp_all add: ok_or_def)
next
  case False
  then have "r = False \<and> c = b"
    using assms by (simp add: new_round_of_def account_tool_round_def Let_def split: if_splits)
  then show thesis using old by simp
qed

lemma count_improvement_Inr:
  "count_improvement r same n b = Inr c \<Longrightarrow> \<exists>m. c = b\<lparr>lb_consecutive_non_improvement := m\<rparr>"
  by (auto simp: count_improvement_def bind_res_Inr_iff split: if_splits intro: exI [of _ "lb_consecutive_non_improvement b"])

lemma account_cases:
  assumes "account env js s obs same b = Inr (r, c)"
  obtains b1 b2 m where
    "b1 = account_tool_usage (lo_tool_usage obs) (account_model_usage (lo_model_usage obs) b)"
    "new_round_of env js (sd_run_id s) (sd_goal s) obs
       (snd (account_evidence (cj_evidence (sd_completion s)) b1)) = Inr (r, b2)"
    "length (lb_accounted_evidence_ids b2) < 2 ^ 32"
    "c = b2\<lparr>lb_new_evidence_count := fst (account_evidence (cj_evidence (sd_completion s)) b1),
            lb_evidence_total := u32_or_max (length (lb_accounted_evidence_ids b2)),
            lb_consecutive_non_improvement := m\<rparr>"
proof -
  define b1 where "b1 = account_tool_usage (lo_tool_usage obs) (account_model_usage (lo_model_usage obs) b)"
  define e where "e = account_evidence (cj_evidence (sd_completion s)) b1"
  from assms [unfolded account_def Let_def, folded b1_def, folded e_def]
  obtain r2 b2 where 1: "new_round_of env js (sd_run_id s) (sd_goal s) obs (snd e) = Inr (r2, b2)"
    and 2: "bind_res (ok_or (u32_of_len (length (lb_accounted_evidence_ids b2)))
        ''context_checkpoint_evidence_limit'') (\<lambda>total.
        bind_res (count_improvement r2 same (fst e)
          (b2\<lparr>lb_new_evidence_count := fst e, lb_evidence_total := total\<rparr>)) (\<lambda>b. Inr (r2, b))) = Inr (r, c)"
    by (auto simp: bind_res_Inr_iff split_def)
  from 2 obtain total where 3: "u32_of_len (length (lb_accounted_evidence_ids b2)) = Some total"
    and 4: "count_improvement r2 same (fst e)
      (b2\<lparr>lb_new_evidence_count := fst e, lb_evidence_total := total\<rparr>) = Inr c" and 5: "r2 = r"
    by (auto simp: bind_res_Inr_iff ok_or_Inr_iff)
  from 3 have 6: "length (lb_accounted_evidence_ids b2) < 2 ^ 32" "total = u32_or_max (length (lb_accounted_evidence_ids b2))"
    by (auto simp: u32_of_len_def u32_or_max_def split: if_splits)
  from count_improvement_Inr [OF 4] obtain m where
    "c = b2\<lparr>lb_new_evidence_count := fst e, lb_evidence_total := total, lb_consecutive_non_improvement := m\<rparr>"
    by auto
  with 1 5 6 show thesis by (intro that [of b1 b2 m]) (simp_all add: b1_def e_def)
qed

lemma account_evidence_snd:
  "snd (account_evidence es b) =
     b\<lparr>lb_accounted_evidence_ids := sort (lb_accounted_evidence_ids b
       @ map ce_evidence_id (fresh_items ce_evidence_id (set (lb_accounted_evidence_ids b)) es))\<rparr>"
  by (simp add: account_evidence_def Let_def)

definition usage_of :: "loop_observation \<Rightarrow> loop_budget \<Rightarrow> loop_budget" where
  "usage_of obs b = account_tool_usage (lo_tool_usage obs) (account_model_usage (lo_model_usage obs) b)"

lemma usage_of_simps [simp]:
  "lb_limits (usage_of obs b) = lb_limits b"
  "lb_tool_rounds (usage_of obs b) = lb_tool_rounds b"
  "lb_evidence_total (usage_of obs b) = lb_evidence_total b"
  "lb_consecutive_non_improvement (usage_of obs b) = lb_consecutive_non_improvement b"
  "lb_accounted_tool_round_fingerprints (usage_of obs b) = lb_accounted_tool_round_fingerprints b"
  "lb_accounted_evidence_ids (usage_of obs b) = lb_accounted_evidence_ids b"
  by (simp_all add: usage_of_def)

lemma usage_of_ids:
  "set (lb_accounted_model_request_ids (usage_of obs b)) =
     set (lb_accounted_model_request_ids b) \<union> (mu_request_id ` set (lo_model_usage obs) - {0})"
  "set (lb_accounted_tool_invocation_ids (usage_of obs b)) =
     set (lb_accounted_tool_invocation_ids b) \<union> (tu_invocation_id ` set (lo_tool_usage obs) - {0})"
  by (auto simp: usage_of_def account_model_usage_ids account_tool_usage_ids fresh_items_keys)

lemma usage_of_grows: "budget_grows b (usage_of obs b)"
  unfolding usage_of_def by (rule budget_grows_trans [OF account_model_usage_grows account_tool_usage_grows])

lemma usage_of_distinct:
  "distinct (lb_accounted_model_request_ids b) \<Longrightarrow> distinct (lb_accounted_model_request_ids (usage_of obs b))"
  "distinct (lb_accounted_tool_invocation_ids b) \<Longrightarrow> distinct (lb_accounted_tool_invocation_ids (usage_of obs b))"
  by (simp_all only: usage_of_def account_model_usage_ids account_tool_usage_ids
      account_tool_usage_simps account_model_usage_simps distinct_sort distinct_append_fresh)

lemma usage_of_rounds:
  "lb_model_rounds b = u32_or_max (length (lb_accounted_model_request_ids b)) \<Longrightarrow>
     lb_model_rounds (usage_of obs b) = u32_or_max (length (lb_accounted_model_request_ids (usage_of obs b)))"
  by (simp add: usage_of_def account_model_usage_rounds)

text \<open>The evidence ids a step adds.\<close>

definition evidence_ids :: "completion_evidence list \<Rightarrow> uuid list \<Rightarrow> uuid list" where
  "evidence_ids es ids = sort (ids @ map ce_evidence_id (fresh_items ce_evidence_id (set ids) es))"

lemma set_evidence_ids: "set (evidence_ids es ids) = set ids \<union> (ce_evidence_id ` set es - {0})"
  by (auto simp: evidence_ids_def fresh_items_keys)

lemma distinct_evidence_ids: "distinct ids \<Longrightarrow> distinct (evidence_ids es ids)"
  by (simp only: evidence_ids_def distinct_sort distinct_append_fresh)

lemma length_evidence_ids: "length ids \<le> length (evidence_ids es ids)"
  by (simp add: evidence_ids_def)

text \<open>
  A step keeps everything \<open>budget_valid\<close> checks, adds exactly what was not counted before, and
  either finds its round counted already or counts it as one more.
\<close>

definition round_counted :: "string \<Rightarrow> bool \<Rightarrow> loop_budget \<Rightarrow> loop_budget \<Rightarrow> bool" where
  "round_counted fp r b c \<longleftrightarrow>
     (if r then fp \<notin> set (lb_accounted_tool_round_fingerprints b)
          \<and> lb_accounted_tool_round_fingerprints c = sort (lb_accounted_tool_round_fingerprints b @ [fp])
          \<and> checked_inc (lb_tool_rounds b) = Some (lb_tool_rounds c)
      else lb_accounted_tool_round_fingerprints c = lb_accounted_tool_round_fingerprints b
          \<and> lb_tool_rounds c = lb_tool_rounds b)"

lemma account_facts:
  assumes "account env js s obs same b = Inr (r, c)"
  shows "lb_limits c = lb_limits b"
    and "lb_accounted_model_request_ids c = lb_accounted_model_request_ids (usage_of obs b)"
    and "lb_accounted_tool_invocation_ids c = lb_accounted_tool_invocation_ids (usage_of obs b)"
    and "lb_accounted_evidence_ids c = evidence_ids (cj_evidence (sd_completion s)) (lb_accounted_evidence_ids b)"
    and "lb_evidence_total c = u32_or_max (length (lb_accounted_evidence_ids c))"
    and "lb_model_rounds c = lb_model_rounds (usage_of obs b)"
    and "lb_elapsed_ms c = lb_elapsed_ms (usage_of obs b)"
    and "lb_tokens c = lb_tokens (usage_of obs b)"
    and "lb_cost_micro_usd c = lb_cost_micro_usd (usage_of obs b)"
    and "round_counted (round_fingerprint env js (sd_run_id s) (sd_goal s) obs) r b c"
proof -
  from assms obtain b2 m where
    round: "new_round_of env js (sd_run_id s) (sd_goal s) obs
       (snd (account_evidence (cj_evidence (sd_completion s)) (usage_of obs b))) = Inr (r, b2)"
    and c: "c = b2\<lparr>lb_new_evidence_count := fst (account_evidence (cj_evidence (sd_completion s)) (usage_of obs b)),
            lb_evidence_total := u32_or_max (length (lb_accounted_evidence_ids b2)),
            lb_consecutive_non_improvement := m\<rparr>"
    by (rule account_cases) (simp only: usage_of_def [symmetric])
  note facts = c account_evidence_snd evidence_ids_def round_counted_def
  show "lb_limits c = lb_limits b"
    and "lb_accounted_model_request_ids c = lb_accounted_model_request_ids (usage_of obs b)"
    and "lb_accounted_tool_invocation_ids c = lb_accounted_tool_invocation_ids (usage_of obs b)"
    and "lb_accounted_evidence_ids c = evidence_ids (cj_evidence (sd_completion s)) (lb_accounted_evidence_ids b)"
    and "lb_evidence_total c = u32_or_max (length (lb_accounted_evidence_ids c))"
    and "lb_model_rounds c = lb_model_rounds (usage_of obs b)"
    and "lb_elapsed_ms c = lb_elapsed_ms (usage_of obs b)"
    and "lb_tokens c = lb_tokens (usage_of obs b)"
    and "lb_cost_micro_usd c = lb_cost_micro_usd (usage_of obs b)"
    and "round_counted (round_fingerprint env js (sd_run_id s) (sd_goal s) obs) r b c"
    by (rule new_round_cases [OF round]; simp add: facts)+
qed

lemma round_counted_rounds:
  assumes "round_counted fp r b c"
    and "lb_tool_rounds b = u32_or_max (length (lb_accounted_tool_round_fingerprints b))"
  shows "lb_tool_rounds c = u32_or_max (length (lb_accounted_tool_round_fingerprints c))"
  using assms by (auto simp: round_counted_def dest: checked_inc_u32_or_max split: if_splits)

lemma round_counted_grows:
  "round_counted fp r b c \<Longrightarrow> lb_tool_rounds b \<le> lb_tool_rounds c"
  using sat_inc_ge [of "lb_tool_rounds b"]
  by (auto simp: round_counted_def checked_inc_def sat_inc_def split: if_splits)

lemma round_counted_fingerprints:
  assumes "round_counted fp r b c" and "valid_hash fp"
    and "distinct (lb_accounted_tool_round_fingerprints b)"
    and "list_all valid_hash (lb_accounted_tool_round_fingerprints b)"
  shows "distinct (lb_accounted_tool_round_fingerprints c)"
    and "list_all valid_hash (lb_accounted_tool_round_fingerprints c)"
  using assms by (auto simp: round_counted_def list_all_iff simp del: sort_append split: if_splits)

lemma account_grows:
  assumes "account env js s obs same b = Inr (r, c)" and "budget_valid b"
  shows "budget_grows b c"
proof -
  note f = account_facts [OF assms(1)]
  have "lb_evidence_total b \<le> lb_evidence_total c"
    using assms(2) f(4,5) by (simp add: budget_valid_def u32_or_max_mono length_evidence_ids)
  moreover have "lb_tool_rounds b \<le> lb_tool_rounds c" using f(10) by (rule round_counted_grows)
  ultimately show ?thesis using usage_of_grows [of b obs] f by (simp add: budget_grows_def)
qed

lemma account_valid:
  assumes "account env js s obs same b = Inr (r, c)" and "budget_valid b"
    and "\<forall>x. length (ge_sha_raw env x) = 32"
  shows "budget_valid c"
proof -
  note f = account_facts [OF assms(1)]
  note b = assms(2) [unfolded budget_valid_def]
  have h: "valid_hash (round_fingerprint env js (sd_run_id s) (sd_goal s) obs)"
    using assms(3) by (simp add: round_fingerprint_def domain_hash_valid)
  have r: "lb_tool_rounds c = u32_or_max (length (lb_accounted_tool_round_fingerprints c))"
    using round_counted_rounds [OF f(10)] b by blast
  have fp: "distinct (lb_accounted_tool_round_fingerprints c)"
    "list_all valid_hash (lb_accounted_tool_round_fingerprints c)"
    using round_counted_fingerprints [OF f(10) h] b by blast+
  have m: "lb_model_rounds c = u32_or_max (length (lb_accounted_model_request_ids c))"
    using usage_of_rounds f(2,6) b by simp
  have d: "distinct (lb_accounted_model_request_ids c)" "distinct (lb_accounted_tool_invocation_ids c)"
    "distinct (lb_accounted_evidence_ids c)"
    using usage_of_distinct distinct_evidence_ids f(2,3,4) b by simp_all
  show ?thesis unfolding budget_valid_def Let_def f(1)
    using r fp m d f(5) b by (simp add: Let_def)
qed

section \<open>Gaps\<close>

lemma dedup_keys: "key ` set (dedup_by_key key xs) = key ` set xs"
  by (induction key xs rule: dedup_by_key.induct) auto

lemma dedup_set: "set (dedup_by_key key xs) \<subseteq> set xs"
  by (induction key xs rule: dedup_by_key.induct) auto

lemma dedup_length: "length (dedup_by_key key xs) \<le> length xs"
  by (induction key xs rule: dedup_by_key.induct) auto

lemma completion_code_text_safe: "safe_code (completion_code_text c)"
  by (cases c) (simp_all add: safe_code_def text_eval)

definition gap_for :: "goal_env \<Rightarrow> loop_json \<Rightarrow> frozen_envelope \<Rightarrow> string \<Rightarrow> goal_gap" where
  "gap_for env js f t =
     \<lparr>gg_code = t, gg_goal_revision = fe_revision f, gg_frozen_fingerprint = fe_fingerprint f,
      gg_fingerprint = domain_hash env GAP_FINGERPRINT_DOMAIN
        (lj_gap js t (fe_revision f) (fe_fingerprint f))\<rparr>"

definition hashed_goal :: "frozen_envelope \<Rightarrow> bool" where
  "hashed_goal f \<longleftrightarrow> valid_hash (fe_revision f) \<and> valid_hash (fe_fingerprint f)"

lemma gap_for_ok: "hashed_goal f \<Longrightarrow> safe_code t \<Longrightarrow> gap_ok env js f (gap_for env js f t)"
  by (simp add: gap_ok_def gap_for_def gap_fingerprint_def hashed_goal_def)

lemma traverse_res_map:
  "(\<And>x. x \<in> set xs \<Longrightarrow> f x = Inr (g x)) \<Longrightarrow> traverse_res f xs = Inr (map g xs)"
  by (induction xs) simp_all

lemma gaps_from_completion_eq:
  assumes "hashed_goal f"
  shows "gaps_from_completion env js f c =
    Inr (map (gap_for env js f) (sorted_set (map completion_code_text (cj_failure_codes c))))"
  unfolding gaps_from_completion_def Let_def
proof (rule traverse_res_map)
  fix t
  assume "t \<in> set (sorted_set (map completion_code_text (cj_failure_codes c)))"
  then have "safe_code t" by (auto simp: sorted_set_def completion_code_text_safe)
  then show "bind_res (gap_fingerprint env js \<lparr>gg_code = t, gg_goal_revision = fe_revision f,
       gg_frozen_fingerprint = fe_fingerprint f, gg_fingerprint = []\<rparr>)
     (\<lambda>fp. Inr (\<lparr>gg_code = t, gg_goal_revision = fe_revision f,
        gg_frozen_fingerprint = fe_fingerprint f, gg_fingerprint = []\<rparr>\<lparr>gg_fingerprint := fp\<rparr>))
     = Inr (gap_for env js f t)"
    using assms by (simp add: gap_fingerprint_def gap_for_def hashed_goal_def)
qed

lemma gaps_from_completion_ok:
  assumes "hashed_goal f" and "gaps_from_completion env js f c = Inr gaps"
  shows "list_all (gap_ok env js f) gaps" and "gaps = [] \<longleftrightarrow> cj_failure_codes c = []"
proof -
  have gaps: "gaps = map (gap_for env js f) (sorted_set (map completion_code_text (cj_failure_codes c)))"
    using assms by (simp add: gaps_from_completion_eq)
  show "list_all (gap_ok env js f) gaps" unfolding gaps list_all_iff
    using assms(1) by (auto simp: sorted_set_def intro!: gap_for_ok completion_code_text_safe)
  have "sorted_set xs = [] \<longleftrightarrow> xs = []" for xs
    by (metis sorted_set_def set_remdups set_sort set_empty)
  then show "gaps = [] \<longleftrightarrow> cj_failure_codes c = []" unfolding gaps by simp
qed

section \<open>What a step that succeeds has done\<close>

definition loop_inv :: "goal_env \<Rightarrow> loop_json \<Rightarrow> context_checkpoint option \<Rightarrow> bool" where
  "loop_inv env js p \<longleftrightarrow> (case p of None \<Rightarrow> True | Some c \<Rightarrow> checkpoint_validate env js c = Inr ())"

definition budget_before :: "context_checkpoint option \<Rightarrow> loop_budget" where
  "budget_before p = (case p of None \<Rightarrow> default_budget | Some c \<Rightarrow> ck_budget c)"

definition same_gaps :: "context_checkpoint option \<Rightarrow> string \<Rightarrow> bool" where
  "same_gaps p fp \<longleftrightarrow> is_some_and p (\<lambda>c. ck_gap_fingerprint c = fp)"

lemma unit_res_iff: "(\<exists>x. m = Inr x) \<longleftrightarrow> m = Inr ()" for m :: "'e + unit"
  by auto

lemma advance_cases:
  assumes "advance env js p s obs = Inr c"
  obtains s' obs' gaps r b where
    "loop_inv env js p"
    "\<not> is_nil (sd_run_id s)" "sd_run_id s = cj_goal_id (sd_completion s)"
    "normalize_seed s = Inr s'" "normalize_observation obs = Inr obs'"
    "gaps_from_completion env js (sd_goal s') (sd_completion s') = Inr gaps"
    "account env js s' obs' (same_gaps p (gap_set_fingerprint env js (sd_goal s') gaps)) (budget_before p)
       = Inr (r, b)"
    "c = (checkpoint_of s' obs' p gaps (gap_set_fingerprint env js (sd_goal s') gaps) r b)
       \<lparr>ck_fingerprint := recompute_fingerprint env js
          (checkpoint_of s' obs' p gaps (gap_set_fingerprint env js (sd_goal s') gaps) r b)\<rparr>"
    "checkpoint_validate env js c = Inr ()"
    "\<And>q. p = Some q \<Longrightarrow> validate_monotonic c q = Inr ()"
proof -
  have p: "loop_inv env js p" and bound: "\<not> is_nil (sd_run_id s)" "sd_run_id s = cj_goal_id (sd_completion s)"
    using assms by (auto simp: advance_def loop_inv_def bind_res_Inr_iff split: option.splits if_splits)
  from assms p obtain s' obs' gaps where
    n: "normalize_seed s = Inr s'" "normalize_observation obs = Inr obs'"
      "gaps_from_completion env js (sd_goal s') (sd_completion s') = Inr gaps"
    by (auto simp: advance_def bind_res_Inr_iff split: if_splits)
  define fp where "fp = gap_set_fingerprint env js (sd_goal s') gaps"
  from assms n have "bind_res (account env js s' obs' (same_gaps p fp) (budget_before p)) (\<lambda>(r, b).
      let c = checkpoint_of s' obs' p gaps fp r b;
          c = c\<lparr>ck_fingerprint := recompute_fingerprint env js c\<rparr> in
      bind_res (checkpoint_validate env js c) (\<lambda>_.
      bind_res (case p of None \<Rightarrow> Inr () | Some q \<Rightarrow> validate_monotonic c q) (\<lambda>_. Inr c))) = Inr c"
    by (simp add: advance_def same_gaps_def budget_before_def fp_def Let_def bind_res_Inr_iff
        cong: option.case_cong split: if_splits)
  then obtain r b where a: "account env js s' obs' (same_gaps p fp) (budget_before p) = Inr (r, b)"
    and c: "c = (checkpoint_of s' obs' p gaps fp r b)
      \<lparr>ck_fingerprint := recompute_fingerprint env js (checkpoint_of s' obs' p gaps fp r b)\<rparr>"
    and v: "checkpoint_validate env js c = Inr ()"
    and m: "(case p of None \<Rightarrow> Inr () | Some q \<Rightarrow> validate_monotonic c q) = Inr ()"
    by (auto simp: bind_res_Inr_iff Let_def)
  have "validate_monotonic c q = Inr ()" if "p = Some q" for q using m that by simp
  with p bound n a c v show thesis by (intro that [of s' obs' gaps r b]) (simp_all add: fp_def)
qed

lemma normalize_seed_keeps:
  "normalize_seed s = Inr s' \<Longrightarrow>
     sd_run_id s' = sd_run_id s \<and> sd_goal s' = sd_goal s \<and> sd_completion s' = sd_completion s"
  by (auto simp: normalize_seed_def split: if_splits)

lemma normalize_observation_keeps:
  assumes "normalize_observation obs = Inr obs'"
  shows "lo_stage obs' = lo_stage obs" "lo_local_tool_round obs' = lo_local_tool_round obs"
    and "lo_observed_at obs' = lo_observed_at obs"
    and "mu_request_id ` set (lo_model_usage obs') = mu_request_id ` set (lo_model_usage obs)"
    and "tu_invocation_id ` set (lo_tool_usage obs') = tu_invocation_id ` set (lo_tool_usage obs)"
  using assms
  by (auto simp: normalize_observation_def dedup_keys dest!: subsetD [OF dedup_set] split: if_splits)

lemma checkpoint_of_simps [simp]:
  "ck_run_id (checkpoint_of s obs p gaps fp r b) = sd_run_id s"
  "ck_goal (checkpoint_of s obs p gaps fp r b) = sd_goal s"
  "ck_gaps (checkpoint_of s obs p gaps fp r b) = gaps"
  "ck_gap_fingerprint (checkpoint_of s obs p gaps fp r b) = fp"
  "ck_budget (checkpoint_of s obs p gaps fp r b) = b"
  "ck_evidence (checkpoint_of s obs p gaps fp r b) = cj_evidence (sd_completion s)"
  "ck_created_at (checkpoint_of s obs p gaps fp r b) =
     (case p of None \<Rightarrow> lo_observed_at obs | Some q \<Rightarrow> ck_created_at q)"
  "ck_updated_at (checkpoint_of s obs p gaps fp r b) = lo_observed_at obs"
  by (simp_all add: checkpoint_of_def Let_def)

lemma checkpoint_of_blocker:
  "ck_blocker (checkpoint_of s obs p gaps fp r b) =
     (case Option.bind p ck_blocker of Some x \<Rightarrow> Some x
      | None \<Rightarrow> blocker_for (cj_status (sd_completion s)) fp b r)"
  by (simp add: checkpoint_of_def Let_def)

lemma checkpoint_of_status:
  "ck_status (checkpoint_of s obs p gaps fp r b) =
     (if ck_blocker (checkpoint_of s obs p gaps fp r b) \<noteq> None then CheckpointBlocked
      else if cj_status (sd_completion s) = Complete then CheckpointComplete else CheckpointContinue)"
  by (simp add: checkpoint_of_def Let_def)

inductive loop_next ::
    "goal_env \<Rightarrow> loop_json \<Rightarrow> context_checkpoint option \<Rightarrow> context_checkpoint option \<Rightarrow> bool"
  for env js where
  loop_step: "advance env js p s obs = Inr c \<Longrightarrow> loop_next env js p (Some c)"

inductive_cases loop_nextE: "loop_next env js p q"

lemma loop_next_inv: "loop_next env js p q \<Longrightarrow> loop_inv env js q"
  by (erule loop_nextE, erule advance_cases) (simp add: loop_inv_def)

lemma budget_default: "budget_valid default_budget"
  by (simp add: budget_valid_def default_budget_def default_limits_def)

lemma loop_inv_budget: "loop_inv env js p \<Longrightarrow> budget_valid (budget_before p)"
  by (auto simp: loop_inv_def budget_before_def budget_default checkpoint_validate_def
      split: option.splits if_splits)

lemma loop_inv_blocked:
  "loop_inv env js (Some c) \<Longrightarrow> ck_blocker c = Some x \<Longrightarrow>
     ck_status c = CheckpointBlocked \<and> ck_gap_fingerprint c = bk_gap_fingerprint x"
  by (auto simp: loop_inv_def checkpoint_validate_def status_ok_def
      split: if_splits checkpoint_status.splits)

lemma loop_next_budget: "loop_next env js p q \<Longrightarrow> budget_grows (budget_before p) (budget_before q)"
  by (erule loop_nextE, erule advance_cases)
    (auto simp: budget_before_def [of "Some _"] dest: account_grows loop_inv_budget)

lemma loop_next_blocker:
  assumes "loop_next env js p q" and "Option.bind p ck_blocker = Some x"
  shows "Option.bind q ck_blocker = Some x"
  using assms(1)
  by (rule loop_nextE, elim advance_cases) (simp add: checkpoint_of_blocker assms(2))

definition loop_view :: "context_checkpoint option \<Rightarrow> blocker option" where
  "loop_view p = Option.bind p ck_blocker"

interpretation goal_loop: transition_system "loop_next env js" "loop_inv env js" for env js
  by unfold_locales (rule loop_next_inv)

interpretation loop_blocked: final_system "loop_next env js" "loop_inv env js"
    "\<lambda>p. loop_view p \<noteq> None" loop_view for env js
  by unfold_locales (auto simp: loop_view_def dest: loop_next_blocker)

interpretation loop_rounds: counted_system "loop_next env js" "loop_inv env js"
    "\<lambda>p. unat (lb_model_rounds (budget_before p))" for env js
  by unfold_locales (use loop_next_budget in \<open>auto simp: budget_grows_def word_le_nat_alt\<close>)

section \<open>When a step succeeds\<close>

definition room :: "loop_budget \<Rightarrow> nat \<Rightarrow> bool" where
  "room b n \<longleftrightarrow> lb_tool_rounds b \<noteq> - 1 \<and> lb_consecutive_non_improvement b \<noteq> - 1
     \<and> length (lb_accounted_evidence_ids b) + n < 2 ^ 32"

lemma length_fresh_items: "length (fresh_items key seen xs) \<le> length xs"
  by (induction key seen xs rule: fresh_items.induct) (auto simp: le_SucI)

lemma new_round_of_ok: "lb_tool_rounds b \<noteq> - 1 \<Longrightarrow> is_ok (new_round_of env js run f obs b)"
  by (simp add: new_round_of_def account_tool_round_def Let_def checked_inc_def ok_or_def)

lemma count_improvement_ok:
  "lb_consecutive_non_improvement b \<noteq> - 1 \<Longrightarrow> is_ok (count_improvement r same n b)"
  by (simp add: count_improvement_def checked_inc_def ok_or_def)

lemma new_round_keeps:
  assumes "new_round_of env js run f obs b = Inr (r, c)"
  shows "lb_consecutive_non_improvement c = lb_consecutive_non_improvement b"
    and "lb_accounted_evidence_ids c = lb_accounted_evidence_ids b"
  using assms by (rule new_round_cases; simp)+

lemma is_ok_obtain: "is_ok m \<Longrightarrow> (\<And>x. m = Inr x \<Longrightarrow> P) \<Longrightarrow> P"
  by (cases m) (auto simp: is_ok_def)

lemma account_ok:
  assumes "room b (length (cj_evidence (sd_completion s)))"
  shows "is_ok (account env js s obs same b)"
proof -
  define b1 where "b1 = usage_of obs b"
  define e where "e = account_evidence (cj_evidence (sd_completion s)) b1"
  have e: "lb_tool_rounds (snd e) = lb_tool_rounds b"
    "lb_consecutive_non_improvement (snd e) = lb_consecutive_non_improvement b"
    "length (lb_accounted_evidence_ids (snd e)) < 2 ^ 32"
    using assms length_fresh_items [of ce_evidence_id "set (lb_accounted_evidence_ids b)" "cj_evidence (sd_completion s)"]
    by (simp_all add: e_def b1_def account_evidence_snd room_def)
  have "is_ok (new_round_of env js (sd_run_id s) (sd_goal s) obs (snd e))"
    using assms e(1) by (intro new_round_of_ok) (simp add: room_def)
  then obtain r b2 where n: "new_round_of env js (sd_run_id s) (sd_goal s) obs (snd e) = Inr (r, b2)"
    by (metis is_ok_obtain surj_pair)
  have "length (lb_accounted_evidence_ids b2) < 2 ^ 32" "lb_consecutive_non_improvement b2 \<noteq> - 1"
    using new_round_keeps [OF n] e assms by (simp_all add: room_def)
  then have "is_ok (bind_res (ok_or (u32_of_len (length (lb_accounted_evidence_ids b2)))
        ''context_checkpoint_evidence_limit'') (\<lambda>total.
      bind_res (count_improvement r same (fst e)
        (b2\<lparr>lb_new_evidence_count := fst e, lb_evidence_total := total\<rparr>)) (\<lambda>b. Inr (r, b))))"
    using count_improvement_ok [of "b2\<lparr>lb_new_evidence_count := fst e,
        lb_evidence_total := of_nat (length (lb_accounted_evidence_ids b2))\<rparr>" r same "fst e"]
    by (auto simp: u32_of_len_def ok_or_def elim: is_ok_obtain)
  then show ?thesis using n
    by (simp add: account_def Let_def split_def e_def b1_def usage_of_def)
qed

definition identities_ok :: "checkpoint_seed \<Rightarrow> bool" where
  "identities_ok s \<longleftrightarrow>
     list_all (\<lambda>a. authorization_identity_valid a (sd_run_id s)) (sd_authorizations s)
     \<and> list_all resource_identity_valid (sd_resources s)
     \<and> list_all artifact_identity_valid (sd_artifacts s)
     \<and> list_all source_identity_valid (sd_sources s)
     \<and> length (sd_authorizations s) \<le> MAX_CHECKPOINT_IDENTITIES
     \<and> length (sd_resources s) \<le> MAX_CHECKPOINT_IDENTITIES
     \<and> length (sd_artifacts s) \<le> MAX_CHECKPOINT_IDENTITIES
     \<and> length (sd_sources s) \<le> MAX_CHECKPOINT_IDENTITIES"

definition completion_fits :: "checkpoint_seed \<Rightarrow> bool" where
  "completion_fits s \<longleftrightarrow>
     \<not> is_nil (sd_run_id s) \<and> cj_goal_id (sd_completion s) = sd_run_id s
     \<and> hashed_goal (sd_goal s) \<and> cj_revision (sd_completion s) = fe_revision (sd_goal s)
     \<and> cj_frozen_fingerprint (sd_completion s) = fe_fingerprint (sd_goal s)
     \<and> (cj_status (sd_completion s) = Complete \<longleftrightarrow> cj_failure_codes (sd_completion s) = [])
     \<and> (\<forall>r \<in> set (cj_evidence (sd_completion s)). ce_goal_id r = sd_run_id s)
     \<and> length (cj_evidence (sd_completion s)) \<le> MAX_CHECKPOINT_IDENTITIES"

lemma list_all_subset: "list_all P xs \<Longrightarrow> set ys \<subseteq> set xs \<Longrightarrow> list_all P ys"
  by (auto simp: list_all_iff)

lemma sorted_set_set [simp]: "set (sorted_set xs) = set xs"
  by (simp add: sorted_set_def)

lemma normalize_seed_ok:
  assumes "identities_ok s" and "length (cj_evidence (sd_completion s)) \<le> MAX_CHECKPOINT_IDENTITIES"
  obtains s' where "normalize_seed s = Inr s'" "identities_ok s'"
proof -
  define s' where "s' = s\<lparr>
        sd_authorizations :=
          map (\<lambda>a. a\<lparr>au_request_fingerprints := sorted_set (au_request_fingerprints a)\<rparr>)
            (dedup_by_key au_group_id (sort_key au_group_id (sd_authorizations s))),
        sd_resources := dedup_by_key re_claim_id (sort_key re_claim_id (sd_resources s)),
        sd_artifacts := dedup_by_key (\<lambda>a. a)
          (sort_key (\<lambda>a. (ai_artifact_id a, ai_kind a, ai_fingerprint a)) (sd_artifacts s)),
        sd_sources := dedup_by_key so_invocation_id (sort_key so_invocation_id (sd_sources s))\<rparr>"
  have n: "normalize_seed s = Inr s'"
    using assms by (simp add: normalize_seed_def identities_ok_def s'_def)
  have sub: "set (dedup_by_key key (sort_key f xs)) \<subseteq> set xs"
    and len: "length xs \<le> n \<Longrightarrow> length (dedup_by_key key (sort_key f xs)) \<le> n"
    for key :: "'a \<Rightarrow> 'k" and f :: "'a \<Rightarrow> 'l::linorder" and xs n
    using dedup_set [of key "sort_key f xs"] dedup_length [of key "sort_key f xs"] by simp_all
  have "list_all (\<lambda>a. authorization_identity_valid a (sd_run_id s)) (sd_authorizations s')"
    using assms(1) subsetD [OF sub]
    by (fastforce simp: s'_def identities_ok_def list_all_iff authorization_identity_valid_def)
  moreover have "list_all resource_identity_valid (sd_resources s')"
    "list_all artifact_identity_valid (sd_artifacts s')" "list_all source_identity_valid (sd_sources s')"
    using assms(1) by (auto simp: s'_def identities_ok_def intro: list_all_subset [OF _ sub])
  ultimately have "identities_ok s'"
    using assms(1) by (simp add: identities_ok_def s'_def len)
  with n show thesis by (rule that)
qed

definition follows :: "context_checkpoint option \<Rightarrow> checkpoint_seed \<Rightarrow> loop_observation \<Rightarrow> bool" where
  "follows p s obs \<longleftrightarrow>
     (case p of None \<Rightarrow> True
      | Some q \<Rightarrow> ck_run_id q = sd_run_id s \<and> ck_goal q = sd_goal s \<and> ck_created_at q \<le> lo_observed_at obs)"

definition gaps_of :: "goal_env \<Rightarrow> loop_json \<Rightarrow> checkpoint_seed \<Rightarrow> goal_gap list" where
  "gaps_of env js s = map (gap_for env js (sd_goal s))
     (sorted_set (map completion_code_text (cj_failure_codes (sd_completion s))))"

lemma recompute_unsealed [simp]:
  "recompute_fingerprint env js (c\<lparr>ck_fingerprint := x\<rparr>) = recompute_fingerprint env js c"
  by (simp add: recompute_fingerprint_def context_canonical.truncate_def)

lemma status_ok_unsealed [simp]: "status_ok (c\<lparr>ck_fingerprint := x\<rparr>) = status_ok c"
  by (cases "ck_status c"; cases "ck_blocker c") (simp_all add: status_ok_def)

text \<open>A checkpoint built from fitting parts fails no check but that of its status.\<close>

lemma checkpoint_of_checks:
  assumes "identities_ok s" and "completion_fits s" and "budget_valid b" and "follows p s obs"
    and c: "c = (checkpoint_of s obs p (gaps_of env js s)
        (gap_set_fingerprint env js (sd_goal s) (gaps_of env js s)) r b)"
  shows "checkpoint_validate env js (c\<lparr>ck_fingerprint := recompute_fingerprint env js c\<rparr>) =
    (if status_ok c then Inr () else Inl ''context_checkpoint_status_invalid'')"
proof -
  let ?c = "c\<lparr>ck_fingerprint := recompute_fingerprint env js c\<rparr>"
  have g: "gaps_from_completion env js (sd_goal s) (sd_completion s) = Inr (gaps_of env js s)"
    using assms(2) by (simp add: completion_fits_def gaps_from_completion_eq gaps_of_def)
  have "valid_hash v \<Longrightarrow> v \<noteq> []" for v by (auto simp: valid_hash_def)
  then have shape: "checkpoint_shape_valid ?c"
    using assms(1,2,4) unfolding c
    by (auto simp: checkpoint_shape_valid_def checkpoint_of_def Let_def completion_fits_def
        identities_ok_def hashed_goal_def follows_def split: list.splits option.splits)
  have gaps: "list_all (gap_ok env js (ck_goal ?c)) (ck_gaps ?c)"
    using gaps_from_completion_ok(1) [OF _ g] assms(2) by (simp add: c completion_fits_def)
  have ids: "\<not> list_ex (\<lambda>a. \<not> authorization_identity_valid a (ck_run_id ?c)) (ck_authorizations ?c)"
    "\<not> list_ex (\<lambda>r. \<not> resource_identity_valid r) (ck_resources ?c)"
    "\<not> list_ex (\<lambda>a. \<not> artifact_identity_valid a) (ck_artifacts ?c)"
    "\<not> list_ex (\<lambda>s. \<not> source_identity_valid s) (ck_sources ?c)"
    using assms(1) unfolding c
    by (simp_all add: checkpoint_of_def Let_def identities_ok_def list_all_iff list_ex_iff)
  have "ck_gap_fingerprint ?c = gap_set_fingerprint env js (ck_goal ?c) (ck_gaps ?c)"
    "ck_budget ?c = b" by (simp_all add: c)
  then show ?thesis
    using shape gaps ids assms(3) by (simp add: checkpoint_validate_def)
qed

lemma gaps_of_empty:
  "completion_fits s \<Longrightarrow> gaps_of env js s = [] \<longleftrightarrow> cj_status (sd_completion s) = Complete"
  by (simp add: gaps_of_def completion_fits_def) (metis sorted_set_set map_is_Nil_conv set_empty)

lemma status_of_step:
  assumes "gaps = [] \<longleftrightarrow> cj_status (sd_completion s) = Complete"
    and "c = checkpoint_of s obs p gaps fp r b"
  shows "loop_view p = None \<Longrightarrow> status_ok c"
    and "loop_view p = Some x \<Longrightarrow> status_ok c \<longleftrightarrow> bk_gap_fingerprint x = fp"
proof -
  show "status_ok c" if "loop_view p = None"
    using that assms(1) unfolding assms(2) loop_view_def
    by (auto simp: status_ok_def checkpoint_of_status checkpoint_of_blocker blocker_for_def
        split: option.splits)
  show "status_ok c \<longleftrightarrow> bk_gap_fingerprint x = fp" if "loop_view p = Some x"
    using that unfolding assms(2) loop_view_def
    by (simp add: status_ok_def checkpoint_of_status checkpoint_of_blocker)
qed

lemma monotonic_step:
  assumes "account env js s obs same (ck_budget q) = Inr (r, b)" and "budget_valid (ck_budget q)"
    and "follows (Some q) s obs" and "c = checkpoint_of s obs (Some q) gaps fp r b"
  shows "validate_monotonic (c\<lparr>ck_fingerprint := x\<rparr>) q = Inr ()"
proof -
  have "budget_grows (ck_budget q) b" by (rule account_grows [OF assms(1,2)])
  then show ?thesis using assms(3) unfolding assms(4)
    by (auto simp: validate_monotonic_def Let_def budget_grows_def follows_def not_less
        checkpoint_of_blocker split: option.splits)
qed

definition observation_fits :: "loop_observation \<Rightarrow> bool" where
  "observation_fits obs \<longleftrightarrow>
     length (lo_model_usage obs) \<le> MAX_CHECKPOINT_IDENTITIES
     \<and> length (lo_tool_usage obs) \<le> MAX_CHECKPOINT_IDENTITIES"

lemma advance_result:
  assumes sha: "\<forall>x. length (ge_sha_raw env x) = 32" and p: "loop_inv env js p"
    and f: "follows p s obs" and i: "identities_ok s" and k: "completion_fits s"
    and o: "observation_fits obs"
    and m: "room (budget_before p) (length (cj_evidence (sd_completion s)))"
  obtains c r b s' obs' where
    "advance env js p s obs =
       (if status_ok c then Inr c else Inl ''context_checkpoint_status_invalid'')"
    "c = (checkpoint_of s' obs' p (gaps_of env js s)
            (gap_set_fingerprint env js (sd_goal s) (gaps_of env js s)) r b)
          \<lparr>ck_fingerprint := recompute_fingerprint env js (checkpoint_of s' obs' p (gaps_of env js s)
            (gap_set_fingerprint env js (sd_goal s) (gaps_of env js s)) r b)\<rparr>"
    "sd_completion s' = sd_completion s" "lo_observed_at obs' = lo_observed_at obs"
    "r \<longrightarrow> lo_stage obs = AfterToolRound" "r \<longleftrightarrow> lb_tool_rounds b \<noteq> lb_tool_rounds (budget_before p)"
proof -
  obtain s' where s: "normalize_seed s = Inr s'" "identities_ok s'"
    using normalize_seed_ok [OF i] k by (auto simp: completion_fits_def)
  note keep = normalize_seed_keeps [OF s(1)]
  obtain obs' where o': "normalize_observation obs = Inr obs'"
    using o by (auto simp: normalize_observation_def observation_fits_def)
  note okeep = normalize_observation_keeps [OF o']
  have k': "completion_fits s'" "follows p s' obs'" "gaps_of env js s' = gaps_of env js s"
    using k f keep okeep
    by (simp_all add: completion_fits_def follows_def gaps_of_def split: option.splits)
  have g: "gaps_from_completion env js (sd_goal s') (sd_completion s') = Inr (gaps_of env js s)"
    using k keep by (simp add: completion_fits_def gaps_from_completion_eq gaps_of_def)
  define fp where "fp = gap_set_fingerprint env js (sd_goal s) (gaps_of env js s)"
  have "is_ok (account env js s' obs' (same_gaps p fp) (budget_before p))"
    using m keep by (intro account_ok) simp
  then obtain r b where a: "account env js s' obs' (same_gaps p fp) (budget_before p) = Inr (r, b)"
    by (metis is_ok_obtain surj_pair)
  have r: "r \<longrightarrow> lo_stage obs = AfterToolRound"
    using a okeep(1) by (rule_tac account_cases [OF a]) (auto elim!: new_round_cases)
  have rounds: "r \<longleftrightarrow> lb_tool_rounds b \<noteq> lb_tool_rounds (budget_before p)"
    using account_facts(10) [OF a] by (auto simp: round_counted_def checked_inc_def split: if_splits)
  have bv: "budget_valid b" by (rule account_valid [OF a loop_inv_budget [OF p] sha])
  define c where "c = checkpoint_of s' obs' p (gaps_of env js s) fp r b"
  let ?c = "c\<lparr>ck_fingerprint := recompute_fingerprint env js c\<rparr>"
  have v: "checkpoint_validate env js ?c =
      (if status_ok c then Inr () else Inl ''context_checkpoint_status_invalid'')"
  proof (rule checkpoint_of_checks [OF s(2) k'(1) bv k'(2)])
    show "c = checkpoint_of s' obs' p (gaps_of env js s')
        (gap_set_fingerprint env js (sd_goal s') (gaps_of env js s')) r b"
      using k'(3) keep by (simp add: c_def fp_def)
  qed
  have mono: "(case p of None \<Rightarrow> Inr () | Some q \<Rightarrow> validate_monotonic ?c q) = Inr ()"
  proof (cases p)
    case (Some q)
    then show ?thesis
      using monotonic_step [of env js s' obs' "same_gaps p fp" q r b] a loop_inv_budget [OF p] k'(2)
      by (simp add: budget_before_def c_def)
  qed simp
  have e: "advance env js p s obs =
      bind_res (checkpoint_validate env js ?c) (\<lambda>_. Inr ?c)"
    using p k s(1) o' g a mono keep
    by (cases p) (simp_all add: advance_def loop_inv_def completion_fits_def fp_def [symmetric]
        same_gaps_def budget_before_def c_def Let_def)
  from e v r rounds keep okeep show thesis
    by (intro that [of ?c s' obs' r b]) (simp_all add: c_def fp_def)
qed

section \<open>The completion of a stored goal fits\<close>

definition seed_of ::
    "goal_env \<Rightarrow> goal_projection \<Rightarrow> completion_evidence list \<Rightarrow> checkpoint_seed \<Rightarrow> bool" where
  "seed_of env j ev s \<longleftrightarrow>
     validate_persisted env j = Inr () \<and> goal_frozen (gj_state j) = Some (sd_goal s)
     \<and> gj_goal_id j = sd_run_id s \<and> \<not> is_nil (sd_run_id s)
     \<and> completion_projection env j ev = Inr (sd_completion s)
     \<and> (\<forall>r \<in> set ev. ce_goal_id r = sd_run_id s) \<and> identities_ok s"

lemma completion_codes_all: "set completion_codes = UNIV"
proof -
  have "c \<in> set completion_codes" for c by (cases c) (simp_all add: completion_codes_def)
  then show ?thesis by blast
qed

lemma stored_goal_hashed:
  assumes "\<forall>x. length (ge_sha_raw env x) = 32" and "validate_persisted env j = Inr ()"
    and "goal_frozen (gj_state j) = Some f"
  shows "hashed_goal f"
proof -
  have s: "gj_state j = GoalFrozen f" using assms(3) by (cases "gj_state j") simp_all
  have "fe_revision f = revision_for env (fe_proposal_fingerprint f) (fe_envelope f) (fe_receipt f)"
    "fe_fingerprint f = frozen_fingerprint env f"
    using assms(2) by (auto simp: validate_persisted_def s split: if_splits)
  then show ?thesis unfolding hashed_goal_def
    by (metis assms(1) domain_hash_valid revision_for_def frozen_fingerprint_def)
qed

lemma seed_completion_fits:
  assumes "\<forall>x. length (ge_sha_raw env x) = 32" and "seed_of env j ev s"
  shows "completion_fits s"
proof -
  have h: "hashed_goal (sd_goal s)"
    using stored_goal_hashed assms by (auto simp: seed_of_def)
  from assms(2) have p: "completion_projection env j ev = Inr (sd_completion s)"
    by (simp add: seed_of_def)
  from p obtain f F K where c: "goal_frozen (gj_state j) = Some f"
      "length ev \<le> MAX_COMPLETION_EVIDENCE" "unique_evidence ev ({}, []) = (F, K)"
      "cj_evidence (sd_completion s) = sort_key ce_evidence_id K"
      "cj_goal_id (sd_completion s) = gj_goal_id j"
      "cj_revision (sd_completion s) = fe_revision f"
      "cj_frozen_fingerprint (sd_completion s) = fe_fingerprint f"
      "cj_status (sd_completion s) = Complete \<longleftrightarrow> cj_failure_codes (sd_completion s) = []"
    by (rule completion_projection_Inr) (auto simp: filter_empty_conv completion_codes_all)
  have k: "set K \<subseteq> set ev" "distinct K"
    using unique_evidence_spec [OF c(3)] by (auto simp: distinct_map)
  then have "length K \<le> MAX_CHECKPOINT_IDENTITIES"
    using c(2) card_length [of ev] card_mono [OF _ k(1)]
    by (simp add: MAX_COMPLETION_EVIDENCE_def MAX_CHECKPOINT_IDENTITIES_def distinct_card)
  then show ?thesis using h c k(1) assms(2) by (auto simp: completion_fits_def seed_of_def)
qed

section \<open>A loop that may go on\<close>

lemma advance_fingerprint_simps [simp]:
  "loop_view (Some (c\<lparr>ck_fingerprint := x\<rparr>)) = ck_blocker c"
  by (simp add: loop_view_def)

lemma exhausted_anyway: "exhausted b False \<noteq> None \<Longrightarrow> exhausted b r \<noteq> None"
  by (auto simp: exhausted_def Let_def split: if_splits)

lemma loop_step_result:
  assumes "\<forall>x. length (ge_sha_raw env x) = 32" and "loop_inv env js p" and "loop_view p = None"
    and "follows p s obs" and "seed_of env j ev s" and "observation_fits obs"
    and "room (budget_before p) (length (cj_evidence (sd_completion s)))"
  shows "\<exists>c. advance env js p s obs = Inr c \<and>
    (lb_tool_rounds (ck_budget c) \<noteq> lb_tool_rounds (budget_before p) \<longrightarrow> lo_stage obs = AfterToolRound) \<and>
    ck_status c = (if cj_status (sd_completion s) = Complete then CheckpointComplete
       else if exhausted (ck_budget c) (lb_tool_rounds (ck_budget c) \<noteq> lb_tool_rounds (budget_before p)) \<noteq> None
       then CheckpointBlocked else CheckpointContinue)"
proof -
  have k: "completion_fits s" by (rule seed_completion_fits [OF assms(1,5)])
  have i: "identities_ok s" using assms(5) by (simp add: seed_of_def)
  let ?fp = "gap_set_fingerprint env js (sd_goal s) (gaps_of env js s)"
  obtain c r b s' obs' where
    a: "advance env js p s obs = (if status_ok c then Inr c else Inl ''context_checkpoint_status_invalid'')"
    and c: "c = (checkpoint_of s' obs' p (gaps_of env js s) ?fp r b)\<lparr>ck_fingerprint :=
          recompute_fingerprint env js (checkpoint_of s' obs' p (gaps_of env js s) ?fp r b)\<rparr>"
    and s': "sd_completion s' = sd_completion s" and r: "r \<longrightarrow> lo_stage obs = AfterToolRound"
    and rounds: "r \<longleftrightarrow> lb_tool_rounds b \<noteq> lb_tool_rounds (budget_before p)"
    by (rule advance_result [OF assms(1,2,4) i k assms(6,7)])
  have "status_ok (checkpoint_of s' obs' p (gaps_of env js s) ?fp r b)"
    using status_of_step(1) gaps_of_empty [OF k] s' assms(3) by metis
  then have "status_ok c" by (simp add: c)
  moreover have "ck_status c = (if cj_status (sd_completion s) = Complete then CheckpointComplete
       else if exhausted (ck_budget c) r \<noteq> None then CheckpointBlocked else CheckpointContinue)"
    using assms(3) s' by (simp add: c checkpoint_of_status checkpoint_of_blocker loop_view_def blocker_for_def)
  moreover have "ck_budget c = b" by (simp add: c)
  ultimately show ?thesis using a r rounds by auto
qed

lemma blocked_step_result:
  assumes "\<forall>x. length (ge_sha_raw env x) = 32" and "loop_inv env js p" and "loop_view p = Some x"
    and "follows p s obs" and "seed_of env j ev s" and "observation_fits obs"
    and "room (budget_before p) (length (cj_evidence (sd_completion s)))"
  shows "if bk_gap_fingerprint x = gap_set_fingerprint env js (sd_goal s) (gaps_of env js s)
    then \<exists>c. advance env js p s obs = Inr c \<and> ck_status c = CheckpointBlocked \<and> ck_blocker c = Some x
    else advance env js p s obs = Inl ''context_checkpoint_status_invalid''"
proof -
  have k: "completion_fits s" by (rule seed_completion_fits [OF assms(1,5)])
  have i: "identities_ok s" using assms(5) by (simp add: seed_of_def)
  let ?fp = "gap_set_fingerprint env js (sd_goal s) (gaps_of env js s)"
  obtain c r b s' obs' where
    a: "advance env js p s obs = (if status_ok c then Inr c else Inl ''context_checkpoint_status_invalid'')"
    and c: "c = (checkpoint_of s' obs' p (gaps_of env js s) ?fp r b)\<lparr>ck_fingerprint :=
          recompute_fingerprint env js (checkpoint_of s' obs' p (gaps_of env js s) ?fp r b)\<rparr>"
    and s': "sd_completion s' = sd_completion s"
    by (rule advance_result [OF assms(1,2,4) i k assms(6,7)])
  have "status_ok c \<longleftrightarrow> bk_gap_fingerprint x = ?fp"
    using status_of_step(2) gaps_of_empty [OF k] s' assms(3) by (simp add: c)
  moreover have "ck_status c = CheckpointBlocked" "ck_blocker c = Some x"
    using assms(3) by (simp_all add: c checkpoint_of_status checkpoint_of_blocker loop_view_def)
  ultimately show ?thesis using a by auto
qed

section \<open>Runs of the loop\<close>

fun loop_run ::
    "goal_env \<Rightarrow> loop_json \<Rightarrow> context_checkpoint option \<Rightarrow> (checkpoint_seed \<times> loop_observation) list
     \<Rightarrow> context_checkpoint option res" where
  "loop_run env js p [] = Inr p"
| "loop_run env js p ((s, obs) # rest) =
     bind_res (advance env js p s obs) (\<lambda>c. loop_run env js (Some c) rest)"

text \<open>What the observations of a run report, each identifier once.\<close>

definition requests_of :: "checkpoint_seed \<times> loop_observation \<Rightarrow> uuid set" where
  "requests_of = (\<lambda>(s, obs). mu_request_id ` set (lo_model_usage obs) - {0})"

definition invocations_of :: "checkpoint_seed \<times> loop_observation \<Rightarrow> uuid set" where
  "invocations_of = (\<lambda>(s, obs). tu_invocation_id ` set (lo_tool_usage obs) - {0})"

definition evidence_of :: "checkpoint_seed \<times> loop_observation \<Rightarrow> uuid set" where
  "evidence_of = (\<lambda>(s, obs). ce_evidence_id ` set (cj_evidence (sd_completion s)) - {0})"

definition reported :: "('a \<Rightarrow> uuid set) \<Rightarrow> 'a list \<Rightarrow> uuid set" where
  "reported ids steps = (\<Union>x \<in> set steps. ids x)"

lemma advance_ids:
  assumes "advance env js p s obs = Inr c"
  shows "set (lb_accounted_model_request_ids (ck_budget c)) =
      set (lb_accounted_model_request_ids (budget_before p)) \<union> requests_of (s, obs)"
    and "set (lb_accounted_tool_invocation_ids (ck_budget c)) =
      set (lb_accounted_tool_invocation_ids (budget_before p)) \<union> invocations_of (s, obs)"
    and "set (lb_accounted_evidence_ids (ck_budget c)) =
      set (lb_accounted_evidence_ids (budget_before p)) \<union> evidence_of (s, obs)"
proof -
  from assms obtain s' obs' gaps r b where
    n: "normalize_seed s = Inr s'" "normalize_observation obs = Inr obs'"
    and a: "account env js s' obs' (same_gaps p (gap_set_fingerprint env js (sd_goal s') gaps)) (budget_before p)
       = Inr (r, b)" and c: "ck_budget c = b"
    by (rule advance_cases) auto
  note f = account_facts [OF a] and keep = normalize_seed_keeps [OF n(1)] normalize_observation_keeps [OF n(2)]
  show "set (lb_accounted_model_request_ids (ck_budget c)) =
      set (lb_accounted_model_request_ids (budget_before p)) \<union> requests_of (s, obs)"
    "set (lb_accounted_tool_invocation_ids (ck_budget c)) =
      set (lb_accounted_tool_invocation_ids (budget_before p)) \<union> invocations_of (s, obs)"
    "set (lb_accounted_evidence_ids (ck_budget c)) =
      set (lb_accounted_evidence_ids (budget_before p)) \<union> evidence_of (s, obs)"
    by (simp_all add: c f usage_of_ids set_evidence_ids keep requests_of_def invocations_of_def evidence_of_def)
qed

lemma loop_run_collects:
  assumes "loop_run env js p steps = Inr q"
    and "\<And>p s obs c. advance env js p s obs = Inr c \<Longrightarrow> f (Some c) = f p \<union> ids (s, obs)"
  shows "f q = f p \<union> reported ids steps"
  using assms(1)
proof (induction steps arbitrary: p)
  case (Cons x steps)
  obtain s obs where x: "x = (s, obs)" by (cases x)
  with Cons.prems obtain c where "advance env js p s obs = Inr c" "loop_run env js (Some c) steps = Inr q"
    by (auto simp: bind_res_Inr_iff)
  then show ?case using Cons.IH [of "Some c"] assms(2) by (simp add: x reported_def Un_assoc)
qed (simp add: reported_def)

lemma loop_run_ids:
  assumes "loop_run env js p steps = Inr q"
  shows "set (lb_accounted_model_request_ids (budget_before q)) =
      set (lb_accounted_model_request_ids (budget_before p)) \<union> reported requests_of steps"
    and "set (lb_accounted_tool_invocation_ids (budget_before q)) =
      set (lb_accounted_tool_invocation_ids (budget_before p)) \<union> reported invocations_of steps"
    and "set (lb_accounted_evidence_ids (budget_before q)) =
      set (lb_accounted_evidence_ids (budget_before p)) \<union> reported evidence_of steps"
  by (rule loop_run_collects [OF assms], simp add: budget_before_def [of "Some _"] advance_ids)+

lemma loop_run_reach: "loop_run env js p steps = Inr q \<Longrightarrow> (loop_next env js)\<^sup>*\<^sup>* p q"
  by (induction env js p steps rule: loop_run.induct)
    (auto simp: bind_res_Inr_iff intro: converse_rtranclp_into_rtranclp loop_step)

lemma continue_in_budget:
  assumes "advance env js p s obs = Inr c" and "ck_status c = CheckpointContinue"
  shows "exhausted (ck_budget c) False = None"
proof -
  have "ck_blocker c = None"
    using assms(1,2) by (rule_tac advance_cases [OF assms(1)]) (auto simp: checkpoint_of_status split: if_splits)
  with assms show ?thesis
    by (rule_tac advance_cases [OF assms(1)])
       (auto simp: checkpoint_of_blocker checkpoint_of_status blocker_for_def
         split: option.splits if_splits dest: exhausted_anyway)
qed

definition within_default :: "context_checkpoint option \<Rightarrow> bool" where
  "within_default p \<longleftrightarrow> lb_limits (budget_before p) = default_limits \<and>
     (case p of None \<Rightarrow> True
      | Some c \<Rightarrow> ck_status c = CheckpointContinue \<longrightarrow> exhausted (ck_budget c) False = None)"

lemma within_default_step:
  assumes "loop_inv env js p" and "within_default p" and "loop_next env js p q"
  shows "within_default q"
proof -
  have "lb_limits (budget_before q) = default_limits"
    using loop_next_budget [OF assms(3)] assms(2) by (simp add: budget_grows_def within_default_def)
  then show ?thesis using assms(3)
    by (auto simp: within_default_def elim!: loop_nextE dest: continue_in_budget)
qed

lemma loop_inv_None [simp]: "loop_inv env js None"
  by (simp add: loop_inv_def)

lemma loop_run_inv: "loop_run env js None steps = Inr q \<Longrightarrow> loop_inv env js q"
  by (erule goal_loop.run_inv [OF loop_run_reach]) (rule loop_inv_None)

lemma loop_run_within: "loop_run env js None steps = Inr q \<Longrightarrow> within_default q"
proof (rule goal_loop.run_keeps [OF loop_run_reach])
  show "loop_inv env js None" by simp
  show "within_default None"
    by (simp add: within_default_def budget_before_def default_budget_def)
qed (auto intro: within_default_step)

text \<open>Every step reports a request that no step before it has reported.\<close>

fun new_requests :: "uuid set \<Rightarrow> (checkpoint_seed \<times> loop_observation) list \<Rightarrow> bool" where
  "new_requests seen [] = True"
| "new_requests seen (x # xs) = (\<not> requests_of x \<subseteq> seen \<and> new_requests (seen \<union> requests_of x) xs)"

lemma finite_requests_of [simp]: "finite (requests_of x)"
  by (simp add: requests_of_def split_def)

lemma new_requests_card:
  assumes "new_requests seen steps" and "finite seen"
  shows "card seen + length steps \<le> card (seen \<union> reported requests_of steps)"
  using assms
proof (induction steps arbitrary: seen)
  case (Cons x steps)
  have "seen \<subset> seen \<union> requests_of x" using Cons.prems(1) by auto
  then have "card seen < card (seen \<union> requests_of x)" using Cons.prems(2) by (intro psubset_card_mono) simp_all
  moreover have "card (seen \<union> requests_of x) + length steps \<le>
      card (seen \<union> requests_of x \<union> reported requests_of steps)"
    using Cons.prems by (intro Cons.IH) simp_all
  ultimately show ?case by (simp add: reported_def Un_assoc)
qed (simp add: reported_def)

lemma run_counts:
  assumes "loop_run env js None steps = Inr (Some c)"
  shows "set (lb_accounted_model_request_ids (ck_budget c)) = reported requests_of steps"
    and "lb_model_rounds (ck_budget c) = u32_or_max (card (reported requests_of steps))"
    and "set (lb_accounted_tool_invocation_ids (ck_budget c)) = reported invocations_of steps"
    and "distinct (lb_accounted_tool_invocation_ids (ck_budget c))"
    and "set (lb_accounted_evidence_ids (ck_budget c)) = reported evidence_of steps"
    and "lb_evidence_total (ck_budget c) = u32_or_max (card (reported evidence_of steps))"
proof -
  have v: "budget_valid (ck_budget c)"
    using loop_inv_budget [OF loop_run_inv [OF assms]] by (simp add: budget_before_def)
  have e: "lb_accounted_model_request_ids (budget_before None) = []"
    "lb_accounted_tool_invocation_ids (budget_before None) = []"
    "lb_accounted_evidence_ids (budget_before None) = []"
    by (simp_all add: budget_before_def default_budget_def)
  show m: "set (lb_accounted_model_request_ids (ck_budget c)) = reported requests_of steps"
    and "set (lb_accounted_tool_invocation_ids (ck_budget c)) = reported invocations_of steps"
    and i: "set (lb_accounted_evidence_ids (ck_budget c)) = reported evidence_of steps"
    using loop_run_ids [OF assms] e by (simp_all add: budget_before_def [of "Some _"])
  show "distinct (lb_accounted_tool_invocation_ids (ck_budget c))" using v by (simp add: budget_valid_def)
  show "lb_model_rounds (ck_budget c) = u32_or_max (card (reported requests_of steps))"
    "lb_evidence_total (ck_budget c) = u32_or_max (card (reported evidence_of steps))"
    using v by (simp_all add: budget_valid_def m [symmetric] i [symmetric] distinct_card)
qed

lemma small_u32: "u32_or_max n < w \<Longrightarrow> n < unat w"
  using unsigned_less [of w, where 'a = nat] by (simp add: word_less_nat_alt unat_u32_or_max)

lemma run_continues:
  assumes "loop_run env js None steps = Inr (Some c)" and "ck_status c = CheckpointContinue"
  shows "card (reported requests_of steps) < 5"
    and "lb_tool_rounds (ck_budget c) < 4" and "lb_elapsed_ms (ck_budget c) < 900000"
    and "lb_tokens (ck_budget c) < 64000" and "lb_cost_micro_usd (ck_budget c) < 5000000"
    and "new_requests {} steps \<Longrightarrow> length steps < 5"
proof -
  have w: "lb_limits (ck_budget c) = default_limits" "exhausted (ck_budget c) False = None"
    using loop_run_within [OF assms(1)] assms(2) by (simp_all add: within_default_def budget_before_def)
  then have "lb_model_rounds (ck_budget c) < 5" "lb_tool_rounds (ck_budget c) < 4"
    "lb_elapsed_ms (ck_budget c) < 900000" "lb_tokens (ck_budget c) < 64000"
    "lb_cost_micro_usd (ck_budget c) < 5000000"
    by (auto simp: exhausted_def Let_def default_limits_def not_le split: if_splits)
  moreover from this(1) show n: "card (reported requests_of steps) < 5"
    using small_u32 [of _ 5] by (simp add: run_counts(2) [OF assms(1)])
  ultimately show "lb_tool_rounds (ck_budget c) < 4" "lb_elapsed_ms (ck_budget c) < 900000"
    "lb_tokens (ck_budget c) < 64000" "lb_cost_micro_usd (ck_budget c) < 5000000" by simp_all
  show "length steps < 5" if "new_requests {} steps"
    using new_requests_card [OF that] n by simp
qed

section \<open>Properties\<close>

text \<open>
  C24: A step of a loop whose last checkpoint, if there is one, is valid and not blocked succeeds, given
  a stored frozen goal with the completion its evidence gives, identities within the bounds, the run and goal of the checkpoint before it, a
  clock that did not go back, and counters that are not at their maximum. It is complete exactly if
  the completion is, and otherwise blocked exactly if a budget is exhausted or, when the step counted
  a new round of tools, there is no evidence at all or the rounds without improvement are used up.
\<close>

theorem loop_step_decides:
  assumes "\<forall>x. length (ge_sha_raw env x) = 32" and "loop_inv env js p" and "loop_view p = None"
    and "follows p s obs" and "seed_of env j ev s" and "observation_fits obs"
    and "room (budget_before p) (length (cj_evidence (sd_completion s)))"
  shows "\<exists>c. advance env js p s obs = Inr c \<and>
    (lb_tool_rounds (ck_budget c) \<noteq> lb_tool_rounds (budget_before p) \<longrightarrow> lo_stage obs = AfterToolRound) \<and>
    ck_status c = (if cj_status (sd_completion s) = Complete then CheckpointComplete
       else if exhausted (ck_budget c) (lb_tool_rounds (ck_budget c) \<noteq> lb_tool_rounds (budget_before p)) \<noteq> None
       then CheckpointBlocked else CheckpointContinue)"
  by (rule loop_step_result [OF assms])

text \<open>
  C29: For a stored frozen goal with the completion its evidence gives, and a step that fits (same
  run and goal, a clock that did not go back, bounded identities, counters with room), a step of a loop
  whose last checkpoint is valid and blocked succeeds exactly if the gaps have still the fingerprint they had when it was blocked,
  and keeps the blocker; when the evidence has changed the gaps since, the step fails with
  \<open>context_checkpoint_status_invalid\<close>.
\<close>

theorem blocked_loop_refuses_new_gaps:
  assumes "\<forall>x. length (ge_sha_raw env x) = 32" and "loop_inv env js p" and "loop_view p = Some x"
    and "follows p s obs" and "seed_of env j ev s" and "observation_fits obs"
    and "room (budget_before p) (length (cj_evidence (sd_completion s)))"
  shows "if bk_gap_fingerprint x = gap_set_fingerprint env js (sd_goal s) (gaps_of env js s)
    then \<exists>c. advance env js p s obs = Inr c \<and> ck_status c = CheckpointBlocked \<and> ck_blocker c = Some x
    else advance env js p s obs = Inl ''context_checkpoint_status_invalid''"
  by (rule blocked_step_result [OF assms])

text \<open>
  C19: Once a checkpoint of a loop is blocked, every later checkpoint of the loop is blocked by the
  same blocker, over the same gaps: no observation makes a blocked loop go on.
\<close>

theorem blocked_loop_stays_blocked:
  assumes "(loop_next env js)\<^sup>*\<^sup>* (Some b) q" and "checkpoint_validate env js b = Inr ()"
    and "ck_blocker b = Some x"
  shows "\<exists>c. q = Some c \<and> ck_blocker c = Some x \<and> ck_status c = CheckpointBlocked
    \<and> ck_gap_fingerprint c = ck_gap_fingerprint b"
proof -
  have b: "loop_inv env js (Some b)" "loop_view (Some b) = Some x"
    using assms(2,3) by (simp_all add: loop_inv_def loop_view_def)
  then have "loop_view q = Some x" using loop_blocked.run_final [OF assms(1)] by simp
  then obtain c where c: "q = Some c" "ck_blocker c = Some x"
    by (cases q) (simp_all add: loop_view_def)
  then have "loop_inv env js (Some c)" using goal_loop.run_inv [OF assms(1) b(1)] by simp
  then show ?thesis
    using c loop_inv_blocked [of env js c x] loop_inv_blocked [OF b(1) assms(3)] by simp
qed

text \<open>
  C16: A run of the loop counts every model request, tool invocation and receipt exactly once,
  however often the observations repeat them: the ids it keeps are those the observations have
  reported, and the rounds and the evidence are their numbers, saturating at the largest 32-bit word.
\<close>

theorem loop_counts_each_use_once:
  assumes "loop_run env js None steps = Inr (Some c)"
  shows "set (lb_accounted_model_request_ids (ck_budget c)) = reported requests_of steps
    \<and> lb_model_rounds (ck_budget c) = u32_or_max (card (reported requests_of steps))
    \<and> set (lb_accounted_tool_invocation_ids (ck_budget c)) = reported invocations_of steps
    \<and> distinct (lb_accounted_tool_invocation_ids (ck_budget c))
    \<and> set (lb_accounted_evidence_ids (ck_budget c)) = reported evidence_of steps
    \<and> lb_evidence_total (ck_budget c) = u32_or_max (card (reported evidence_of steps))"
  by (intro conjI run_counts [OF assms])

text \<open>
  C6: A loop that may still go on has used fewer than five model requests, four rounds of tools,
  900 seconds, 64000 tokens and 5 dollars. So a run in which every step reports a new model
  request goes on for at most four steps.
\<close>

theorem loop_cannot_go_on_for_ever:
  assumes "loop_run env js None steps = Inr (Some c)" and "ck_status c = CheckpointContinue"
  shows "card (reported requests_of steps) < 5 \<and> lb_tool_rounds (ck_budget c) < 4
    \<and> lb_elapsed_ms (ck_budget c) < 900000 \<and> lb_tokens (ck_budget c) < 64000
    \<and> lb_cost_micro_usd (ck_budget c) < 5000000
    \<and> (new_requests {} steps \<longrightarrow> length steps < 5)"
  using run_continues [OF assms] by simp

section \<open>A concrete loop\<close>

text \<open>
  The frozen goal of the demonstration, without evidence and then complete. The digest tells the
  text of an empty set of gaps from every other text.
\<close>

definition demo_loop_env :: goal_env where
  "demo_loop_env = demo_goal_env\<lparr>ge_sha_raw := (\<lambda>s.
     if last s = CHR ''n'' then replicate 32 (CHR ''b'') else replicate 32 (CHR ''a''))\<rparr>"

definition demo_loop_json :: loop_json where
  "demo_loop_json =
     \<lparr>lj_gap = (\<lambda>t r f. ''{}''), lj_gap_set = (\<lambda>r f gs. if gs = [] then ''n'' else ''{}''),
      lj_round = (\<lambda>i r f n ms ts. ''{}''), lj_checkpoint = (\<lambda>c. ''{}''), lj_prompt = (\<lambda>c. ''{}'')\<rparr>"

definition demo_completion_of :: "completion_evidence list \<Rightarrow> goal_completion" where
  "demo_completion_of ev =
     (case completion_projection demo_loop_env demo_frozen_goal ev of
        Inr c \<Rightarrow> c | Inl e \<Rightarrow> undefined)"

definition demo_seed :: "completion_evidence list \<Rightarrow> checkpoint_seed" where
  "demo_seed ev =
     \<lparr>sd_run_id = 7, sd_goal = demo_frozen, sd_completion = demo_completion_of ev,
      sd_authorizations = [], sd_resources = [], sd_artifacts = [], sd_sources = []\<rparr>"

definition demo_loop_observation :: "u32 \<Rightarrow> loop_observation" where
  "demo_loop_observation tokens =
     \<lparr>lo_stage = InitialModel, lo_local_tool_round = 0,
      lo_model_usage = [\<lparr>mu_request_id = 1, mu_elapsed_ms = 10, mu_total_tokens = Some tokens,
        mu_estimated_cost_micro_usd = None\<rparr>],
      lo_tool_usage = [], lo_observed_at = 1\<rparr>"

lemma demo_loop_sha: "\<forall>x. length (ge_sha_raw demo_loop_env x) = 32"
  by (simp add: demo_loop_env_def)

lemma demo_loop_hash: "domain_hash demo_loop_env d ''{}'' = demo_hash"
  "domain_hash demo_loop_env d ''n'' = hex_text (replicate 32 (CHR ''b''))"
  by (simp_all add: domain_hash_def demo_loop_env_def demo_hash_def)

lemma demo_gap_set: "lj_gap_set demo_loop_json r f gs = (if gs = [] then ''n'' else ''{}'')"
  by (simp add: demo_loop_json_def)

lemma demo_hashes_differ: "hex_text (replicate 32 (CHR ''b'')) \<noteq> demo_hash"
proof -
  have "hex_text (replicate 32 c) ! 1 = hex_digit (code c mod 16)" for c
  proof -
    have "replicate 32 c = c # replicate 31 c" using replicate_Suc [of 31 c] by simp
    then show ?thesis by (simp only:) (simp add: hex_text_def)
  qed
  moreover have "hex_digit (code (CHR ''b'') mod 16) \<noteq> hex_digit (code (CHR ''a'') mod 16)"
    by (simp add: code_def hex_digit_def char_of_eq_iff)
  ultimately show ?thesis by (metis demo_hash_def)
qed

lemma demo_loop_goal: "validate_persisted demo_loop_env demo_frozen_goal = Inr ()"
proof -
  have "revision_for demo_loop_env fp e r = demo_hash" "frozen_fingerprint demo_loop_env f = demo_hash"
    "validated_envelope_is_secret_free demo_loop_env e r = validated_envelope_is_secret_free demo_goal_env e r"
    for fp e r f
    using demo_loop_hash(1)
    by (simp_all add: revision_for_def frozen_fingerprint_def validated_envelope_is_secret_free_def
        demo_loop_env_def demo_goal_env_def)
  moreover have "revision_for demo_goal_env fp e r = demo_hash" "frozen_fingerprint demo_goal_env f = demo_hash"
    for fp e r f by (simp_all add: revision_for_def frozen_fingerprint_def demo_domain_hash)
  ultimately show ?thesis using demo_frozen_valid
    by (auto simp: validate_persisted_def demo_frozen_goal_def split: if_splits)
qed

lemma demo_completion_ok:
  assumes "length ev \<le> 128"
  shows "completion_projection demo_loop_env demo_frozen_goal ev = Inr (demo_completion_of ev)"
  using assms unfolding demo_completion_of_def completion_projection_def demo_frozen_parts
  by (simp add: goal_bounds Let_def)

lemma demo_seed_ok:
  "length ev \<le> 128 \<Longrightarrow> \<forall>r \<in> set ev. ce_goal_id r = 7 \<Longrightarrow> seed_of demo_loop_env demo_frozen_goal ev (demo_seed ev)"
  by (simp add: seed_of_def demo_loop_goal demo_frozen_parts demo_seed_def demo_completion_ok
      identities_ok_def MAX_CHECKPOINT_IDENTITIES_def is_nil_def)

lemma demo_statuses:
  "cj_status (demo_completion_of []) = VerificationBlocked"
  "cj_status (demo_completion_of [demo_evidence EvidencePassed]) = Complete"
  "cj_evidence (demo_completion_of []) = []"
proof -
  have s: "cj_status (demo_completion_of ev) = Complete \<longleftrightarrow> complete_evidence 7 demo_frozen (set ev)" if "length ev \<le> 128" for ev
    using completion_status_iff [OF demo_completion_ok [OF that] demo_frozen_parts(5)]
    by (simp add: demo_frozen_parts)
  show "cj_status (demo_completion_of []) = VerificationBlocked"
    using s [of "[]"] completion_status.exhaust
    by (simp add: complete_evidence_def demo_frozen_parts) (metis completion_status.exhaust)
  show "cj_status (demo_completion_of [demo_evidence EvidencePassed]) = Complete"
    using s [of "[demo_evidence EvidencePassed]"]
    by (simp add: complete_evidence_def demo_evidence_good demo_frozen_parts)
       (simp add: demo_evidence_def demo_proposal_def)
  show "cj_evidence (demo_completion_of []) = []"
    using demo_completion_ok [of "[]"] by (rule_tac completion_projection_Inr [OF demo_completion_ok [of "[]"]]) auto
qed

lemma demo_room: "n \<le> 128 \<Longrightarrow> room default_budget n"
  by (simp add: room_def default_budget_def)

lemma demo_follows:
  "follows None s obs" "observation_fits (demo_loop_observation n)"
  "budget_before None = default_budget" "loop_view None = None"
  by (simp_all add: follows_def observation_fits_def demo_loop_observation_def MAX_CHECKPOINT_IDENTITIES_def
      budget_before_def loop_view_def)

lemma demo_seed_parts:
  "sd_completion (demo_seed ev) = demo_completion_of ev" "sd_goal (demo_seed ev) = demo_frozen"
  "sd_run_id (demo_seed ev) = 7"
  by (simp_all add: demo_seed_def)

definition demo_loop_budget :: "u32 \<Rightarrow> loop_budget" where
  "demo_loop_budget n = default_budget\<lparr>lb_model_rounds := 1, lb_elapsed_ms := 10, lb_tokens := ucast n,
     lb_cost_unknown_rounds := 1, lb_accounted_model_request_ids := [1]\<rparr>"

lemma demo_account:
  "cj_evidence (sd_completion s) = [] \<Longrightarrow>
     account env js s (demo_loop_observation n) same default_budget = Inr (False, demo_loop_budget n)"
  by (simp add: account_def Let_def account_model_usage_def account_tool_usage_def account_evidence_def
      demo_loop_observation_def default_budget_def demo_loop_budget_def is_nil_def count_model_def sat_inc_def
      sat_add_def new_round_of_def count_improvement_def u32_of_len_def ok_or_def)

lemma demo_first_budget:
  assumes "advance env js None s (demo_loop_observation n) = Inr c" and "cj_evidence (sd_completion s) = []"
  shows "ck_budget c = demo_loop_budget n"
proof -
  from assms(1) obtain s' obs' gaps r b where n: "normalize_observation (demo_loop_observation n) = Inr obs'"
    and s: "normalize_seed s = Inr s'"
    and a: "account env js s' obs' (same_gaps None (gap_set_fingerprint env js (sd_goal s') gaps)) (budget_before None)
       = Inr (r, b)" and c: "ck_budget c = b"
    by (rule advance_cases) auto
  have "obs' = demo_loop_observation n"
    using n by (simp add: normalize_observation_def demo_loop_observation_def MAX_CHECKPOINT_IDENTITIES_def)
  then show ?thesis using a c normalize_seed_keeps [OF s] assms(2)
    by (simp add: demo_follows demo_account)
qed

lemma demo_exhausted: "exhausted (demo_loop_budget n) False = None \<longleftrightarrow> unat n < 64000"
proof -
  have "(64000 :: u64) \<le> ucast n \<longleftrightarrow> \<not> unat n < 64000"
    using unsigned_less [of n, where 'a = nat]
    by (simp add: word_le_nat_alt unsigned_ucast_eq take_bit_nat_eq_self not_less)
  then show ?thesis
    by (simp add: exhausted_def Let_def demo_loop_budget_def default_budget_def default_limits_def word_le_nat_alt)
qed

lemma demo_step:
  obtains c where "advance demo_loop_env demo_loop_json None (demo_seed []) (demo_loop_observation n) = Inr c"
    "ck_status c = (if unat n < 64000 then CheckpointContinue else CheckpointBlocked)"
proof -
  have "\<exists>c. advance demo_loop_env demo_loop_json None (demo_seed []) (demo_loop_observation n) = Inr c \<and>
    (lb_tool_rounds (ck_budget c) \<noteq> lb_tool_rounds (budget_before None) \<longrightarrow>
       lo_stage (demo_loop_observation n) = AfterToolRound) \<and>
    ck_status c = (if cj_status (sd_completion (demo_seed [])) = Complete then CheckpointComplete
       else if exhausted (ck_budget c) (lb_tool_rounds (ck_budget c) \<noteq> lb_tool_rounds (budget_before None)) \<noteq> None
       then CheckpointBlocked else CheckpointContinue)"
    by (rule loop_step_result [OF demo_loop_sha loop_inv_None demo_follows(4,1) demo_seed_ok demo_follows(2)])
       (simp_all add: demo_follows demo_room demo_seed_parts demo_statuses)
  then obtain c where c: "advance demo_loop_env demo_loop_json None (demo_seed []) (demo_loop_observation n) = Inr c"
    and st: "ck_status c = (if exhausted (ck_budget c) False \<noteq> None then CheckpointBlocked else CheckpointContinue)"
    by (auto simp: demo_loop_observation_def demo_seed_parts demo_statuses)
  have "ck_budget c = demo_loop_budget n"
    by (rule demo_first_budget [OF c]) (simp add: demo_seed_parts demo_statuses)
  then show thesis using that [OF c] st demo_exhausted [of n] by (cases "unat n < 64000") auto
qed

section \<open>Witnesses\<close>

theorem loop_step_decides_witness:
  "\<exists>c. advance demo_loop_env demo_loop_json None (demo_seed []) (demo_loop_observation 20) = Inr c"
  using loop_step_decides [OF demo_loop_sha loop_inv_None demo_follows(4,1)
      demo_seed_ok [of "[]"] demo_follows(2) [of 20], of demo_loop_json]
  by (auto simp: demo_follows demo_room demo_seed_parts demo_statuses)

text \<open>The first observation uses all tokens; then the goal completes.\<close>

lemma demo_blocked:
  obtains b x where "loop_next demo_loop_env demo_loop_json None (Some b)"
    "loop_inv demo_loop_env demo_loop_json (Some b)" "ck_blocker b = Some x"
    "ck_run_id b = 7" "ck_goal b = demo_frozen" "ck_created_at b = 1" "bk_gap_fingerprint x = demo_hash"
    "ck_budget b = demo_loop_budget 64000"
proof -
  obtain b where b: "advance demo_loop_env demo_loop_json None (demo_seed []) (demo_loop_observation 64000) = Inr b"
    and st: "ck_status b = CheckpointBlocked"
    using demo_step [of 64000] by auto
  have nx: "loop_next demo_loop_env demo_loop_json None (Some b)" using b by (rule loop_step)
  have inv: "loop_inv demo_loop_env demo_loop_json (Some b)" by (rule loop_next_inv [OF nx])
  then obtain x where x: "ck_blocker b = Some x" using st
    by (auto simp: loop_inv_def checkpoint_validate_def status_ok_def split: if_splits option.splits)
  have h: "hashed_goal demo_frozen" by (simp add: hashed_goal_def demo_frozen_parts demo_hash_valid)
  have codes: "cj_failure_codes (demo_completion_of []) \<noteq> []"
    using seed_completion_fits [OF demo_loop_sha demo_seed_ok [of "[]"]]
    by (simp add: completion_fits_def demo_seed_parts demo_statuses)
  then have gaps: "gaps_from_completion demo_loop_env demo_loop_json demo_frozen (demo_completion_of []) \<noteq> Inr []"
    using gaps_from_completion_ok(2) [OF h] by blast
  have "ck_run_id b = 7 \<and> ck_goal b = demo_frozen \<and> ck_created_at b = 1 \<and> ck_gap_fingerprint b = demo_hash"
    by (rule advance_cases [OF b])
       (use gaps in \<open>auto dest!: normalize_seed_keeps normalize_observation_keeps(3)
          simp: demo_seed_parts gap_set_fingerprint_def demo_gap_set demo_loop_hash demo_loop_observation_def\<close>)
  moreover have "ck_budget b = demo_loop_budget 64000"
    by (rule demo_first_budget [OF b]) (simp add: demo_seed_parts demo_statuses)
  ultimately show thesis using that [OF nx inv x] loop_inv_blocked [OF inv x] by simp
qed

lemma demo_gaps_closed:
  "gap_set_fingerprint demo_loop_env demo_loop_json demo_frozen
     (gaps_of demo_loop_env demo_loop_json (demo_seed [demo_evidence EvidencePassed])) \<noteq> demo_hash"
proof -
  have "completion_fits (demo_seed [demo_evidence EvidencePassed])"
    by (rule seed_completion_fits [OF demo_loop_sha demo_seed_ok]) (simp_all add: demo_evidence_def)
  then have "gaps_of demo_loop_env demo_loop_json (demo_seed [demo_evidence EvidencePassed]) = []"
    by (simp add: gaps_of_empty demo_seed_parts demo_statuses)
  then show ?thesis
    by (simp add: gap_set_fingerprint_def demo_gap_set demo_loop_hash demo_hashes_differ)
qed

theorem blocked_loop_refuses_new_gaps_witness:
  "\<exists>b. checkpoint_validate demo_loop_env demo_loop_json b = Inr () \<and>
     advance demo_loop_env demo_loop_json (Some b) (demo_seed [demo_evidence EvidencePassed])
       (demo_loop_observation 1) = Inl ''context_checkpoint_status_invalid''"
proof -
  let ?s = "demo_seed [demo_evidence EvidencePassed]"
  obtain b x where b: "loop_inv demo_loop_env demo_loop_json (Some b)" "ck_blocker b = Some x"
    "ck_run_id b = 7" "ck_goal b = demo_frozen" "ck_created_at b = 1" "bk_gap_fingerprint x = demo_hash"
    "ck_budget b = demo_loop_budget 64000"
    by (rule demo_blocked)
  have v: "loop_view (Some b) = Some x" using b by (simp add: loop_view_def)
  have f: "follows (Some b) ?s (demo_loop_observation 1)"
    using b by (simp add: follows_def demo_seed_parts demo_loop_observation_def)
  have s: "seed_of demo_loop_env demo_frozen_goal [demo_evidence EvidencePassed] ?s"
    by (rule demo_seed_ok) (simp_all add: demo_evidence_def)
  have "length (cj_evidence (demo_completion_of [demo_evidence EvidencePassed])) \<le> 1024"
    using seed_completion_fits [OF demo_loop_sha s]
    by (simp add: completion_fits_def demo_seed_parts MAX_CHECKPOINT_IDENTITIES_def)
  then have r: "room (budget_before (Some b)) (length (cj_evidence (sd_completion ?s)))"
    using b by (simp add: room_def budget_before_def demo_loop_budget_def default_budget_def demo_seed_parts)
  from blocked_loop_refuses_new_gaps [OF demo_loop_sha b(1) v f s demo_follows(2) r] demo_gaps_closed b
  have "advance demo_loop_env demo_loop_json (Some b) ?s (demo_loop_observation 1)
      = Inl ''context_checkpoint_status_invalid''"
    by (simp add: demo_seed_parts)
  then show ?thesis using b(1) by (auto simp: loop_inv_def)
qed

theorem blocked_loop_stays_blocked_witness:
  "\<exists>b x. ck_blocker b = Some x \<and>
     (\<forall>q. (loop_next demo_loop_env demo_loop_json)\<^sup>*\<^sup>* (Some b) q \<longrightarrow>
       (\<exists>c. q = Some c \<and> ck_blocker c = Some x))"
proof -
  obtain b x where b: "loop_inv demo_loop_env demo_loop_json (Some b)" "ck_blocker b = Some x"
    by (rule demo_blocked)
  then have "checkpoint_validate demo_loop_env demo_loop_json b = Inr ()" by (simp add: loop_inv_def)
  from blocked_loop_stays_blocked [OF _ this b(2)]
  have "\<exists>c. q = Some c \<and> ck_blocker c = Some x"
    if run: "(loop_next demo_loop_env demo_loop_json)\<^sup>*\<^sup>* (Some b) q" for q using run by auto
  with b(2) show ?thesis by (intro exI [of _ b] exI [of _ x]) simp
qed

lemma demo_loop_run:
  obtains c where "loop_run demo_loop_env demo_loop_json None [(demo_seed [], demo_loop_observation 20)] = Inr (Some c)"
    "ck_status c = CheckpointContinue"
proof -
  obtain c where "advance demo_loop_env demo_loop_json None (demo_seed []) (demo_loop_observation 20) = Inr c"
    "ck_status c = (if unat (20 :: u32) < 64000 then CheckpointContinue else CheckpointBlocked)"
    by (rule demo_step)
  then show thesis by (intro that [of c]) simp_all
qed

theorem loop_counts_each_use_once_witness:
  "\<exists>c. loop_run demo_loop_env demo_loop_json None [(demo_seed [], demo_loop_observation 20)] = Inr (Some c)
     \<and> set (lb_accounted_model_request_ids (ck_budget c)) = {1}"
proof -
  obtain c where c: "loop_run demo_loop_env demo_loop_json None [(demo_seed [], demo_loop_observation 20)] = Inr (Some c)"
    by (rule demo_loop_run)
  from loop_counts_each_use_once [OF c] c show ?thesis
    by (auto simp: reported_def requests_of_def demo_loop_observation_def)
qed

theorem loop_cannot_go_on_for_ever_witness:
  "\<exists>c. loop_run demo_loop_env demo_loop_json None [(demo_seed [], demo_loop_observation 20)] = Inr (Some c)
     \<and> lb_tokens (ck_budget c) < 64000"
proof -
  obtain c where c: "loop_run demo_loop_env demo_loop_json None [(demo_seed [], demo_loop_observation 20)] = Inr (Some c)"
    "ck_status c = CheckpointContinue"
    by (rule demo_loop_run)
  from loop_cannot_go_on_for_ever [OF c] c(1) show ?thesis by blast
qed

end
