(* ===== verification/Agent_Run.thy ===== *)
theory Agent_Run
  imports Goal_Continuation_Safety Expert_Team
begin

text \<open>
  The records of a run and their constructors, \<open>kernel/agent_run.rs\<close>. A constructor takes the
  identifier and the instant that \<open>Uuid::new_v4\<close> and \<open>Utc::now\<close> give it as its first arguments.
\<close>

section \<open>Data\<close>

definition AGENT_RUN_GUIDANCE_MAX_CHARS :: nat where "AGENT_RUN_GUIDANCE_MAX_CHARS = 4000"
definition AGENT_RUN_MAX_PARALLEL_SUBAGENTS :: nat where "AGENT_RUN_MAX_PARALLEL_SUBAGENTS = 3"

datatype run_role = ParentRun | SubagentRun

datatype run_status =
    Queued | Running | WaitingForPrerequisite | WaitingForConfirmation | Blocked
  | CancelRequested | Completed | Failed | Cancelled

text \<open>The text of a status under \<open>{:?}\<close>.\<close>

fun run_status_debug :: "run_status \<Rightarrow> string" where
  "run_status_debug Queued = ''Queued''"
| "run_status_debug Running = ''Running''"
| "run_status_debug WaitingForPrerequisite = ''WaitingForPrerequisite''"
| "run_status_debug WaitingForConfirmation = ''WaitingForConfirmation''"
| "run_status_debug Blocked = ''Blocked''"
| "run_status_debug CancelRequested = ''CancelRequested''"
| "run_status_debug Completed = ''Completed''"
| "run_status_debug Failed = ''Failed''"
| "run_status_debug Cancelled = ''Cancelled''"

definition terminal :: "run_status \<Rightarrow> bool" where
  "terminal s \<longleftrightarrow> s \<in> {Completed, Failed, Cancelled}"

record run_start =
  rs_id :: uuid
  rs_conversation_id :: string
  rs_prompt :: string
  rs_attachment_count :: usize
  rs_role :: run_role
  rs_parent_run_id :: "uuid option"
  rs_subtask_key :: "string option"
  rs_expert_contract :: "attempt_contract option"
  rs_initial_status :: run_status
  rs_started_at :: instant

record run_claim =
  rc_id :: uuid
  rc_run_id :: uuid
  rc_worker_id :: string
  rc_claimed_at :: instant
  rc_lease_expires_at :: instant

record run_recovery =
  ry_id :: uuid
  ry_run_id :: uuid
  ry_previous_worker_id :: string
  ry_previous_lease_expires_at :: instant
  ry_reason :: string
  ry_recovered_at :: instant

record recovery_sweep =
  sw_recovered :: nat
  sw_blocked :: nat
  sw_cancelled :: nat

record run_context =
  rx_id :: uuid
  rx_run_id :: uuid
  rx_execution_prompt :: string
  rx_recorded_at :: instant

record run_continuation =
  rq_id :: uuid
  rq_run_id :: uuid
  rq_tool_invocation_id :: uuid
  rq_reason :: string
  rq_queued_at :: instant

record run_guidance =
  rg_id :: uuid
  rg_run_id :: uuid
  rg_guidance :: string
  rg_queued_at :: instant
  rg_applied_at :: "instant option"

record guidance_applied =
  rap_id :: uuid
  rap_run_id :: uuid
  rap_guidance_id :: uuid
  rap_applied_at :: instant

record run_cancel =
  rk_id :: uuid
  rk_run_id :: uuid
  rk_reason :: string
  rk_requested_at :: instant

record run_transition =
  rt_id :: uuid
  rt_run_id :: uuid
  rt_status :: run_status
  rt_reason :: string
  rt_tool_invocation_id :: "uuid option"
  rt_transitioned_at :: instant

datatype claim_access = ClaimRead | ClaimWrite

record resource_claim =
  cl_id :: uuid
  cl_run_id :: "uuid option"
  cl_tool_invocation_id :: uuid
  cl_resource_key :: string
  cl_access :: claim_access
  cl_claimed_at :: instant
  cl_lease_expires_at :: instant

record resource_release =
  rl_id :: uuid
  rl_claim_id :: uuid
  rl_run_id :: "uuid option"
  rl_tool_invocation_id :: uuid
  rl_resource_key :: string
  rl_outcome :: string
  rl_released_at :: instant

record run_finish =
  rf_id :: uuid
  rf_run_id :: uuid
  rf_status :: run_status
  rf_summary :: "string option"
  rf_error :: "string option"
  rf_goal_completion_receipt :: "completion_receipt option"
  rf_finished_at :: instant

datatype step_state = StepPending | StepRunning | StepCompleted | StepFailed

record run_step =
  sp_id :: uuid
  sp_run_id :: uuid
  sp_sequence :: u32
  sp_status :: step_state
  sp_label :: string
  sp_detail :: string
  sp_recorded_at :: instant

record run_artifact =
  af_id :: uuid
  af_run_id :: uuid
  af_kind :: string
  af_title :: string
  af_path :: string
  af_created_at :: instant

record run_record =
  rec_id :: uuid
  rec_conversation_id :: string
  rec_prompt :: string
  rec_execution_prompt :: "string option"
  rec_execution_context_recorded_at :: "instant option"
  rec_attachment_count :: usize
  rec_role :: run_role
  rec_parent_run_id :: "uuid option"
  rec_subtask_key :: "string option"
  rec_expert_contract :: "attempt_contract option"
  rec_expert_result :: "attempt_result option"
  rec_expert_merge_receipt :: "merge_receipt option"
  rec_status :: run_status
  rec_worker_id :: "string option"
  rec_lease_expires_at :: "instant option"
  rec_recovery_count :: nat
  rec_last_recovered_at :: "instant option"
  rec_recovery_reason :: "string option"
  rec_continuation_count :: nat
  rec_continuation_queued_at :: "instant option"
  rec_continuation_tool_invocation_id :: "uuid option"
  rec_queued_guidance :: "run_guidance list"
  rec_steps :: "run_step list"
  rec_artifacts :: "run_artifact list"
  rec_cancel_requested :: bool
  rec_cancel_reason :: "string option"
  rec_status_reason :: "string option"
  rec_waiting_tool_invocation_id :: "uuid option"
  rec_started_at :: instant
  rec_updated_at :: instant
  rec_finished_at :: "instant option"
  rec_finish_summary :: "string option"
  rec_finish_error :: "string option"

section \<open>Starting a run\<close>

definition start_new ::
    "uuid \<Rightarrow> instant \<Rightarrow> string \<Rightarrow> string \<Rightarrow> usize \<Rightarrow> run_start res" where
  "start_new i now conversation_id prompt attachments =
     bind_res (required_text conversation_id ''agent run conversation_id'') (\<lambda>conversation_id.
     bind_res (required_text prompt ''agent run prompt'') (\<lambda>prompt.
       Inr \<lparr>rs_id = i, rs_conversation_id = conversation_id, rs_prompt = prompt,
            rs_attachment_count = attachments, rs_role = ParentRun, rs_parent_run_id = None,
            rs_subtask_key = None, rs_expert_contract = None, rs_initial_status = Running,
            rs_started_at = now\<rparr>))"

definition start_queued ::
    "uuid \<Rightarrow> instant \<Rightarrow> string \<Rightarrow> string \<Rightarrow> usize \<Rightarrow> run_start res" where
  "start_queued i now conversation_id prompt attachments =
     bind_res (start_new i now conversation_id prompt attachments) (\<lambda>s.
       Inr (s\<lparr>rs_initial_status := Queued\<rparr>))"

definition queued_subagent ::
    "uuid \<Rightarrow> instant \<Rightarrow> uuid \<Rightarrow> string \<Rightarrow> string \<Rightarrow> string \<Rightarrow> run_start res" where
  "queued_subagent i now parent_run_id conversation_id key prompt =
     (if is_nil parent_run_id then Inl ''subagent parent run id is required''
      else bind_res (start_queued i now conversation_id prompt 0) (\<lambda>s.
        bind_res (required_text key ''subagent subtask key'') (\<lambda>key.
          Inr (s\<lparr>rs_role := SubagentRun, rs_parent_run_id := Some parent_run_id,
                 rs_subtask_key := Some key\<rparr>))))"

definition queued_expert ::
    "uuid \<Rightarrow> instant \<Rightarrow> uuid \<Rightarrow> string \<Rightarrow> attempt_contract \<Rightarrow> run_start res" where
  "queued_expert i now parent_run_id conversation_id contract =
     (if ac_parent_run_id contract \<noteq> parent_run_id
      then Inl ''expert contract parent run id does not match its run''
      else bind_res
        (queued_subagent i now parent_run_id conversation_id (ac_key contract) (ac_prompt contract))
        (\<lambda>s. Inr (s\<lparr>rs_expert_contract := Some contract\<rparr>)))"

section \<open>Events of a run\<close>

definition claim_new ::
    "uuid \<Rightarrow> instant \<Rightarrow> uuid \<Rightarrow> string \<Rightarrow> int \<Rightarrow> run_claim res" where
  "claim_new i now run_id worker_id lease_seconds =
     bind_res (required_text worker_id ''agent run worker_id'') (\<lambda>worker_id.
       Inr \<lparr>rc_id = i, rc_run_id = run_id, rc_worker_id = worker_id, rc_claimed_at = now,
            rc_lease_expires_at = now + seconds (max lease_seconds 1)\<rparr>)"

definition recovery_new ::
    "uuid \<Rightarrow> instant \<Rightarrow> uuid \<Rightarrow> string \<Rightarrow> instant \<Rightarrow> string \<Rightarrow> run_recovery res" where
  "recovery_new i now run_id worker lease reason =
     bind_res (required_text worker ''agent run recovery previous_worker_id'') (\<lambda>worker.
     bind_res (required_text reason ''agent run recovery reason'') (\<lambda>reason.
       Inr \<lparr>ry_id = i, ry_run_id = run_id, ry_previous_worker_id = worker,
            ry_previous_lease_expires_at = lease, ry_reason = reason, ry_recovered_at = now\<rparr>))"

definition context_new :: "uuid \<Rightarrow> instant \<Rightarrow> uuid \<Rightarrow> string \<Rightarrow> run_context res" where
  "context_new i now run_id prompt =
     bind_res (required_text prompt ''agent run execution prompt'') (\<lambda>prompt.
       Inr \<lparr>rx_id = i, rx_run_id = run_id, rx_execution_prompt = prompt, rx_recorded_at = now\<rparr>)"

definition continuation_new ::
    "uuid \<Rightarrow> instant \<Rightarrow> uuid \<Rightarrow> uuid \<Rightarrow> string \<Rightarrow> run_continuation res" where
  "continuation_new i now run_id tool_invocation_id reason =
     bind_res (required_text reason ''agent run continuation reason'') (\<lambda>reason.
       Inr \<lparr>rq_id = i, rq_run_id = run_id, rq_tool_invocation_id = tool_invocation_id,
            rq_reason = reason, rq_queued_at = now\<rparr>)"

definition guidance_new :: "uuid \<Rightarrow> instant \<Rightarrow> uuid \<Rightarrow> string \<Rightarrow> run_guidance res" where
  "guidance_new i now run_id guidance =
     bind_res (required_text guidance ''agent run queued guidance'') (\<lambda>guidance.
       if char_count guidance > AGENT_RUN_GUIDANCE_MAX_CHARS
       then Inl ''agent run queued guidance exceeds 4000 characters''
       else Inr \<lparr>rg_id = i, rg_run_id = run_id, rg_guidance = guidance, rg_queued_at = now,
                 rg_applied_at = None\<rparr>)"

definition applied_new :: "uuid \<Rightarrow> instant \<Rightarrow> uuid \<Rightarrow> uuid \<Rightarrow> guidance_applied res" where
  "applied_new i now run_id guidance_id =
     (if is_nil guidance_id then Inl ''agent run applied guidance id is required''
      else Inr \<lparr>rap_id = i, rap_run_id = run_id, rap_guidance_id = guidance_id, rap_applied_at = now\<rparr>)"

definition cancel_new :: "uuid \<Rightarrow> instant \<Rightarrow> uuid \<Rightarrow> string \<Rightarrow> run_cancel res" where
  "cancel_new i now run_id reason =
     bind_res (required_text reason ''agent run cancel reason'') (\<lambda>reason.
       Inr \<lparr>rk_id = i, rk_run_id = run_id, rk_reason = reason, rk_requested_at = now\<rparr>)"

definition transition_new ::
    "uuid \<Rightarrow> instant \<Rightarrow> uuid \<Rightarrow> run_status \<Rightarrow> string \<Rightarrow> uuid option \<Rightarrow> run_transition res" where
  "transition_new i now run_id status reason tool_invocation_id =
     (if status \<notin> {Queued, Running, WaitingForPrerequisite, WaitingForConfirmation, Blocked}
      then Inl ''agent run transition status must be queued or non-terminal''
      else bind_res (required_text reason ''agent run transition reason'') (\<lambda>reason.
        Inr \<lparr>rt_id = i, rt_run_id = run_id, rt_status = status, rt_reason = reason,
             rt_tool_invocation_id = tool_invocation_id, rt_transitioned_at = now\<rparr>))"

definition resource_claim_new ::
    "uuid \<Rightarrow> instant \<Rightarrow> uuid option \<Rightarrow> uuid \<Rightarrow> string \<Rightarrow> claim_access \<Rightarrow> int \<Rightarrow> resource_claim res" where
  "resource_claim_new i now run_id tool_invocation_id key access lease_seconds =
     bind_res (required_text key ''agent run resource key'') (\<lambda>key.
       Inr \<lparr>cl_id = i, cl_run_id = run_id, cl_tool_invocation_id = tool_invocation_id,
            cl_resource_key = key, cl_access = access, cl_claimed_at = now,
            cl_lease_expires_at = now + seconds (max lease_seconds 1)\<rparr>)"

definition release_new :: "uuid \<Rightarrow> instant \<Rightarrow> resource_claim \<Rightarrow> string \<Rightarrow> resource_release res" where
  "release_new i now c outcome =
     bind_res (required_text outcome ''agent run resource release outcome'') (\<lambda>outcome.
       Inr \<lparr>rl_id = i, rl_claim_id = cl_id c, rl_run_id = cl_run_id c,
            rl_tool_invocation_id = cl_tool_invocation_id c, rl_resource_key = cl_resource_key c,
            rl_outcome = outcome, rl_released_at = now\<rparr>)"

definition step_new ::
    "uuid \<Rightarrow> instant \<Rightarrow> uuid \<Rightarrow> u32 \<Rightarrow> step_state \<Rightarrow> string \<Rightarrow> string \<Rightarrow> run_step res" where
  "step_new i now run_id sequence status label detail =
     bind_res (required_text label ''agent run step label'') (\<lambda>label.
     bind_res (required_text detail ''agent run step detail'') (\<lambda>detail.
       Inr \<lparr>sp_id = i, sp_run_id = run_id, sp_sequence = sequence, sp_status = status,
            sp_label = label, sp_detail = detail, sp_recorded_at = now\<rparr>))"

definition artifact_new ::
    "uuid \<Rightarrow> instant \<Rightarrow> uuid \<Rightarrow> string \<Rightarrow> string \<Rightarrow> string \<Rightarrow> run_artifact res" where
  "artifact_new i now run_id kind title path =
     bind_res (required_text kind ''agent run artifact kind'') (\<lambda>kind.
     bind_res (required_text title ''agent run artifact title'') (\<lambda>title.
     bind_res (required_text path ''agent run artifact path'') (\<lambda>path.
       Inr \<lparr>af_id = i, af_run_id = run_id, af_kind = kind, af_title = title, af_path = path,
            af_created_at = now\<rparr>)))"

section \<open>Finishing a run\<close>

definition finish_validate :: "run_finish \<Rightarrow> unit res" where
  "finish_validate f =
     (if rf_status f \<in> {Queued, Running, WaitingForPrerequisite, WaitingForConfirmation, Blocked,
                        CancelRequested}
      then Inl ''agent run finish status must be terminal''
      else if rf_status f = Failed \<and> rf_error f = None
      then Inl ''agent run failure requires an error''
      else if rf_status f \<noteq> Completed \<and> rf_goal_completion_receipt f \<noteq> None
      then Inl ''agent run goal completion receipt is only valid for completed status''
      else Inr ())"

definition finish_new ::
    "uuid \<Rightarrow> instant \<Rightarrow> uuid \<Rightarrow> run_status \<Rightarrow> string option \<Rightarrow> string option \<Rightarrow> run_finish res" where
  "finish_new i now run_id status summary error =
     (let f = \<lparr>rf_id = i, rf_run_id = run_id, rf_status = status,
               rf_summary = normalize_optional_text summary,
               rf_error = normalize_optional_text error, rf_goal_completion_receipt = None,
               rf_finished_at = now\<rparr> in
      bind_res (finish_validate f) (\<lambda>_. Inr f))"

definition completed_with_goal_receipt ::
    "uuid \<Rightarrow> instant \<Rightarrow> uuid \<Rightarrow> string option \<Rightarrow> completion_receipt \<Rightarrow> run_finish res" where
  "completed_with_goal_receipt i now run_id summary receipt =
     bind_res (finish_new i now run_id Completed summary None) (\<lambda>f.
       let f = f\<lparr>rf_goal_completion_receipt := Some receipt\<rparr> in
       bind_res (finish_validate f) (\<lambda>_. Inr f))"

end
