(* ===== verification/Run_Store.thy ===== *)
theory Run_Store
  imports Agent_Run
begin

text \<open>
  The runs of the event store (\<open>kernel/event_store.rs\<close>, from \<open>append_agent_run_start\<close> to
  \<open>ensure_agent_run_exists\<close>) and the table of checkpoints (\<open>kernel/event_store/goal_continuation.rs\<close>).
  A run is nothing but its events: every read folds the newest events of each type. The events of
  runs share the table \<open>kernel_events\<close> with those of the access tables; as every read selects by
  type they are kept here in a list of their own, in rowid order.

  An operation may append several events without a transaction around them, so it returns its
  result and the store it leaves, on failure too. The identifiers and instants it draws
  (\<open>Uuid::new_v4\<close>, \<open>Utc::now\<close>) come from \<open>rv_draw\<close>, the n-th draw from position n. The grouped
  approvals of a run, which a checkpoint lists, are the parameter \<open>rv_authorizations\<close>; texts and
  JSON are parameters too.
\<close>

section \<open>The store\<close>

datatype run_payload =
    is_started: RunStarted (the_start: run_start)
  | is_claimed: RunClaimed (the_claim: run_claim)
  | is_recovered: RunRecovered (the_recovery: run_recovery)
  | is_context: RunContextRecorded (the_context: run_context)
  | is_continued: RunContinuationQueued (the_continuation: run_continuation)
  | is_guided: RunGuidanceQueued (the_guidance: run_guidance)
  | is_applied: RunGuidanceApplied (the_applied: guidance_applied)
  | is_cancel: RunCancelRequested (the_cancel: run_cancel)
  | is_transition: RunTransitioned (the_transition: run_transition)
  | is_resource_claim: ResourceClaimed (the_resource_claim: resource_claim)
  | is_resource_release: ResourceReleased (the_resource_release: resource_release)
  | is_finish: RunFinished (the_finish: run_finish)
  | is_step: RunStepRecorded (the_step: run_step)
  | is_artifact: RunArtifactRecorded (the_artifact: run_artifact)
  | is_result: ExpertResultRecorded (the_result: attempt_result)
  | is_merge: ExpertMergeRecorded (the_merge: merge_receipt)
  | is_checkpoint: CheckpointRecorded (the_checkpoint: context_checkpoint)

type_synonym run_event = "run_payload kernel_event"

record checkpoint_row =
  kw_run_id :: uuid
  kw_schema_version :: string
  kw_goal_revision :: string
  kw_frozen_fingerprint :: string
  kw_status :: string
  kw_fingerprint :: string
  kw_checkpoint :: context_checkpoint
  kw_row_revision :: u64
  kw_created_at :: instant
  kw_updated_at :: instant

record run_store =
  rn_goals :: goal_store
  rn_checkpoints :: "checkpoint_row list"
  rn_runs :: "run_event list"
  rn_draws :: nat

record run_env =
  rv_goal :: goal_env
  rv_loop :: loop_json
  rv_sha :: digest
  rv_rfc3339 :: "instant \<Rightarrow> string"
  rv_artifact_json :: "uuid \<Rightarrow> string \<Rightarrow> string \<Rightarrow> string \<Rightarrow> string"
  rv_source_json :: "uuid \<Rightarrow> string option \<Rightarrow> tool_evidence list \<Rightarrow> bool \<Rightarrow> string"
  rv_simple_uuid :: "uuid \<Rightarrow> string"
  rv_authorizations :: "run_store \<Rightarrow> uuid \<Rightarrow> authorization_identity list store_res"
  rv_draw :: "nat \<Rightarrow> uuid \<times> instant"

section \<open>Operations\<close>

type_synonym 'a run_m = "run_store \<Rightarrow> 'a store_res \<times> run_store"

definition run_return :: "'a \<Rightarrow> 'a run_m" where
  "run_return x = (\<lambda>st. (Inr x, st))"

definition run_fail :: "store_error \<Rightarrow> 'a run_m" where
  "run_fail e = (\<lambda>st. (Inl e, st))"

definition run_bind :: "'a run_m \<Rightarrow> ('a \<Rightarrow> 'b run_m) \<Rightarrow> 'b run_m" where
  "run_bind m f = (\<lambda>st. case m st of (Inl e, st') \<Rightarrow> (Inl e, st') | (Inr x, st') \<Rightarrow> f x st')"

definition run_read :: "(run_store \<Rightarrow> 'a store_res) \<Rightarrow> 'a run_m" where
  "run_read f = (\<lambda>st. (f st, st))"

definition run_lift :: "'a store_res \<Rightarrow> 'a run_m" where
  "run_lift r = (\<lambda>st. (r, st))"

definition run_domain :: "'a res \<Rightarrow> 'a run_m" where
  "run_domain r = run_lift (invalid_state r)"

definition run_require :: "bool \<Rightarrow> store_error \<Rightarrow> unit run_m" where
  "run_require ok e = (if ok then run_return () else run_fail e)"

definition run_draw :: "run_env \<Rightarrow> (uuid \<times> instant) run_m" where
  "run_draw env = (\<lambda>st. (Inr (rv_draw env (rn_draws st)), st\<lparr>rn_draws := Suc (rn_draws st)\<rparr>))"

fun run_map :: "('a \<Rightarrow> 'b run_m) \<Rightarrow> 'a list \<Rightarrow> 'b list run_m" where
  "run_map f [] = run_return []"
| "run_map f (x # xs) = run_bind (f x) (\<lambda>y. run_bind (run_map f xs) (\<lambda>ys. run_return (y # ys)))"

definition event_ids :: "run_store \<Rightarrow> uuid set" where
  "event_ids st = ke_id ` set (rn_runs st) \<union> ke_id ` set (xs_events (gs_exec (rn_goals st)))"

text \<open>\<open>KernelEvent::new\<close> and the insertion; the events of runs change no projection.\<close>

definition run_append :: "run_env \<Rightarrow> run_payload \<Rightarrow> unit run_m" where
  "run_append env p = run_bind (run_draw env) (\<lambda>(i, now) st.
     if i \<in> event_ids st then (Inl (SqliteError ''UNIQUE constraint failed: kernel_events.id''), st)
     else (Inr (), st\<lparr>rn_runs := rn_runs st @ [\<lparr>ke_id = i, ke_payload = p, ke_created_at = now\<rparr>]\<rparr>))"

text \<open>\<open>list_by_type\<close>: the newest rows of a type, of one instant the last inserted first.\<close>

definition list_by_type :: "nat \<Rightarrow> (run_payload \<Rightarrow> bool) \<Rightarrow> (run_payload \<Rightarrow> 'a) \<Rightarrow> run_store \<Rightarrow> 'a list" where
  "list_by_type n is_type part st =
     map (\<lambda>e. part (ke_payload e))
       (take n (newest_first ke_created_at (rev (filter (\<lambda>e. is_type (ke_payload e)) (rn_runs st)))))"

definition list_agent_run_starts :: "run_store \<Rightarrow> run_start list" where
  "list_agent_run_starts = list_by_type 500 is_started the_start"
definition list_agent_run_claims :: "run_store \<Rightarrow> run_claim list" where
  "list_agent_run_claims = list_by_type 500 is_claimed the_claim"
definition list_agent_run_recoveries :: "run_store \<Rightarrow> run_recovery list" where
  "list_agent_run_recoveries = list_by_type 500 is_recovered the_recovery"
definition list_agent_run_execution_contexts :: "run_store \<Rightarrow> run_context list" where
  "list_agent_run_execution_contexts = list_by_type 500 is_context the_context"
definition list_agent_run_continuations :: "run_store \<Rightarrow> run_continuation list" where
  "list_agent_run_continuations = list_by_type 500 is_continued the_continuation"
definition list_agent_run_guidance :: "run_store \<Rightarrow> run_guidance list" where
  "list_agent_run_guidance = list_by_type 500 is_guided the_guidance"
definition list_agent_run_guidance_applications :: "run_store \<Rightarrow> guidance_applied list" where
  "list_agent_run_guidance_applications = list_by_type 500 is_applied the_applied"
definition list_agent_run_cancel_requests :: "run_store \<Rightarrow> run_cancel list" where
  "list_agent_run_cancel_requests = list_by_type 500 is_cancel the_cancel"
definition list_agent_run_transitions :: "run_store \<Rightarrow> run_transition list" where
  "list_agent_run_transitions = list_by_type 1000 is_transition the_transition"
definition list_agent_run_resource_claims :: "run_store \<Rightarrow> resource_claim list" where
  "list_agent_run_resource_claims = list_by_type 1000 is_resource_claim the_resource_claim"
definition list_agent_run_resource_releases :: "run_store \<Rightarrow> resource_release list" where
  "list_agent_run_resource_releases = list_by_type 1000 is_resource_release the_resource_release"
definition list_agent_run_finishes :: "run_store \<Rightarrow> run_finish list" where
  "list_agent_run_finishes = list_by_type 500 is_finish the_finish"
definition list_agent_run_steps :: "run_store \<Rightarrow> run_step list" where
  "list_agent_run_steps = list_by_type 1000 is_step the_step"
definition list_agent_run_artifacts :: "run_store \<Rightarrow> run_artifact list" where
  "list_agent_run_artifacts = list_by_type 1000 is_artifact the_artifact"
definition list_expert_attempt_results :: "run_store \<Rightarrow> attempt_result list" where
  "list_expert_attempt_results = list_by_type 1000 is_result the_result"
definition list_expert_merge_receipts :: "run_store \<Rightarrow> merge_receipt list" where
  "list_expert_merge_receipts = list_by_type 500 is_merge the_merge"

section \<open>Checkpoints of the goal loop\<close>

fun checkpoint_status_text :: "checkpoint_status \<Rightarrow> string" where
  "checkpoint_status_text CheckpointContinue = ''continue''"
| "checkpoint_status_text CheckpointComplete = ''complete''"
| "checkpoint_status_text CheckpointBlocked = ''blocked''"

text \<open>The columns hold the instants themselves: the text of an instant has all its nanoseconds.\<close>

definition decode_checkpoint :: "run_env \<Rightarrow> uuid \<Rightarrow> checkpoint_row \<Rightarrow> context_checkpoint store_res" where
  "decode_checkpoint env run_id w =
     (let c = kw_checkpoint w in
      bind_res (invalid_state (checkpoint_validate (rv_goal env) (rv_loop env) c)) (\<lambda>_.
        if ck_run_id c \<noteq> run_id \<or> kw_schema_version w \<noteq> CONTEXT_CHECKPOINT_VERSION
           \<or> ck_version c \<noteq> kw_schema_version w \<or> fe_revision (ck_goal c) \<noteq> kw_goal_revision w
           \<or> fe_fingerprint (ck_goal c) \<noteq> kw_frozen_fingerprint w
           \<or> checkpoint_status_text (ck_status c) \<noteq> kw_status w
           \<or> ck_fingerprint c \<noteq> kw_fingerprint w \<or> ck_created_at c \<noteq> kw_created_at w
           \<or> ck_updated_at c \<noteq> kw_updated_at w
        then Inl (InvalidState ''context_checkpoint_projection_columns_drifted'') else Inr c))"

definition context_checkpoint_from_connection ::
    "run_env \<Rightarrow> run_store \<Rightarrow> uuid \<Rightarrow> context_checkpoint option store_res" where
  "context_checkpoint_from_connection env st run_id =
     (case row_of kw_run_id (rn_checkpoints st) run_id of
        None \<Rightarrow> Inr None
      | Some w \<Rightarrow> bind_res (decode_checkpoint env run_id w) (\<lambda>c. Inr (Some c)))"

definition goal_context_checkpoint ::
    "run_env \<Rightarrow> run_store \<Rightarrow> uuid \<Rightarrow> context_checkpoint option store_res" where
  "goal_context_checkpoint env st run_id =
     bind_res (context_checkpoint_from_connection env st run_id) (\<lambda>found.
     case found of None \<Rightarrow> Inr None
     | Some c \<Rightarrow>
         bind_res (goal_envelope_projection (rv_goal env) (rn_goals st) run_id) (\<lambda>goal.
         bind_res (ok_or goal (InvalidState ''context_checkpoint_goal_missing'')) (\<lambda>j.
         bind_res (invalid_state (validate_against_goal (rv_goal env) (rv_loop env) c j)) (\<lambda>_.
           Inr (Some c)))))"

definition goal_context_checkpoint_prompt :: "run_env \<Rightarrow> run_store \<Rightarrow> uuid \<Rightarrow> string option store_res" where
  "goal_context_checkpoint_prompt env st run_id =
     bind_res (goal_context_checkpoint env st run_id) (\<lambda>found.
     case found of None \<Rightarrow> Inr None
     | Some c \<Rightarrow> bind_res (invalid_state (advisory_prompt (rv_goal env) (rv_loop env) c)) (\<lambda>t.
         Inr (Some t)))"

definition blocker_reason_from_connection :: "run_env \<Rightarrow> run_store \<Rightarrow> uuid \<Rightarrow> string option store_res" where
  "blocker_reason_from_connection env st run_id =
     bind_res (goal_context_checkpoint env st run_id) (\<lambda>found.
       Inr (case found of None \<Rightarrow> None | Some c \<Rightarrow> blocker_reason c))"

definition classify_run :: "run_env \<Rightarrow> run_store \<Rightarrow> uuid \<Rightarrow> run_classification store_res" where
  "classify_run env st run_id =
     classify_agent_run_completion_from_connection (rv_goal env)
       (blocker_reason_from_connection env st) (rn_goals st) run_id"

section \<open>The record of a run\<close>

definition AGENT_RUN_LEGACY_GOAL_COMPLETION_UNVERIFIED_REASON :: string where
  "AGENT_RUN_LEGACY_GOAL_COMPLETION_UNVERIFIED_REASON = ''legacy_goal_completion_unverified''"

text \<open>A stored completion that the goal does not support any more blocks its run.\<close>

definition agent_run_finish_restart_block_reason ::
    "run_env \<Rightarrow> run_store \<Rightarrow> run_finish \<Rightarrow> string option store_res" where
  "agent_run_finish_restart_block_reason env st f =
     (let unverified = Some AGENT_RUN_LEGACY_GOAL_COMPLETION_UNVERIFIED_REASON in
      if rf_status f \<noteq> Completed then Inr None
      else (case classify_run env st (rf_run_id f) of
          Inl (InvalidState _) \<Rightarrow> Inr unverified
        | Inl e \<Rightarrow> Inl e
        | Inr GoalLess \<Rightarrow> Inr (if rf_goal_completion_receipt f = None then None else unverified)
        | Inr (ExactComplete r) \<Rightarrow>
            Inr (if rf_goal_completion_receipt f = Some r then None else unverified)
        | Inr (ClassifiedBlocked _) \<Rightarrow> Inr unverified))"

text \<open>\<open>applied_by_guidance_id.remove\<close>: an application goes to the first guidance of its id.\<close>

fun apply_guidance :: "(uuid \<rightharpoonup> guidance_applied) \<Rightarrow> run_guidance list \<Rightarrow> run_guidance list" where
  "apply_guidance m [] = []"
| "apply_guidance m (g # gs) =
     g\<lparr>rg_applied_at :=
        (case m (rg_id g) of None \<Rightarrow> None
         | Some a \<Rightarrow> if rap_run_id a = rg_run_id g then Some (rap_applied_at a) else None)\<rparr>
     # apply_guidance (m(rg_id g := None)) gs"

definition last_by :: "('a \<Rightarrow> uuid) \<Rightarrow> 'a list \<Rightarrow> (uuid \<rightharpoonup> 'a)" where
  "last_by key xs = fold (\<lambda>x m. m(key x \<mapsto> x)) xs Map.empty"

record run_history =
  rh_guidance :: "run_guidance list"
  rh_cancel :: "run_cancel option"
  rh_claim :: "run_claim option"
  rh_recovery :: "run_recovery option"
  rh_recovery_count :: nat
  rh_context :: "run_context option"
  rh_continuation :: "run_continuation option"
  rh_continuation_count :: nat
  rh_transition :: "run_transition option"
  rh_finish :: "run_finish option"
  rh_steps :: "run_step list"
  rh_artifacts :: "run_artifact list"
  rh_result :: "attempt_result option"
  rh_merge :: "merge_receipt option"

definition no_history :: run_history where
  "no_history =
     \<lparr>rh_guidance = [], rh_cancel = None, rh_claim = None, rh_recovery = None, rh_recovery_count = 0,
      rh_context = None, rh_continuation = None, rh_continuation_count = 0, rh_transition = None,
      rh_finish = None, rh_steps = [], rh_artifacts = [], rh_result = None, rh_merge = None\<rparr>"

definition history_of :: "run_store \<Rightarrow> uuid \<Rightarrow> run_history" where
  "history_of st i =
     \<lparr>rh_guidance = sort_key rg_queued_at (filter (\<lambda>g. rg_run_id g = i)
        (apply_guidance
          (latest_by rap_guidance_id rap_applied_at (list_agent_run_guidance_applications st))
          (list_agent_run_guidance st))),
      rh_cancel = latest_by rk_run_id rk_requested_at (list_agent_run_cancel_requests st) i,
      rh_claim = latest_by rc_run_id rc_claimed_at (list_agent_run_claims st) i,
      rh_recovery = latest_by ry_run_id ry_recovered_at (list_agent_run_recoveries st) i,
      rh_recovery_count = length (filter (\<lambda>y. ry_run_id y = i) (list_agent_run_recoveries st)),
      rh_context = latest_by rx_run_id rx_recorded_at (list_agent_run_execution_contexts st) i,
      rh_continuation = latest_by rq_run_id rq_queued_at (list_agent_run_continuations st) i,
      rh_continuation_count =
        length (filter (\<lambda>q. rq_run_id q = i) (list_agent_run_continuations st)),
      rh_transition = latest_by rt_run_id rt_transitioned_at (list_agent_run_transitions st) i,
      rh_finish = latest_by rf_run_id rf_finished_at (list_agent_run_finishes st) i,
      rh_steps = sort_key (\<lambda>s. (sp_sequence s, sp_recorded_at s))
        (filter (\<lambda>s. sp_run_id s = i) (list_agent_run_steps st)),
      rh_artifacts = sort_key af_created_at (filter (\<lambda>a. af_run_id a = i) (list_agent_run_artifacts st)),
      rh_result = last_by er_run_id (list_expert_attempt_results st) i,
      rh_merge = last_by mr_parent_run_id (list_expert_merge_receipts st) i\<rparr>"

text \<open>\<open>Option::is_none_or\<close> over instants, and the later of two optional instants.\<close>

definition later_of :: "instant option \<Rightarrow> instant option \<Rightarrow> instant option" where
  "later_of x y = (case (x, y) of (Some a, Some b) \<Rightarrow> Some (max a b) | (None, z) \<Rightarrow> z | (z, None) \<Rightarrow> z)"

definition queue_at :: "run_history \<Rightarrow> instant option" where
  "queue_at h =
     later_of (map_option ry_recovered_at (rh_recovery h)) (map_option rq_queued_at (rh_continuation h))"

definition transition_is_latest :: "run_history \<Rightarrow> bool" where
  "transition_is_latest h \<longleftrightarrow>
     is_some_and (map_option rt_transitioned_at (rh_transition h)) (\<lambda>t.
       is_none_or (map_option rc_claimed_at (rh_claim h)) (\<lambda>c. t \<ge> c)
       \<and> is_none_or (queue_at h) (\<lambda>q. t \<ge> q))"

definition queue_is_latest :: "run_history \<Rightarrow> bool" where
  "queue_is_latest h \<longleftrightarrow>
     is_some_and (queue_at h) (\<lambda>q.
       is_none_or (map_option rc_claimed_at (rh_claim h)) (\<lambda>c. q \<ge> c)
       \<and> is_none_or (map_option rt_transitioned_at (rh_transition h)) (\<lambda>t. q > t))"

definition open_status :: "run_start \<Rightarrow> run_history \<Rightarrow> run_status" where
  "open_status s h =
     (if transition_is_latest h
      then (case rh_transition h of None \<Rightarrow> rs_initial_status s | Some t \<Rightarrow> rt_status t)
      else if queue_is_latest h then Queued
      else if rh_claim h \<noteq> None then Running else rs_initial_status s)"

definition queue_reason :: "run_history \<Rightarrow> string option" where
  "queue_reason h =
     (case (rh_recovery h, rh_continuation h) of
        (Some y, Some q) \<Rightarrow>
          if ry_recovered_at y \<ge> rq_queued_at q then Some (ry_reason y) else Some (rq_reason q)
      | (None, Some q) \<Rightarrow> Some (rq_reason q)
      | (Some y, None) \<Rightarrow> Some (ry_reason y)
      | (None, None) \<Rightarrow> None)"

definition opt_list :: "('a \<Rightarrow> instant) \<Rightarrow> 'a option \<Rightarrow> instant list" where
  "opt_list at x = (case x of None \<Rightarrow> [] | Some y \<Rightarrow> [at y])"

definition updated_at_of :: "run_start \<Rightarrow> run_history \<Rightarrow> bool \<Rightarrow> instant" where
  "updated_at_of s h finish_counts =
     foldl max (rs_started_at s)
       ((if finish_counts then opt_list rf_finished_at (rh_finish h) else [])
        @ concat (map (\<lambda>g. rg_queued_at g # opt_list (\<lambda>x. x) (rg_applied_at g)) (rh_guidance h))
        @ map sp_recorded_at (rh_steps h) @ map af_created_at (rh_artifacts h)
        @ opt_list rc_claimed_at (rh_claim h) @ opt_list ry_recovered_at (rh_recovery h)
        @ opt_list rx_recorded_at (rh_context h) @ opt_list rq_queued_at (rh_continuation h)
        @ opt_list rt_transitioned_at (rh_transition h) @ opt_list rk_requested_at (rh_cancel h))"

text \<open>
  The record of a run: \<open>block\<close> is the reason its finish does not count. A cancel request shows
  until the run has been cancelled or has failed.
\<close>

definition record_from :: "run_start \<Rightarrow> run_history \<Rightarrow> string option \<Rightarrow> run_record" where
  "record_from s h block =
     (let finish = (if block = None then rh_finish h else None);
          status = (case finish of Some f \<Rightarrow> rf_status f
            | None \<Rightarrow> if block \<noteq> None then Blocked else open_status s h);
          reason = (if block \<noteq> None then block
            else if finish = None \<and> transition_is_latest h
            then map_option rt_reason (rh_transition h)
            else if finish = None \<and> queue_is_latest h then queue_reason h else None);
          waiting = (if finish = None \<and> block = None \<and> transition_is_latest h
            then Option.bind (rh_transition h) rt_tool_invocation_id else None);
          claim = (if queue_is_latest h
              \<or> is_some_and (rh_transition h) (\<lambda>t. rt_status t = Queued)
            then None else rh_claim h);
          cancelling = rh_cancel h \<noteq> None
            \<and> \<not> is_some_and finish (\<lambda>f. rf_status f = Cancelled \<or> rf_status f = Failed) in
      \<lparr>rec_id = rs_id s, rec_conversation_id = rs_conversation_id s, rec_prompt = rs_prompt s,
       rec_execution_prompt = map_option rx_execution_prompt (rh_context h),
       rec_execution_context_recorded_at = map_option rx_recorded_at (rh_context h),
       rec_attachment_count = rs_attachment_count s, rec_role = rs_role s,
       rec_parent_run_id = rs_parent_run_id s, rec_subtask_key = rs_subtask_key s,
       rec_expert_contract = rs_expert_contract s, rec_expert_result = rh_result h,
       rec_expert_merge_receipt = rh_merge h,
       rec_status = (if cancelling then CancelRequested else status),
       rec_worker_id = map_option rc_worker_id claim,
       rec_lease_expires_at = map_option rc_lease_expires_at claim,
       rec_recovery_count = rh_recovery_count h,
       rec_last_recovered_at = map_option ry_recovered_at (rh_recovery h),
       rec_recovery_reason = map_option ry_reason (rh_recovery h),
       rec_continuation_count = rh_continuation_count h,
       rec_continuation_queued_at = map_option rq_queued_at (rh_continuation h),
       rec_continuation_tool_invocation_id = map_option rq_tool_invocation_id (rh_continuation h),
       rec_queued_guidance = rh_guidance h, rec_steps = rh_steps h, rec_artifacts = rh_artifacts h,
       rec_cancel_requested = (rh_cancel h \<noteq> None),
       rec_cancel_reason = map_option rk_reason (rh_cancel h),
       rec_status_reason = (if cancelling then map_option rk_reason (rh_cancel h) else reason),
       rec_waiting_tool_invocation_id = (if cancelling then None else waiting),
       rec_started_at = rs_started_at s,
       rec_updated_at = updated_at_of s h (rh_finish h \<noteq> None),
       rec_finished_at = map_option rf_finished_at finish,
       rec_finish_summary = Option.bind finish rf_summary,
       rec_finish_error = Option.bind finish rf_error\<rparr>)"

text \<open>The maps are emptied as they are read, so a second start of one id has no history.\<close>

fun records_of ::
    "run_env \<Rightarrow> run_store \<Rightarrow> uuid set \<Rightarrow> run_start list \<Rightarrow> run_record list store_res" where
  "records_of env st seen [] = Inr []"
| "records_of env st seen (s # ss) =
     (let h = (if rs_id s \<in> seen then no_history else history_of st (rs_id s)) in
      bind_res (case rh_finish h of None \<Rightarrow> Inr None
                | Some f \<Rightarrow> agent_run_finish_restart_block_reason env st f) (\<lambda>block.
      bind_res (records_of env st (insert (rs_id s) seen) ss) (\<lambda>rs.
        Inr (record_from s h block # rs))))"

definition list_agent_run_records :: "run_env \<Rightarrow> run_store \<Rightarrow> run_record list store_res" where
  "list_agent_run_records env st = records_of env st {} (list_agent_run_starts st)"

definition find_record :: "run_record list \<Rightarrow> uuid \<Rightarrow> run_record option" where
  "find_record rs i = find (\<lambda>r. rec_id r = i) rs"

definition run_not_found :: "run_env \<Rightarrow> uuid \<Rightarrow> store_error" where
  "run_not_found env i = NotFound (''agent run '' @ ge_uuid_text (rv_goal env) i)"

definition the_record :: "run_env \<Rightarrow> run_record list \<Rightarrow> uuid \<Rightarrow> run_record store_res" where
  "the_record env rs i = ok_or (find_record rs i) (run_not_found env i)"

definition ensure_agent_run_exists :: "run_env \<Rightarrow> uuid \<Rightarrow> unit run_m" where
  "ensure_agent_run_exists env i = run_read (\<lambda>st.
     if (\<exists>s \<in> set (list_agent_run_starts st). rs_id s = i) then Inr () else Inl (run_not_found env i))"

section \<open>Starting runs\<close>

definition EXPERT_TEAM_MAX_TOTAL_ATTEMPTS :: nat where "EXPERT_TEAM_MAX_TOTAL_ATTEMPTS = 8"

definition child_count :: "run_start list \<Rightarrow> uuid \<Rightarrow> nat" where
  "child_count starts parent_id = length (filter (\<lambda>s. rs_parent_run_id s = Some parent_id) starts)"

definition subagent_linkage :: "run_env \<Rightarrow> run_start list \<Rightarrow> run_start \<Rightarrow> unit store_res" where
  "subagent_linkage env starts s =
     bind_res (ok_or (rs_parent_run_id s) (InvalidState ''subagent run requires a parent run'')) (\<lambda>parent_id.
     bind_res (ok_or (find (\<lambda>r. rs_id r = parent_id) starts)
       (InvalidState ''subagent parent run does not exist'')) (\<lambda>parent.
       let expert = rs_expert_contract s \<noteq> None;
           limit = (if expert then EXPERT_TEAM_MAX_TOTAL_ATTEMPTS else AGENT_RUN_MAX_PARALLEL_SUBAGENTS) in
       if rs_role parent \<noteq> ParentRun \<or> rs_parent_run_id parent \<noteq> None
       then Inl (InvalidState ''recursive subagent delegation is not supported'')
       else if rs_conversation_id parent \<noteq> rs_conversation_id s
       then Inl (InvalidState ''subagent must remain in its parent conversation'')
       else if child_count starts parent_id \<ge> limit
       then Inl (InvalidState (''a parent run may create at most ''
              @ (if expert then ''8'' else ''3'') @ '' child attempts''))
       else if is_some_and (rs_expert_contract s) (\<lambda>c.
              ac_parent_run_id c \<noteq> parent_id \<or> ac_key c \<noteq> or_default (rs_subtask_key s)
              \<or> ac_parent_input_revision c \<noteq> parent_input_revision (rv_sha env) (rs_prompt parent))
       then Inl (InvalidState ''expert attempt contract does not match its immutable parent input'')
       else Inr ()))"

definition append_agent_run_start :: "run_env \<Rightarrow> run_start \<Rightarrow> bool run_m" where
  "append_agent_run_start env s =
     run_bind (run_read (\<lambda>st. Inr (list_agent_run_starts st))) (\<lambda>starts.
       if (\<exists>r \<in> set starts. rs_id r = rs_id s) then run_return False
       else run_bind (run_lift
           (if rs_role s = SubagentRun then subagent_linkage env starts s
            else if rs_parent_run_id s \<noteq> None \<or> rs_subtask_key s \<noteq> None
            then Inl (InvalidState ''parent run cannot carry subagent linkage'')
            else Inr ())) (\<lambda>_.
         run_bind (run_append env (RunStarted s)) (\<lambda>_. run_return True)))"

definition the_records :: "run_env \<Rightarrow> run_record list run_m" where
  "the_records env = run_read (\<lambda>st. list_agent_run_records env st)"

definition records_among :: "run_env \<Rightarrow> uuid set \<Rightarrow> run_record list run_m" where
  "records_among env ids =
     run_bind (the_records env) (\<lambda>rs. run_return (filter (\<lambda>r. rec_id r \<in> ids) rs))"

definition the_run :: "run_env \<Rightarrow> uuid \<Rightarrow> run_record run_m" where
  "the_run env i = run_bind (the_records env) (\<lambda>rs. run_lift (the_record env rs i))"

text \<open>The parent of a new plan: its record, if it may have one.\<close>

definition plan_parent :: "run_env \<Rightarrow> uuid \<Rightarrow> string \<Rightarrow> string \<Rightarrow> string \<Rightarrow> run_record run_m" where
  "plan_parent env parent_run_id not_parent bad_status has_plan =
     run_bind (the_records env) (\<lambda>rs.
     run_bind (run_lift (the_record env rs parent_run_id)) (\<lambda>parent.
     run_bind (run_require (rec_role parent = ParentRun \<and> rec_parent_run_id parent = None)
       (InvalidState not_parent)) (\<lambda>_.
     run_bind (run_require (rec_status parent \<in> {Queued, Running})
       (InvalidState (bad_status @ run_status_debug (rec_status parent)))) (\<lambda>_.
     run_bind (run_require (\<forall>r \<in> set rs. rec_parent_run_id r \<noteq> Some parent_run_id)
       (InvalidState has_plan)) (\<lambda>_. run_return parent)))))"

fun subagent_starts ::
    "run_env \<Rightarrow> run_record \<Rightarrow> string set \<Rightarrow> (string \<times> string) list \<Rightarrow> run_start list run_m" where
  "subagent_starts env parent keys [] = run_return []"
| "subagent_starts env parent keys ((key, prompt) # rest) =
     run_bind (run_draw env) (\<lambda>(i, now).
     run_bind (run_domain
       (queued_subagent i now (rec_id parent) (rec_conversation_id parent) key prompt)) (\<lambda>s.
     run_bind (run_require (or_default (rs_subtask_key s) \<notin> keys)
       (InvalidState ''subagent subtask keys must be unique within a parent run'')) (\<lambda>_.
     run_bind (subagent_starts env parent (insert (or_default (rs_subtask_key s)) keys) rest) (\<lambda>ss.
       run_return (s # ss)))))"

definition append_subagent_runs ::
    "run_env \<Rightarrow> uuid \<Rightarrow> (string \<times> string) list \<Rightarrow> run_record list run_m" where
  "append_subagent_runs env parent_run_id subtasks =
     (if subtasks = [] \<or> length subtasks > AGENT_RUN_MAX_PARALLEL_SUBAGENTS
      then run_fail (InvalidState ''subagent plan must contain between 1 and 3 subtasks'')
      else run_bind (plan_parent env parent_run_id ''only a parent run may create subagents''
          ''parent run cannot create subagents from status '' ''parent run already has a subagent plan'')
        (\<lambda>parent.
        run_bind (subagent_starts env parent {} subtasks) (\<lambda>starts.
        run_bind (run_map (append_agent_run_start env) starts) (\<lambda>_.
          records_among env (rs_id ` set starts)))))"

text \<open>
  A team is stored in one transaction: if an event fails none is kept. \<open>team_id\<close> and \<open>order\<close>,
  the order of a hash map, are those of \<open>validate_team_plan\<close>.
\<close>

definition run_atomic :: "'a run_m \<Rightarrow> 'a run_m" where
  "run_atomic m = (\<lambda>st. case m st of (Inl e, st') \<Rightarrow> (Inl e, st\<lparr>rn_draws := rn_draws st'\<rparr>) | r \<Rightarrow> r)"

definition append_expert_team_runs ::
    "run_env \<Rightarrow> uuid \<Rightarrow> string list \<Rightarrow> uuid \<Rightarrow> plan_item list \<Rightarrow> run_record list run_m" where
  "append_expert_team_runs env team_id order parent_run_id items =
     run_bind (plan_parent env parent_run_id ''only a parent run may create an expert team''
         ''parent run cannot create an expert team from status '' ''parent run already has a child plan'')
       (\<lambda>parent.
       run_bind (run_domain (validate_team_plan (rv_sha env) team_id order parent_run_id
           (rec_prompt parent) items)) (\<lambda>contracts.
       run_bind (run_map (\<lambda>c. run_bind (run_draw env) (\<lambda>(i, now).
           run_domain (queued_expert i now parent_run_id (rec_conversation_id parent) c))) contracts) (\<lambda>starts.
       run_bind (run_atomic (run_map (\<lambda>s. run_append env (RunStarted s)) starts)) (\<lambda>_.
         records_among env (rs_id ` set starts)))))"

section \<open>Retrying experts\<close>

definition contract_attempt :: "run_record \<Rightarrow> u8" where
  "contract_attempt r = (case rec_expert_contract r of None \<Rightarrow> 0 | Some c \<Rightarrow> ac_attempt c)"

definition attempts_of :: "run_record list \<Rightarrow> uuid \<Rightarrow> string \<Rightarrow> run_record list" where
  "attempts_of rs parent_run_id key =
     sort_key contract_attempt
       (filter (\<lambda>r. rec_parent_run_id r = Some parent_run_id
          \<and> is_some_and (rec_expert_contract r) (\<lambda>c. eq_ignore_ascii_case (ac_key c) key)) rs)"

definition digits :: "u8 \<Rightarrow> string" where
  "digits n = (let n = unat n; d = (\<lambda>k. char_of (48 + k mod 10)) in
     if n < 10 then [d n] else if n < 100 then [d (n div 10), d n]
     else [d (n div 100), d (n div 10), d n])"

definition retry_prompt :: "attempt_contract \<Rightarrow> string option \<Rightarrow> string" where
  "retry_prompt c finish_error =
     fst (take_chars 4000
       (''Retry attempt '' @ digits (ac_attempt c)
        @ '' for the same bounded expert assignment. Preserve uncertainty and correct the previous failure without expanding capability scope.''
        @ [CHR 0x0A, CHR 0x0A] @ ''Original assignment:'' @ [CHR 0x0A] @ ac_prompt c
        @ [CHR 0x0A, CHR 0x0A] @ ''Previous failure:'' @ [CHR 0x0A]
        @ (case finish_error of Some e \<Rightarrow> e
           | None \<Rightarrow> ''The previous attempt did not pass its deterministic quality gate.'')))"

text \<open>The contract of the next attempt.\<close>

definition retry_contract :: "run_record \<Rightarrow> attempt_contract \<Rightarrow> attempt_contract" where
  "retry_contract latest c =
     (let c = c\<lparr>ac_attempt := sat_inc (ac_attempt c), ac_previous_attempt_run_id := Some (rec_id latest),
                ac_role := (case rp_substitute_role (ac_retry_policy c) of
                    Some role \<Rightarrow> role | None \<Rightarrow> ac_role c)\<rparr> in
      c\<lparr>ac_prompt := retry_prompt c (rec_finish_error latest)\<rparr>)"

definition append_expert_retry :: "run_env \<Rightarrow> uuid \<Rightarrow> string \<Rightarrow> run_record run_m" where
  "append_expert_retry env parent_run_id key =
     run_bind (the_records env) (\<lambda>rs.
     run_bind (run_lift (the_record env rs parent_run_id)) (\<lambda>parent.
       let attempts = attempts_of rs parent_run_id key in
       if attempts = []
       then run_fail (NotFound (''expert attempt '' @ ge_uuid_text (rv_goal env) parent_run_id @ ''/'' @ key))
       else let latest = last attempts in
         run_bind (run_lift (ok_or (rec_expert_contract latest)
           (InvalidState ''expert retry requires a contract''))) (\<lambda>c.
         run_bind (run_require (rec_status latest \<in> {Failed, Cancelled})
           (InvalidState ''only a failed or cancelled latest expert attempt may retry'')) (\<lambda>_.
         run_bind (run_require (\<not> is_some_and (rec_expert_result latest) (\<lambda>r. \<not> er_retry_eligible r)
             \<and> ac_attempt c < rp_max_attempts (ac_retry_policy c))
           (InvalidState ''expert retry policy is exhausted or the effect state is unsafe'')) (\<lambda>_.
         run_bind (run_require
             (length (filter (\<lambda>r. rec_parent_run_id r = Some parent_run_id) rs)
                < EXPERT_TEAM_MAX_TOTAL_ATTEMPTS)
           (InvalidState ''expert team total attempt budget is exhausted'')) (\<lambda>_.
         let c = retry_contract latest c in
         run_bind (run_require
             (ac_parent_input_revision c = parent_input_revision (rv_sha env) (rec_prompt parent))
           (InvalidState ''expert retry parent input revision is stale'')) (\<lambda>_.
         run_bind (run_draw env) (\<lambda>(i, now).
         run_bind (run_domain (queued_expert i now parent_run_id (rec_conversation_id parent) c)) (\<lambda>s.
         run_bind (append_agent_run_start env s) (\<lambda>_.
           the_run env (rs_id s)))))))))))"

text \<open>
  The latest attempt of every key, by the loop of the other views; the hash map is left in any
  order, but its keys are sorted before they are used.
\<close>

definition expert_key :: "run_record \<Rightarrow> string" where
  "expert_key r = (case rec_expert_contract r of None \<Rightarrow> [] | Some c \<Rightarrow> ac_key c)"

definition due_retry :: "run_record \<Rightarrow> bool" where
  "due_retry r \<longleftrightarrow> rec_status r \<in> {Failed, Cancelled} \<and>
     is_some_and (rec_expert_contract r) (\<lambda>c.
       case rec_expert_result r of Some x \<Rightarrow> er_retry_eligible x
       | None \<Rightarrow> ac_attempt c < rp_max_attempts (ac_retry_policy c))"

definition due_keys :: "run_record list \<Rightarrow> uuid \<Rightarrow> string list" where
  "due_keys rs parent_run_id =
     (let experts = filter (\<lambda>r. rec_parent_run_id r = Some parent_run_id
            \<and> rec_expert_contract r \<noteq> None) rs;
          key = (\<lambda>r. ascii_lowercase (expert_key r));
          latest = latest_by key (\<lambda>r. int (unat (contract_attempt r))) experts in
      sort (map expert_key (filter due_retry (List.map_filter latest (remdups (map key experts))))))"

definition append_due_expert_retries :: "run_env \<Rightarrow> uuid \<Rightarrow> run_record list run_m" where
  "append_due_expert_retries env parent_run_id =
     run_bind (the_records env) (\<lambda>rs.
       run_map (append_expert_retry env parent_run_id) (due_keys rs parent_run_id))"

section \<open>Cancelling\<close>

definition append_agent_run_cancel_request :: "run_env \<Rightarrow> run_cancel \<Rightarrow> unit run_m" where
  "append_agent_run_cancel_request env k =
     run_bind (ensure_agent_run_exists env (rk_run_id k)) (\<lambda>_. run_append env (RunCancelRequested k))"

definition request_agent_run_tree_cancel :: "run_env \<Rightarrow> uuid \<Rightarrow> string \<Rightarrow> run_record list run_m" where
  "request_agent_run_tree_cancel env parent_run_id reason =
     run_bind (the_records env) (\<lambda>rs.
     run_bind (run_lift (the_record env rs parent_run_id)) (\<lambda>parent.
     run_bind (run_require (rec_role parent = ParentRun)
       (InvalidState ''run-tree cancellation must target the parent run'')) (\<lambda>_.
     let targets = map rec_id (filter (\<lambda>r. (rec_id r = parent_run_id
           \<or> rec_parent_run_id r = Some parent_run_id) \<and> \<not> terminal (rec_status r)) rs) in
     run_bind (run_map (\<lambda>t. run_bind (run_draw env) (\<lambda>(i, now).
         run_bind (run_domain (cancel_new i now t reason)) (append_agent_run_cancel_request env))) targets) (\<lambda>_.
       records_among env (set targets)))))"

section \<open>Claiming runs\<close>

definition same_team :: "attempt_contract \<Rightarrow> run_record \<Rightarrow> bool" where
  "same_team c r \<longleftrightarrow> is_some_and (rec_expert_contract r) (\<lambda>d. ac_team_id d = ac_team_id c)"

text \<open>\<open>max_by_key\<close> keeps the last of the greatest.\<close>

definition latest_attempt :: "run_record list \<Rightarrow> string \<Rightarrow> run_record option" where
  "latest_attempt team key =
     (case filter (\<lambda>r. is_some_and (rec_expert_contract r) (\<lambda>d. eq_ignore_ascii_case (ac_key d) key)) team of
        [] \<Rightarrow> None
      | xs \<Rightarrow> Some (last (sort_key contract_attempt xs)))"

definition dependency_passed :: "run_record list \<Rightarrow> string \<Rightarrow> bool" where
  "dependency_passed team key \<longleftrightarrow>
     is_some_and (latest_attempt team key) (\<lambda>d. rec_status d = Completed
       \<and> is_some_and (rec_expert_result d) passed)"

definition expert_attempt_ready :: "run_env \<Rightarrow> run_record \<Rightarrow> run_record list \<Rightarrow> bool" where
  "expert_attempt_ready env r rs =
     (case rec_expert_contract r of None \<Rightarrow> True
      | Some c \<Rightarrow>
          (case find_record rs (ac_parent_run_id c) of None \<Rightarrow> False
           | Some parent \<Rightarrow>
               let team = filter (same_team c) rs in
               parent_input_revision (rv_sha env) (rec_prompt parent) = ac_parent_input_revision c
               \<and> length (filter (\<lambda>x. rec_status x = Running) team) < AGENT_RUN_MAX_PARALLEL_SUBAGENTS
               \<and> list_all (dependency_passed team) (ac_depends_on c)
               \<and> \<not> list_ex (\<lambda>x. rec_id x \<noteq> rec_id r \<and> rec_status x = Running
                    \<and> is_some_and (rec_expert_contract x) (\<lambda>d.
                        resources_conflict (ac_resources c) (ac_resources d))) team))"

definition append_agent_run_claim :: "run_env \<Rightarrow> run_claim \<Rightarrow> unit run_m" where
  "append_agent_run_claim env c =
     run_bind (ensure_agent_run_exists env (rc_run_id c)) (\<lambda>_.
     run_bind (the_records env) (\<lambda>rs.
     run_bind (run_require (is_none_or (find_record rs (rc_run_id c)) (\<lambda>r.
         \<not> (rec_status r = Queued \<and> \<not> expert_attempt_ready env r rs)))
       (InvalidState ''expert attempt is not ready for a claim'')) (\<lambda>_.
       run_append env (RunClaimed c))))"

text \<open>\<open>min_by_key\<close> keeps the first of the least.\<close>

definition oldest :: "run_record list \<Rightarrow> run_record option" where
  "oldest rs = (case rs of [] \<Rightarrow> None | _ \<Rightarrow> Some (hd (sort_key rec_started_at rs)))"

text \<open>\<open>claim_new\<close> draws its identifier and its instant only when the worker has a name.\<close>

definition claim_for :: "run_env \<Rightarrow> uuid \<Rightarrow> string \<Rightarrow> int \<Rightarrow> run_claim run_m" where
  "claim_for env run_id worker_id lease_seconds =
     run_bind (run_draw env) (\<lambda>(i, now). run_domain (claim_new i now run_id worker_id lease_seconds))"

section \<open>Recovering\<close>

definition append_agent_run_recovery :: "run_env \<Rightarrow> run_recovery \<Rightarrow> unit run_m" where
  "append_agent_run_recovery env y =
     run_bind (ensure_agent_run_exists env (ry_run_id y)) (\<lambda>_. run_append env (RunRecovered y))"

definition append_agent_run_step :: "run_env \<Rightarrow> run_step \<Rightarrow> unit run_m" where
  "append_agent_run_step env s =
     run_bind (ensure_agent_run_exists env (sp_run_id s)) (\<lambda>_. run_append env (RunStepRecorded s))"

definition append_agent_run_transition :: "run_env \<Rightarrow> run_transition \<Rightarrow> unit run_m" where
  "append_agent_run_transition env t =
     run_bind (the_run env (rt_run_id t)) (\<lambda>r.
     run_bind (run_require (\<not> (rec_cancel_requested r \<or> terminal (rec_status r)))
       (InvalidState (''agent run '' @ ge_uuid_text (rv_goal env) (rec_id r)
          @ '' cannot transition from status '' @ run_status_debug (rec_status r)))) (\<lambda>_.
       run_append env (RunTransitioned t)))"

definition append_agent_run_finish :: "run_env \<Rightarrow> run_finish \<Rightarrow> unit run_m" where
  "append_agent_run_finish env f =
     run_bind (run_domain (finish_validate f)) (\<lambda>_.
     run_bind (ensure_agent_run_exists env (rf_run_id f)) (\<lambda>_.
     run_bind (if rf_status f \<noteq> Completed then run_return ()
       else run_bind (run_read (\<lambda>st. classify_run env st (rf_run_id f))) (\<lambda>k.
         case k of
           GoalLess \<Rightarrow> run_require (rf_goal_completion_receipt f = None)
             (InvalidState ''goal-less agent run completion cannot carry a goal receipt'')
         | ExactComplete r \<Rightarrow> run_require (rf_goal_completion_receipt f = Some r)
             (InvalidState ''agent run completion receipt does not match the current goal'')
         | ClassifiedBlocked reason \<Rightarrow> run_fail (InvalidState reason))) (\<lambda>_.
       run_append env (RunFinished f))))"

definition next_sequence :: "run_record \<Rightarrow> u32" where
  "next_sequence r = sat_inc (foldl max 0 (map sp_sequence (rec_steps r)))"

text \<open>What the sweep does with one run, as the counter it raises.\<close>

datatype sweep_kind = SweepSkipped | SweepRecovered | SweepBlocked | SweepCancelled

definition record_recovery_step :: "run_env \<Rightarrow> run_record \<Rightarrow> step_state \<Rightarrow> string \<Rightarrow> unit run_m" where
  "record_recovery_step env r state reason =
     run_bind (run_draw env) (\<lambda>(i, now).
     run_bind (run_domain (step_new i now (rec_id r) (next_sequence r) state ''agent.recovery'' reason))
       (append_agent_run_step env))"

definition blocked_recovery_reason :: "run_env \<Rightarrow> tool_invocation \<Rightarrow> string" where
  "blocked_recovery_reason env v =
     ''Agent run recovery blocked because tool `'' @ ti_tool_id v @ ''` invocation ''
     @ ge_uuid_text (rv_goal env) (ti_id v)
     @ '' has an indeterminate outcome; DS Agent will not replay a possible side effect automatically.''"

definition sweep_run ::
    "run_env \<Rightarrow> instant \<Rightarrow> tool_invocation list \<Rightarrow> run_record \<Rightarrow> sweep_kind run_m" where
  "sweep_run env now invocations r =
     (case rec_lease_expires_at r of None \<Rightarrow> run_return SweepSkipped
      | Some lease \<Rightarrow>
          if lease > now \<or> rec_status r \<notin> {Running, CancelRequested} then run_return SweepSkipped
          else if rec_cancel_requested r \<or> rec_status r = CancelRequested
          then run_bind (run_draw env) (\<lambda>(i, at).
            run_bind (run_domain (finish_new i at (rec_id r) Cancelled
              (Some ''Cancelled after the previous worker lease expired.'') None)) (\<lambda>f.
            run_bind (append_agent_run_finish env f) (\<lambda>_. run_return SweepCancelled)))
          else (case find (\<lambda>v. ti_run_id v = Some (rec_id r) \<and> ti_status v = ToolRunning) invocations of
            Some v \<Rightarrow>
              let reason = blocked_recovery_reason env v in
              run_bind (run_draw env) (\<lambda>(i, at).
              run_bind (run_domain (transition_new i at (rec_id r) Blocked reason (Some (ti_id v)))) (\<lambda>t.
              run_bind (append_agent_run_transition env t) (\<lambda>_.
              run_bind (record_recovery_step env r StepFailed reason) (\<lambda>_. run_return SweepBlocked))))
          | None \<Rightarrow>
              run_bind (run_lift (ok_or (rec_worker_id r) (InvalidState (''expired agent run ''
                @ ge_uuid_text (rv_goal env) (rec_id r) @ '' is missing its previous worker id'')))) (\<lambda>worker.
              let reason = ''Recovered after worker `'' @ worker @ ''` lease expired at ''
                @ rv_rfc3339 env lease @ ''.'' in
              run_bind (run_draw env) (\<lambda>(i, at).
              run_bind (run_domain (recovery_new i at (rec_id r) worker lease reason)) (\<lambda>y.
              run_bind (append_agent_run_recovery env y) (\<lambda>_.
              run_bind (record_recovery_step env r StepCompleted reason) (\<lambda>_. run_return SweepRecovered)))))))"

definition recover_expired_agent_runs :: "run_env \<Rightarrow> instant \<Rightarrow> recovery_sweep run_m" where
  "recover_expired_agent_runs env now =
     run_bind (run_read (\<lambda>st. Inr (list_tool_invocations (gs_exec (rn_goals st))))) (\<lambda>invocations.
     run_bind (the_records env) (\<lambda>rs.
     run_bind (run_map (sweep_run env now invocations) rs) (\<lambda>kinds.
       run_return
         \<lparr>sw_recovered = count_list kinds SweepRecovered, sw_blocked = count_list kinds SweepBlocked,
          sw_cancelled = count_list kinds SweepCancelled\<rparr>)))"

definition claim_next_agent_run :: "run_env \<Rightarrow> string \<Rightarrow> int \<Rightarrow> run_record option run_m" where
  "claim_next_agent_run env worker_id lease_seconds =
     run_bind (run_draw env) (\<lambda>(_, now).
     run_bind (recover_expired_agent_runs env now) (\<lambda>_.
     run_bind (the_records env) (\<lambda>rs.
       case oldest (filter (\<lambda>r. rec_status r = Queued \<and> expert_attempt_ready env r rs) rs) of
         None \<Rightarrow> run_return None
       | Some r \<Rightarrow>
           run_bind (claim_for env (rec_id r) worker_id lease_seconds) (\<lambda>c.
           run_bind (append_agent_run_claim env c) (\<lambda>_.
           run_bind (the_records env) (\<lambda>rs. run_return (find_record rs (rec_id r))))))))"

definition claim_agent_run :: "run_env \<Rightarrow> uuid \<Rightarrow> string \<Rightarrow> int \<Rightarrow> run_record run_m" where
  "claim_agent_run env run_id worker_id lease_seconds =
     run_bind (run_draw env) (\<lambda>(_, now).
     run_bind (recover_expired_agent_runs env now) (\<lambda>_.
     run_bind (the_records env) (\<lambda>rs.
     run_bind (run_lift (ok_or (find_record rs run_id) (InvalidState ''agent run does not exist''))) (\<lambda>r.
     run_bind (run_require (rec_status r = Queued \<and> \<not> rec_cancel_requested r)
       (InvalidState (''agent run '' @ ge_uuid_text (rv_goal env) (rec_id r)
          @ '' cannot be claimed from status '' @ run_status_debug (rec_status r)))) (\<lambda>_.
     run_bind (run_require (expert_attempt_ready env r rs)
       (InvalidState (''expert attempt '' @ ge_uuid_text (rv_goal env) (rec_id r)
          @ '' is waiting for dependencies or a resource lease''))) (\<lambda>_.
     run_bind (claim_for env run_id worker_id lease_seconds) (\<lambda>c.
     run_bind (append_agent_run_claim env c) (\<lambda>_.
     run_bind (the_records env) (\<lambda>rs.
       run_lift (ok_or (find_record rs run_id) (InvalidState ''claimed agent run missing'')))))))))))"

section \<open>Resources\<close>

definition active_claims :: "run_store \<Rightarrow> instant \<Rightarrow> resource_claim list" where
  "active_claims st now =
     filter (\<lambda>c. cl_lease_expires_at c > now
         \<and> cl_id c \<notin> rl_claim_id ` set (list_agent_run_resource_releases st))
       (list_agent_run_resource_claims st)"

definition claim_key :: "resource_claim \<Rightarrow> uuid \<times> string \<times> bool" where
  "claim_key c = (cl_tool_invocation_id c, cl_resource_key c, cl_access c = ClaimWrite)"

text \<open>
  The latest active claim of every key. They are sorted by their instant; those of one instant
  come in the order of a hash map, which is fixed here to the order of the claims.
\<close>

definition list_active_agent_run_resource_claims :: "run_store \<Rightarrow> instant \<Rightarrow> resource_claim list" where
  "list_active_agent_run_resource_claims st now =
     (let cs = active_claims st now in
      sort_key cl_claimed_at
        (List.map_filter (latest_by claim_key cl_claimed_at cs) (remdups (map claim_key cs))))"

definition the_active_claims :: "run_env \<Rightarrow> resource_claim list run_m" where
  "the_active_claims env = run_bind (run_draw env) (\<lambda>(_, now).
     run_read (\<lambda>st. Inr (list_active_agent_run_resource_claims st now)))"

definition claims_clash :: "resource_claim \<Rightarrow> resource_claim \<Rightarrow> bool" where
  "claims_clash c d \<longleftrightarrow> cl_resource_key c = cl_resource_key d
     \<and> (cl_access c = ClaimWrite \<or> cl_access d = ClaimWrite)"

definition require_open_run :: "run_env \<Rightarrow> uuid option \<Rightarrow> unit run_m" where
  "require_open_run env run_id =
     (case run_id of None \<Rightarrow> run_return ()
      | Some i \<Rightarrow>
          run_bind (the_run env i) (\<lambda>r.
            run_require (\<not> (rec_cancel_requested r \<or> terminal (rec_status r)))
              (InvalidState (''agent run '' @ ge_uuid_text (rv_goal env) (rec_id r)
                 @ '' cannot claim resources from status '' @ run_status_debug (rec_status r)))))"

definition claim_agent_run_resource :: "run_env \<Rightarrow> resource_claim \<Rightarrow> resource_claim run_m" where
  "claim_agent_run_resource env c =
     run_bind (require_open_run env (cl_run_id c)) (\<lambda>_.
     run_bind (the_active_claims env) (\<lambda>active.
       case find (\<lambda>d. claim_key d = claim_key c) active of
         Some d \<Rightarrow> run_return d
       | None \<Rightarrow>
           (case find (claims_clash c) active of
              Some d \<Rightarrow> run_fail (InvalidState (''resource `'' @ cl_resource_key c
                @ ''` is already claimed by '' @ (case cl_run_id d of
                    Some i \<Rightarrow> ''agent run '' @ ge_uuid_text (rv_goal env) i
                  | None \<Rightarrow> ''another tool invocation'')))
            | None \<Rightarrow> run_bind (run_append env (ResourceClaimed c)) (\<lambda>_. run_return c))))"

definition append_agent_run_resource_release :: "run_env \<Rightarrow> resource_release \<Rightarrow> unit run_m" where
  "append_agent_run_resource_release env l =
     run_bind (run_read (\<lambda>st. ok_or (find (\<lambda>c. cl_id c = rl_claim_id l) (list_agent_run_resource_claims st))
       (NotFound (''agent run resource claim '' @ ge_uuid_text (rv_goal env) (rl_claim_id l))))) (\<lambda>c.
     run_bind (run_require (cl_run_id c = rl_run_id l
         \<and> cl_tool_invocation_id c = rl_tool_invocation_id l \<and> cl_resource_key c = rl_resource_key l)
       (InvalidState ''agent run resource release does not match its claim'')) (\<lambda>_.
     run_bind (run_read (\<lambda>st. Inr (rl_claim_id l \<in> rl_claim_id ` set (list_agent_run_resource_releases st))))
       (\<lambda>known. if known then run_return () else run_append env (ResourceReleased l))))"

definition renew_agent_run_resources_for_run :: "run_env \<Rightarrow> uuid \<Rightarrow> int \<Rightarrow> nat run_m" where
  "renew_agent_run_resources_for_run env run_id lease_seconds =
     run_bind (the_active_claims env) (\<lambda>active.
       let cs = filter (\<lambda>c. cl_run_id c = Some run_id) active in
       run_bind (run_map (\<lambda>c.
           run_bind (run_draw env) (\<lambda>(i, now).
           run_bind (run_domain (resource_claim_new i now (cl_run_id c) (cl_tool_invocation_id c)
             (cl_resource_key c) (cl_access c) lease_seconds)) (\<lambda>d.
             run_append env (ResourceClaimed d)))) cs) (\<lambda>_.
         run_return (length cs)))"

definition release_agent_run_resources_for_invocation :: "run_env \<Rightarrow> uuid \<Rightarrow> string \<Rightarrow> nat run_m" where
  "release_agent_run_resources_for_invocation env invocation outcome =
     run_bind (run_read (\<lambda>st. Inr (filter (\<lambda>c. cl_tool_invocation_id c = invocation
         \<and> cl_id c \<notin> rl_claim_id ` set (list_agent_run_resource_releases st))
       (list_agent_run_resource_claims st)))) (\<lambda>cs.
     run_bind (run_map (\<lambda>c.
         run_bind (run_draw env) (\<lambda>(i, now).
         run_bind (run_domain (release_new i now c outcome)) (append_agent_run_resource_release env))) cs) (\<lambda>_.
       run_return (length cs)))"

definition heartbeat_agent_run_lease :: "run_env \<Rightarrow> uuid \<Rightarrow> string \<Rightarrow> int \<Rightarrow> run_record run_m" where
  "heartbeat_agent_run_lease env run_id worker_id lease_seconds =
     run_bind (claim_for env run_id worker_id lease_seconds) (\<lambda>c.
     run_bind (the_run env run_id) (\<lambda>r.
     let name = ''agent run '' @ ge_uuid_text (rv_goal env) run_id in
     run_bind (run_require (rec_worker_id r = Some (rc_worker_id c))
       (InvalidState (name @ '' lease is owned by another worker''))) (\<lambda>_.
     run_bind (run_require (rec_status r \<notin> {Queued, Completed, Failed, Cancelled})
       (InvalidState (name @ '' cannot renew its lease from status '' @ run_status_debug (rec_status r)))) (\<lambda>_.
     run_bind (run_require (\<not> is_none_or (rec_lease_expires_at r) (\<lambda>t. t \<le> rc_claimed_at c))
       (InvalidState (name @ '' lease expired before its heartbeat''))) (\<lambda>_.
     run_bind (append_agent_run_claim env c) (\<lambda>_.
     run_bind (renew_agent_run_resources_for_run env run_id lease_seconds) (\<lambda>_.
       the_run env run_id)))))))"

section \<open>The other events of a run\<close>

definition append_agent_run_execution_context :: "run_env \<Rightarrow> run_context \<Rightarrow> unit run_m" where
  "append_agent_run_execution_context env x =
     run_bind (ensure_agent_run_exists env (rx_run_id x)) (\<lambda>_. run_append env (RunContextRecorded x))"

definition append_agent_run_continuation_queued :: "run_env \<Rightarrow> run_continuation \<Rightarrow> unit run_m" where
  "append_agent_run_continuation_queued env q =
     run_bind (ensure_agent_run_exists env (rq_run_id q)) (\<lambda>_.
     run_bind (run_read (\<lambda>st.
       if (\<exists>v \<in> set (list_tool_invocations (gs_exec (rn_goals st))). ti_id v = rq_tool_invocation_id q
             \<and> ti_run_id v = Some (rq_run_id q) \<and> ti_status v = ToolSucceeded)
       then Inr () else Inl (InvalidState
         (''agent run continuation requires succeeded tool invocation ''
          @ ge_uuid_text (rv_goal env) (rq_tool_invocation_id q))))) (\<lambda>_.
     run_bind (run_read (\<lambda>st. Inr (\<exists>p \<in> set (list_agent_run_continuations st).
       rq_tool_invocation_id p = rq_tool_invocation_id q))) (\<lambda>known.
       if known then run_return () else run_append env (RunContinuationQueued q))))"

definition append_agent_run_queued_guidance :: "run_env \<Rightarrow> run_guidance \<Rightarrow> unit run_m" where
  "append_agent_run_queued_guidance env g =
     run_bind (ensure_agent_run_exists env (rg_run_id g)) (\<lambda>_. run_append env (RunGuidanceQueued g))"

definition append_agent_run_guidance_applied :: "run_env \<Rightarrow> guidance_applied \<Rightarrow> bool run_m" where
  "append_agent_run_guidance_applied env a =
     run_bind (ensure_agent_run_exists env (rap_run_id a)) (\<lambda>_.
     run_bind (run_read (\<lambda>st.
       if (\<exists>g \<in> set (list_agent_run_guidance st). rg_id g = rap_guidance_id a \<and> rg_run_id g = rap_run_id a)
       then Inr () else Inl (NotFound (''agent run guidance ''
         @ ge_uuid_text (rv_goal env) (rap_guidance_id a))))) (\<lambda>_.
     run_bind (run_read (\<lambda>st. Inr (\<exists>b \<in> set (list_agent_run_guidance_applications st).
       rap_guidance_id b = rap_guidance_id a))) (\<lambda>known.
       if known then run_return False
       else run_bind (run_append env (RunGuidanceApplied a)) (\<lambda>_. run_return True))))"

definition list_unapplied_agent_run_guidance :: "run_env \<Rightarrow> uuid \<Rightarrow> run_guidance list run_m" where
  "list_unapplied_agent_run_guidance env run_id =
     run_bind (ensure_agent_run_exists env run_id) (\<lambda>_.
     run_read (\<lambda>st. Inr (sort_key rg_queued_at (filter (\<lambda>g. rg_run_id g = run_id
         \<and> rg_id g \<notin> rap_guidance_id ` set (filter (\<lambda>a. rap_run_id a = run_id)
              (list_agent_run_guidance_applications st)))
       (list_agent_run_guidance st)))))"

definition append_agent_run_artifact :: "run_env \<Rightarrow> run_artifact \<Rightarrow> unit run_m" where
  "append_agent_run_artifact env a =
     run_bind (ensure_agent_run_exists env (af_run_id a)) (\<lambda>_. run_append env (RunArtifactRecorded a))"

section \<open>Results of experts\<close>

definition result_fits :: "attempt_contract \<Rightarrow> attempt_result \<Rightarrow> bool" where
  "result_fits c x \<longleftrightarrow>
     er_parent_run_id x = ac_parent_run_id c \<and> er_key x = ac_key c \<and> er_role x = ac_role c
     \<and> er_attempt x = ac_attempt c \<and> er_parent_input_revision x = ac_parent_input_revision c"

definition append_expert_attempt_result :: "run_env \<Rightarrow> attempt_result \<Rightarrow> unit run_m" where
  "append_expert_attempt_result env x =
     run_bind (the_run env (er_run_id x)) (\<lambda>r.
     run_bind (run_lift (ok_or (rec_expert_contract r)
       (InvalidState ''expert result requires an expert attempt''))) (\<lambda>c.
     run_bind (run_require (result_fits c x)
       (InvalidState ''expert result does not match its immutable attempt contract'')) (\<lambda>_.
     run_bind (run_read (\<lambda>st. Inr (\<exists>y \<in> set (list_expert_attempt_results st). er_run_id y = er_run_id x))) (\<lambda>known.
     run_bind (run_require (\<not> known)
       (InvalidState ''expert attempt result is immutable and already recorded'')) (\<lambda>_.
       run_append env (ExpertResultRecorded x))))))"

definition result_of :: "run_record list \<Rightarrow> uuid \<Rightarrow> attempt_result option" where
  "result_of rs i = Option.bind (find_record rs i) rec_expert_result"

definition append_expert_merge_receipt :: "run_env \<Rightarrow> merge_receipt \<Rightarrow> unit run_m" where
  "append_expert_merge_receipt env m =
     run_bind (the_records env) (\<lambda>rs.
     run_bind (run_lift (the_record env rs (mr_parent_run_id m))) (\<lambda>parent.
     run_bind (run_require (rec_role parent = ParentRun
         \<and> parent_input_revision (rv_sha env) (rec_prompt parent) = mr_parent_input_revision m)
       (InvalidState ''expert merge parent revision is stale'')) (\<lambda>_.
     run_bind (run_lift (ok_or (result_of rs (mr_production_run_id m))
       (InvalidState ''expert merge production result is missing''))) (\<lambda>production.
     run_bind (run_lift (ok_or (result_of rs (mr_review_run_id m))
       (InvalidState ''expert merge review result is missing''))) (\<lambda>review.
     run_bind (run_require (passed production \<and> passed review
         \<and> er_output_revision production = mr_production_revision m
         \<and> is_some_and (er_review review) (\<lambda>v. rv_decision v = Accept
              \<and> rv_target_revision v = er_output_revision production))
       (InvalidState ''expert merge requires a passed production revision and an exact accepted review'')) (\<lambda>_.
     run_bind (run_read (\<lambda>st. Inr (\<exists>n \<in> set (list_expert_merge_receipts st).
         mr_parent_run_id n = mr_parent_run_id m
         \<and> mr_parent_input_revision n = mr_parent_input_revision m))) (\<lambda>known.
     run_bind (run_require (\<not> known)
       (InvalidState ''expert parent revision already has a merge receipt'')) (\<lambda>_.
       run_append env (ExpertMergeRecorded m)))))))))"

section \<open>Recording a checkpoint\<close>

definition resource_identity_of :: "run_env \<Rightarrow> resource_claim \<Rightarrow> resource_identity" where
  "resource_identity_of env c =
     \<lparr>re_claim_id = cl_id c, re_tool_invocation_id = cl_tool_invocation_id c,
      re_access = (case cl_access c of ClaimRead \<Rightarrow> ''read'' | ClaimWrite \<Rightarrow> ''write''),
      re_key_fingerprint = identity_fingerprint (rv_goal env) (cl_resource_key c),
      re_lease_expires_at = cl_lease_expires_at c\<rparr>"

definition safe_identity_code :: "string \<Rightarrow> string \<Rightarrow> string" where
  "safe_identity_code v fallback = (if safe_code v then trim v else fallback)"

definition artifact_identities ::
    "run_env \<Rightarrow> run_store \<Rightarrow> uuid \<Rightarrow> artifact_identity list store_res" where
  "artifact_identities env st run_id =
     bind_res (list_agent_run_records env st) (\<lambda>rs.
     let own = map (\<lambda>a. \<lparr>ai_artifact_id = rv_simple_uuid env (af_id a),
             ai_kind = safe_identity_code (af_kind a) ''agent_artifact'',
             ai_fingerprint = identity_fingerprint (rv_goal env)
               (rv_artifact_json env (af_id a) (af_kind a) (af_title a) (af_path a))\<rparr>)
           (case find_record rs run_id of None \<Rightarrow> [] | Some r \<Rightarrow> rec_artifacts r) in
     bind_res (goal_completion_projection (rv_goal env) (rn_goals st) run_id) (\<lambda>completion.
       Inr (own @ (case completion of None \<Rightarrow> []
         | Some k \<Rightarrow> concat (map (\<lambda>e. map (\<lambda>a. \<lparr>ai_artifact_id = safe_identity_code a ''goal_artifact'',
               ai_kind = ''goal_evidence'', ai_fingerprint = ce_source_fingerprint e\<rparr>)
             (ce_artifact_ids e)) (cj_evidence k))))))"

definition terminal_status :: "tool_status \<Rightarrow> bool" where
  "terminal_status s \<longleftrightarrow> s \<in> {ToolSucceeded, ToolFailed, ToolBlocked}"

definition source_identities :: "run_env \<Rightarrow> tool_invocation list \<Rightarrow> source_identity list" where
  "source_identities env vs =
     map (\<lambda>v. \<lparr>so_invocation_id = ti_id v, so_tool_id = ti_tool_id v, so_tool_version = ti_tool_version v,
        so_request_fingerprint = ti_request_fingerprint v,
        so_source_fingerprint = identity_fingerprint (rv_goal env)
          (rv_source_json env (ti_id v) (ti_output v) (ti_evidence v) (tv_passed (ti_verification v)))\<rparr>)
       (filter (\<lambda>v. terminal_status (ti_status v)) vs)"

definition checkpoint_row_for :: "context_checkpoint \<Rightarrow> u64 \<Rightarrow> instant \<Rightarrow> checkpoint_row" where
  "checkpoint_row_for c n created =
     \<lparr>kw_run_id = ck_run_id c, kw_schema_version = CONTEXT_CHECKPOINT_VERSION,
      kw_goal_revision = fe_revision (ck_goal c), kw_frozen_fingerprint = fe_fingerprint (ck_goal c),
      kw_status = checkpoint_status_text (ck_status c), kw_fingerprint = ck_fingerprint c,
      kw_checkpoint = c, kw_row_revision = n, kw_created_at = created, kw_updated_at = ck_updated_at c\<rparr>"

text \<open>
  The row that the update expects is the one just read, in the same locked connection; no row, or
  one with another fingerprint, is an error.
\<close>

definition write_checkpoint ::
    "context_checkpoint option \<Rightarrow> context_checkpoint \<Rightarrow> run_store \<Rightarrow> unit store_res \<times> run_store" where
  "write_checkpoint previous c st =
     (let rows = rn_checkpoints st; found = row_of kw_run_id rows (ck_run_id c) in
      case previous of
        Some p \<Rightarrow>
          (case found of None \<Rightarrow> (Inl (SqliteError ''Query returned no rows''), st)
           | Some w \<Rightarrow>
               if kw_fingerprint w \<noteq> ck_fingerprint p
               then (Inl (InvalidState ''context_checkpoint_changed_concurrently''), st)
               else (Inr (), st\<lparr>rn_checkpoints := update_row kw_run_id (ck_run_id c)
                 (\<lambda>w. checkpoint_row_for c (kw_row_revision w + 1) (kw_created_at w)) rows\<rparr>))
      | None \<Rightarrow>
          if found \<noteq> None
          then (Inl (SqliteError ''UNIQUE constraint failed: goal_context_checkpoints.run_id''), st)
          else (Inr (), st\<lparr>rn_checkpoints := rows @ [checkpoint_row_for c 0 (ck_created_at c)]\<rparr>))"

text \<open>\<open>run_atomic\<close> keeps the draws of a transaction that fails, and nothing else of it.\<close>

definition persist_checkpoint ::
    "run_env \<Rightarrow> context_checkpoint option \<Rightarrow> context_checkpoint \<Rightarrow> unit run_m" where
  "persist_checkpoint env previous c =
     run_bind (run_domain (checkpoint_validate (rv_goal env) (rv_loop env) c)) (\<lambda>_.
       run_atomic (run_bind (write_checkpoint previous c) (\<lambda>_. run_append env (CheckpointRecorded c))))"

definition seed_for ::
    "run_env \<Rightarrow> run_store \<Rightarrow> instant \<Rightarrow> uuid \<Rightarrow> frozen_envelope \<Rightarrow> goal_completion \<Rightarrow> checkpoint_seed store_res" where
  "seed_for env st now run_id f k =
     bind_res (rv_authorizations env st run_id) (\<lambda>authorizations.
     bind_res (artifact_identities env st run_id) (\<lambda>artifacts.
       Inr \<lparr>sd_run_id = run_id, sd_goal = f, sd_completion = k, sd_authorizations = authorizations,
            sd_resources = map (resource_identity_of env)
              (filter (\<lambda>c. cl_run_id c = Some run_id) (list_active_agent_run_resource_claims st now)),
            sd_artifacts = artifacts,
            sd_sources = source_identities env (filter (\<lambda>v. ti_run_id v = Some run_id)
              (list_tool_invocations (gs_exec (rn_goals st))))\<rparr>))"

definition record_goal_context_checkpoint ::
    "run_env \<Rightarrow> uuid \<Rightarrow> loop_observation \<Rightarrow> context_checkpoint option run_m" where
  "record_goal_context_checkpoint env run_id obs =
     run_bind (run_read (\<lambda>st. goal_envelope_projection (rv_goal env) (rn_goals st) run_id)) (\<lambda>goal.
     case Option.bind goal (\<lambda>j. goal_frozen (gj_state j)) of None \<Rightarrow> run_return None
     | Some f \<Rightarrow>
         run_bind (run_read (\<lambda>st. goal_completion_projection (rv_goal env) (rn_goals st) run_id)) (\<lambda>stored.
         run_bind (run_domain (completion_projection (rv_goal env) (the goal) [])) (\<lambda>initial.
         run_bind (run_read (\<lambda>st. context_checkpoint_from_connection env st run_id)) (\<lambda>previous.
         run_bind (case previous of None \<Rightarrow> run_return ()
           | Some p \<Rightarrow> run_domain (validate_against_goal (rv_goal env) (rv_loop env) p (the goal))) (\<lambda>_.
         run_bind (run_draw env) (\<lambda>(_, now).
         run_bind (run_read (\<lambda>st. seed_for env st now run_id f
           (case stored of None \<Rightarrow> initial | Some k \<Rightarrow> k))) (\<lambda>seed.
         run_bind (run_domain (advance (rv_goal env) (rv_loop env) previous seed obs)) (\<lambda>c.
           if is_some_and previous (\<lambda>p. ck_fingerprint p = ck_fingerprint c) then run_return previous
           else run_bind (persist_checkpoint env previous c) (\<lambda>_. run_return (Some c))))))))))"

text \<open>The goal operations of the store and those of its access tables, on the goals of a run.\<close>

definition run_goal_op :: "(goal_store \<Rightarrow> ('a \<times> goal_store) store_res) \<Rightarrow> 'a run_m" where
  "run_goal_op f = (\<lambda>st. case f (rn_goals st) of
     Inl e \<Rightarrow> (Inl e, st) | Inr (x, g) \<Rightarrow> (Inr x, st\<lparr>rn_goals := g\<rparr>))"

end
