(* ===== verification/Run_Step.thy ===== *)
theory Run_Step
  imports Run_Store
begin

text \<open>
  What an operation on runs may write. \<open>writes env A m\<close> says that \<open>m\<close>, failing or not, only appends
  events with a payload in \<open>A\<close>, each with an identifier and an instant it drew itself, and leaves the
  goals alone. The rules follow the operations of \<open>Run_Store\<close>; \<open>run_next\<close> is a step of the program
  on a store, by any operation on runs or on their goals.
\<close>

section \<open>Growing the log\<close>

definition drawn_in :: "run_env \<Rightarrow> run_store \<Rightarrow> run_store \<Rightarrow> run_event \<Rightarrow> bool" where
  "drawn_in env st st' e \<longleftrightarrow>
     (\<exists>k. rn_draws st \<le> k \<and> k < rn_draws st' \<and> rv_draw env k = (ke_id e, ke_created_at e))"

definition run_grows :: "run_env \<Rightarrow> (run_payload \<Rightarrow> bool) \<Rightarrow> run_store \<Rightarrow> run_store \<Rightarrow> bool" where
  "run_grows env A st st' \<longleftrightarrow>
     rn_goals st' = rn_goals st \<and> rn_draws st \<le> rn_draws st'
     \<and> (\<exists>es. rn_runs st' = rn_runs st @ es \<and> (\<forall>e \<in> set es. A (ke_payload e) \<and> drawn_in env st st' e))"

lemma drawn_in_mono:
  "drawn_in env st st' e \<Longrightarrow> rn_draws st0 \<le> rn_draws st \<Longrightarrow> rn_draws st' \<le> rn_draws st1 \<Longrightarrow> drawn_in env st0 st1 e"
  unfolding drawn_in_def by (meson le_trans order_less_le_trans)

lemma run_grows_refl [simp]: "run_grows env A st st"
  by (simp add: run_grows_def)

lemma run_grows_trans:
  assumes "run_grows env A st st1" and "run_grows env A st1 st2"
  shows "run_grows env A st st2"
proof -
  obtain es where es: "rn_runs st1 = rn_runs st @ es" "\<forall>e \<in> set es. A (ke_payload e) \<and> drawn_in env st st1 e"
    and d1: "rn_draws st \<le> rn_draws st1" "rn_goals st1 = rn_goals st" using assms(1) by (auto simp: run_grows_def)
  obtain fs where fs: "rn_runs st2 = rn_runs st1 @ fs" "\<forall>e \<in> set fs. A (ke_payload e) \<and> drawn_in env st1 st2 e"
    and d2: "rn_draws st1 \<le> rn_draws st2" "rn_goals st2 = rn_goals st1" using assms(2) by (auto simp: run_grows_def)
  have "\<forall>e \<in> set (es @ fs). A (ke_payload e) \<and> drawn_in env st st2 e"
    using es(2) fs(2) d1(1) d2(1) drawn_in_mono [of env st st1 _ st st2] drawn_in_mono [of env st1 st2 _ st st2] by auto
  then show ?thesis using es(1) fs(1) d1 d2 by (simp add: run_grows_def)
qed

lemma run_grows_weaken: "run_grows env A st st' \<Longrightarrow> (\<And>p. A p \<Longrightarrow> B p) \<Longrightarrow> run_grows env B st st'"
  unfolding run_grows_def by blast

lemma run_grows_draws: "run_grows env A st st' \<Longrightarrow> rn_draws st' \<le> n \<Longrightarrow> run_grows env A st (st\<lparr>rn_draws := n\<rparr>)"
  by (auto simp: run_grows_def)

definition writes :: "run_env \<Rightarrow> (run_payload \<Rightarrow> bool) \<Rightarrow> 'a run_m \<Rightarrow> bool" where
  "writes env A m \<longleftrightarrow> (\<forall>st. run_grows env A st (snd (m st)))"

lemma writesD: "writes env A m \<Longrightarrow> run_grows env A st (snd (m st))"
  by (simp add: writes_def)

lemma writes_weaken: "writes env A m \<Longrightarrow> (\<And>p. A p \<Longrightarrow> B p) \<Longrightarrow> writes env B m"
  unfolding writes_def by (blast intro: run_grows_weaken)

named_theorems writes_rules \<open>what the operations write\<close>

lemma writes_pure [writes_rules]:
  "writes env A (run_return x)" "writes env A (run_fail e)" "writes env A (run_lift r)"
  "writes env A (run_domain r')" "writes env A (run_read f)" "writes env A (run_require c e)"
  by (simp_all add: writes_def run_return_def run_fail_def run_lift_def run_domain_def run_read_def
      run_require_def)

lemma writes_draw [writes_rules]: "writes env A (run_draw env)"
  by (simp add: writes_def run_draw_def run_grows_def)

lemma run_bind_state:
  "snd (run_bind m f st) = (case fst (m st) of Inl e \<Rightarrow> snd (m st) | Inr x \<Rightarrow> snd (f x (snd (m st))))"
  by (simp add: run_bind_def split: prod.splits sum.splits)

lemma run_bind_result:
  "fst (run_bind m f st) = (case fst (m st) of Inl e \<Rightarrow> Inl e | Inr x \<Rightarrow> fst (f x (snd (m st))))"
  by (simp add: run_bind_def split: prod.splits sum.splits)

text \<open>The second operation may rely on the value and on the state the first one left.\<close>

lemma writes_bind_value:
  assumes "writes env A m" and "\<And>x st. fst (m st) = Inr x \<Longrightarrow> run_grows env A (snd (m st)) (snd (f x (snd (m st))))"
  shows "writes env A (run_bind m f)"
  using assms by (fastforce simp: writes_def run_bind_state split: sum.splits intro: run_grows_trans)

lemma writes_bind [writes_rules]:
  "writes env A m \<Longrightarrow> (\<And>x. writes env A (f x)) \<Longrightarrow> writes env A (run_bind m f)"
  by (rule writes_bind_value) (auto simp: writes_def)

lemma writes_bind_domain [writes_rules]:
  "(\<And>x. r = Inr x \<Longrightarrow> writes env A (f x)) \<Longrightarrow> writes env A (run_bind (run_domain r) f)"
  by (rule writes_bind_value) (auto simp: writes_def run_domain_def run_lift_def invalid_state_def split: sum.splits)

lemma writes_split [writes_rules]: "(\<And>a b. writes env A (f a b)) \<Longrightarrow> writes env A (case p of (a, b) \<Rightarrow> f a b)"
  by (cases p) simp

lemma writes_if [writes_rules]:
  "(c \<Longrightarrow> writes env A m) \<Longrightarrow> (\<not> c \<Longrightarrow> writes env A n) \<Longrightarrow> writes env A (if c then m else n)"
  by simp

lemma writes_option [writes_rules]:
  "(x = None \<Longrightarrow> writes env A m) \<Longrightarrow> (\<And>y. x = Some y \<Longrightarrow> writes env A (f y))
   \<Longrightarrow> writes env A (case x of None \<Rightarrow> m | Some y \<Rightarrow> f y)"
  by (cases x) simp_all

lemma writes_let [writes_rules]: "writes env A (f x) \<Longrightarrow> writes env A (let y = x in f y)"
  by simp

lemma writes_append [writes_rules]: "A p \<Longrightarrow> writes env A (run_append env p)"
  by (auto simp: writes_def run_append_def run_bind_def run_draw_def run_grows_def drawn_in_def
      split: prod.splits)

lemma writes_map [writes_rules]: "(\<And>x. x \<in> set xs \<Longrightarrow> writes env A (f x)) \<Longrightarrow> writes env A (run_map f xs)"
  by (induction xs) (auto intro!: writes_rules)

lemma writes_atomic [writes_rules]: "writes env A m \<Longrightarrow> writes env A (run_atomic m)"
  unfolding writes_def run_atomic_def
  by (auto split: prod.splits sum.splits) (metis order_refl run_grows_draws snd_conv)+

section \<open>What each operation writes\<close>

lemma writes_reads [writes_rules]:
  "writes env A (ensure_agent_run_exists env i)" "writes env A (the_records env)"
  "writes env A (records_among env ids)" "writes env A (the_run env i)"
  "writes env A (the_active_claims env)" "writes env A (claim_for env i w l)"
  "writes env A (require_open_run env ri)" "writes env A (plan_parent env i a b c)"
  by (auto simp: ensure_agent_run_exists_def the_records_def records_among_def the_run_def
      the_active_claims_def claim_for_def require_open_run_def plan_parent_def Let_def intro!: writes_rules)

lemma writes_subagent_starts [writes_rules]: "writes env A (subagent_starts env parent keys ts)"
  by (induction ts arbitrary: keys) (auto intro!: writes_rules)

lemma writes_start [writes_rules]: "A (RunStarted s) \<Longrightarrow> writes env A (append_agent_run_start env s)"
  by (auto simp: append_agent_run_start_def intro!: writes_rules)

lemma writes_cancel [writes_rules]: "A (RunCancelRequested k) \<Longrightarrow> writes env A (append_agent_run_cancel_request env k)"
  by (auto simp: append_agent_run_cancel_request_def intro!: writes_rules)

lemma writes_tree_cancel [writes_rules]:
  "(\<And>k. A (RunCancelRequested k)) \<Longrightarrow> writes env A (request_agent_run_tree_cancel env i reason)"
  by (auto simp: request_agent_run_tree_cancel_def Let_def intro!: writes_rules)

lemma writes_claim [writes_rules]: "A (RunClaimed c) \<Longrightarrow> writes env A (append_agent_run_claim env c)"
  by (auto simp: append_agent_run_claim_def intro!: writes_rules)

lemma writes_events [writes_rules]:
  "A (RunRecovered y) \<Longrightarrow> writes env A (append_agent_run_recovery env y)"
  "A (RunStepRecorded s) \<Longrightarrow> writes env A (append_agent_run_step env s)"
  "A (RunContextRecorded x) \<Longrightarrow> writes env A (append_agent_run_execution_context env x)"
  "A (RunContinuationQueued q) \<Longrightarrow> writes env A (append_agent_run_continuation_queued env q)"
  "A (RunGuidanceQueued g) \<Longrightarrow> writes env A (append_agent_run_queued_guidance env g)"
  "A (RunGuidanceApplied ap) \<Longrightarrow> writes env A (append_agent_run_guidance_applied env ap)"
  "A (RunArtifactRecorded af) \<Longrightarrow> writes env A (append_agent_run_artifact env af)"
  "A (RunTransitioned t) \<Longrightarrow> writes env A (append_agent_run_transition env t)"
  "A (ExpertResultRecorded r) \<Longrightarrow> writes env A (append_expert_attempt_result env r)"
  "A (ExpertMergeRecorded m) \<Longrightarrow> writes env A (append_expert_merge_receipt env m)"
  "A (ResourceReleased l) \<Longrightarrow> writes env A (append_agent_run_resource_release env l)"
  by (auto simp: append_agent_run_recovery_def append_agent_run_step_def append_agent_run_execution_context_def
      append_agent_run_continuation_queued_def append_agent_run_queued_guidance_def
      append_agent_run_guidance_applied_def append_agent_run_artifact_def append_agent_run_transition_def
      append_expert_attempt_result_def append_expert_merge_receipt_def
      append_agent_run_resource_release_def intro!: writes_rules)

lemma writes_finish [writes_rules]:
  assumes "finish_validate f = Inr () \<Longrightarrow> A (RunFinished f)"
  shows "writes env A (append_agent_run_finish env f)"
proof -
  have k: "writes env A (case k of GoalLess \<Rightarrow> run_require a e | ExactComplete r \<Rightarrow> run_require (b r) e'
      | ClassifiedBlocked reason \<Rightarrow> run_fail (e'' reason))" for k a e b e' e''
    by (cases k) (simp_all add: writes_rules)
  show ?thesis unfolding append_agent_run_finish_def
    by (intro writes_bind_domain writes_rules k) (use assms in simp)
qed

lemma recovery_new_Inr:
  "recovery_new i at run w lease reason = Inr y \<Longrightarrow> ry_run_id y = run \<and> ry_previous_lease_expires_at y = lease"
  by (auto simp: recovery_new_def bind_res_Inr_iff)

lemma transition_new_Inr:
  "transition_new i at run s reason v = Inr t \<Longrightarrow>
     rt_run_id t = run \<and> rt_status t = s \<and> rt_tool_invocation_id t = v
     \<and> s \<in> {Queued, Running, WaitingForPrerequisite, WaitingForConfirmation, Blocked}"
  by (auto simp: transition_new_def bind_res_Inr_iff split: if_splits)

lemma finish_new_Inr:
  "finish_new i at run s summary err = Inr f \<Longrightarrow> rf_run_id f = run \<and> rf_status f = s \<and> finish_validate f = Inr ()"
  by (auto simp: finish_new_def Let_def bind_res_Inr_iff)

lemma writes_sweep_run:
  assumes "\<And>y. rec_status r = Running \<Longrightarrow> \<not> rec_cancel_requested r \<Longrightarrow> ry_run_id y = rec_id r \<Longrightarrow>
      (\<exists>lease. rec_lease_expires_at r = Some lease \<and> lease \<le> now \<and> ry_previous_lease_expires_at y = lease) \<Longrightarrow>
      find (\<lambda>v. ti_run_id v = Some (rec_id r) \<and> ti_status v = ToolRunning) vs = None \<Longrightarrow> A (RunRecovered y)"
    and "\<And>t. rt_status t = Blocked \<Longrightarrow> rt_run_id t = rec_id r \<Longrightarrow> A (RunTransitioned t)"
    and "\<And>f. rf_status f = Cancelled \<Longrightarrow> finish_validate f = Inr () \<Longrightarrow> A (RunFinished f)"
    and "\<And>s. A (RunStepRecorded s)"
  shows "writes env A (sweep_run env now vs r)"
proof -
  have step: "writes env A (record_recovery_step env r state reason)" for state reason
    unfolding record_recovery_step_def by (intro writes_rules assms(4))
  have y: "A (RunRecovered y)" if "recovery_new i at (rec_id r) w lease reason = Inr y" "rec_status r = Running"
      "\<not> rec_cancel_requested r" "rec_lease_expires_at r = Some lease" "\<not> lease > now"
      "find (\<lambda>v. ti_run_id v = Some (rec_id r) \<and> ti_status v = ToolRunning) vs = None"
    for y i at w lease reason
    using that recovery_new_Inr [OF that(1)] by (intro assms(1)) auto
  show ?thesis unfolding sweep_run_def Let_def
    by (intro writes_rules step; (auto dest!: transition_new_Inr finish_new_Inr intro!: assms(2,3) intro: y)?)
qed

lemma writes_sweep [writes_rules]:
  assumes "\<And>y. A (RunRecovered y)" "\<And>t. rt_status t = Blocked \<Longrightarrow> A (RunTransitioned t)"
    "\<And>f. rf_status f = Cancelled \<Longrightarrow> finish_validate f = Inr () \<Longrightarrow> A (RunFinished f)"
    "\<And>s. A (RunStepRecorded s)"
  shows "writes env A (recover_expired_agent_runs env now)"
  unfolding recover_expired_agent_runs_def
  by (intro writes_rules writes_sweep_run) (auto intro: assms)

section \<open>Triples\<close>

text \<open>\<open>triple P m Q E\<close>: from a state with \<open>P\<close> a success of \<open>m\<close> ends in \<open>Q\<close>, a failure in \<open>E\<close>.\<close>

definition triple ::
    "(run_store \<Rightarrow> bool) \<Rightarrow> 'a run_m \<Rightarrow> ('a \<Rightarrow> run_store \<Rightarrow> bool) \<Rightarrow> (run_store \<Rightarrow> bool) \<Rightarrow> bool" where
  "triple P m Q E \<longleftrightarrow>
     (\<forall>st. P st \<longrightarrow> (case fst (m st) of Inl e \<Rightarrow> E (snd (m st)) | Inr x \<Rightarrow> Q x (snd (m st))))"

lemma tripleI:
  "(\<And>st x. P st \<Longrightarrow> fst (m st) = Inr x \<Longrightarrow> Q x (snd (m st)))
   \<Longrightarrow> (\<And>st e. P st \<Longrightarrow> fst (m st) = Inl e \<Longrightarrow> E (snd (m st))) \<Longrightarrow> triple P m Q E"
  by (auto simp: triple_def split: sum.splits)

lemma tripleD:
  "triple P m Q E \<Longrightarrow> P st \<Longrightarrow> fst (m st) = Inr x \<Longrightarrow> Q x (snd (m st))"
  "triple P m Q E \<Longrightarrow> P st \<Longrightarrow> fst (m st) = Inl e \<Longrightarrow> E (snd (m st))"
  by (auto simp: triple_def split: sum.splits)

lemma triple_state: "triple P m (\<lambda>_. Q) Q \<Longrightarrow> P st \<Longrightarrow> Q (snd (m st))"
  by (auto simp: triple_def split: sum.splits)

named_theorems triple_rules \<open>what the operations establish\<close>

lemma triple_consequence:
  "triple P m Q E \<Longrightarrow> (\<And>st. P' st \<Longrightarrow> P st) \<Longrightarrow> (\<And>x st. Q x st \<Longrightarrow> Q' x st) \<Longrightarrow> (\<And>st. E st \<Longrightarrow> E' st)
   \<Longrightarrow> triple P' m Q' E'"
  unfolding triple_def by (fastforce split: sum.splits)

lemma triple_bind [triple_rules]:
  assumes "triple P m R E" and "\<And>x. triple (R x) (f x) Q E"
  shows "triple P (run_bind m f) Q E"
  by (rule tripleI)
    (auto simp: run_bind_result run_bind_state split: sum.splits dest: tripleD [OF assms(1)] tripleD [OF assms(2)])

lemma triple_pure [triple_rules]:
  "(\<And>st. P st \<Longrightarrow> Q x st) \<Longrightarrow> triple P (run_return x) Q E"
  "(\<And>st. P st \<Longrightarrow> E st) \<Longrightarrow> triple P (run_fail e) Q E"
  "(\<And>st y. P st \<Longrightarrow> r = Inr y \<Longrightarrow> Q y st) \<Longrightarrow> (\<And>st. P st \<Longrightarrow> E st) \<Longrightarrow> triple P (run_lift r) Q E"
  "(\<And>st y. P st \<Longrightarrow> r' = Inr y \<Longrightarrow> Q y st) \<Longrightarrow> (\<And>st. P st \<Longrightarrow> E st) \<Longrightarrow> triple P (run_domain r') Q E"
  "(\<And>st y. P st \<Longrightarrow> g st = Inr y \<Longrightarrow> Q y st) \<Longrightarrow> (\<And>st. P st \<Longrightarrow> E st) \<Longrightarrow> triple P (run_read g) Q E"
  by (auto simp: triple_def run_return_def run_fail_def run_lift_def run_domain_def run_read_def
      invalid_state_def split: sum.splits)

lemma triple_require [triple_rules]:
  "(\<And>st. P st \<Longrightarrow> c \<Longrightarrow> Q () st) \<Longrightarrow> (\<And>st. P st \<Longrightarrow> E st) \<Longrightarrow> triple P (run_require c e) Q E"
  by (auto simp: run_require_def intro!: triple_rules)

lemma triple_if [triple_rules]:
  "(c \<Longrightarrow> triple P m Q E) \<Longrightarrow> (\<not> c \<Longrightarrow> triple P n Q E) \<Longrightarrow> triple P (if c then m else n) Q E"
  by simp

lemma triple_option [triple_rules]:
  "(x = None \<Longrightarrow> triple P m Q E) \<Longrightarrow> (\<And>y. x = Some y \<Longrightarrow> triple P (f y) Q E)
   \<Longrightarrow> triple P (case x of None \<Rightarrow> m | Some y \<Rightarrow> f y) Q E"
  by (cases x) simp_all

lemma triple_split [triple_rules]: "(\<And>a b. triple P (f a b) Q E) \<Longrightarrow> triple P (case p of (a, b) \<Rightarrow> f a b) Q E"
  by (cases p) simp

lemma triple_let [triple_rules]: "triple P (f x) Q E \<Longrightarrow> triple P (let y = x in f y) Q E"
  by simp

text \<open>What an operation writes, read as a triple: a fact that growth keeps is kept.\<close>

lemma triple_writes:
  assumes "writes env A m" and "\<And>st st'. run_grows env A st st' \<Longrightarrow> P st \<Longrightarrow> P st'"
  shows "triple P m (\<lambda>_. P) P"
  using assms by (auto simp: triple_def writes_def split: sum.splits)

definition gives :: "'a run_m \<Rightarrow> ('a \<Rightarrow> bool) \<Rightarrow> bool" where
  "gives m Q \<longleftrightarrow> triple (\<lambda>_. True) m (\<lambda>x _. Q x) (\<lambda>_. True)"

lemma gives_bind [triple_rules]:
  assumes "gives m R" and "\<And>x. R x \<Longrightarrow> gives (f x) Q"
  shows "gives (run_bind m f) Q"
  unfolding gives_def
  by (rule tripleI) (use assms in \<open>auto simp: gives_def run_bind_result split: sum.splits dest!: tripleD(1) [OF _ TrueI]\<close>)

lemma gives_pure [triple_rules]:
  "Q x \<Longrightarrow> gives (run_return x) Q" "(\<And>y. r = Inr y \<Longrightarrow> Q y) \<Longrightarrow> gives (run_domain r) Q"
  "(\<And>y. r' = Inr y \<Longrightarrow> Q y) \<Longrightarrow> gives (run_lift r') Q"
  "(c \<Longrightarrow> Q' ()) \<Longrightarrow> gives (run_require c e) Q'"
  by (auto simp: gives_def intro!: triple_rules)

lemma gives_split [triple_rules]: "(\<And>a b. gives (f a b) Q) \<Longrightarrow> gives (case p of (a, b) \<Rightarrow> f a b) Q"
  by (cases p) simp

lemma gives_any: "gives m (\<lambda>_. True)"
  by (simp add: gives_def triple_def split: sum.splits)

lemma gives_map [triple_rules]:
  "(\<And>x. x \<in> set xs \<Longrightarrow> gives (f x) Q) \<Longrightarrow> gives (run_map f xs) (\<lambda>ys. \<forall>y \<in> set ys. Q y)"
proof (induction xs)
  case (Cons x xs)
  then have "gives (run_map f xs) (\<lambda>ys. \<forall>y \<in> set ys. Q y)" and "gives (f x) Q" by simp_all
  then show ?case by (auto intro!: gives_bind gives_pure)
qed (simp add: triple_rules)

lemma writes_bind_gives:
  "writes env A m \<Longrightarrow> gives m Q \<Longrightarrow> (\<And>x. Q x \<Longrightarrow> writes env A (f x)) \<Longrightarrow> writes env A (run_bind m f)"
  by (rule writes_bind_value) (auto simp: gives_def triple_def writes_def split: sum.splits)

section \<open>Starts and the operations that make them\<close>

lemma start_new_Inr:
  "start_new i now c p n = Inr s \<Longrightarrow>
     rs_id s = i \<and> rs_initial_status s = Running \<and> rs_role s = ParentRun \<and> rs_parent_run_id s = None
     \<and> rs_subtask_key s = None \<and> rs_expert_contract s = None \<and> rs_conversation_id s = trim c
     \<and> rs_prompt s = trim p"
  by (auto simp: start_new_def res_simps)

lemma start_queued_Inr:
  "start_queued i now c p n = Inr s \<Longrightarrow>
     rs_id s = i \<and> rs_initial_status s = Queued \<and> rs_role s = ParentRun \<and> rs_parent_run_id s = None
     \<and> rs_subtask_key s = None \<and> rs_expert_contract s = None \<and> rs_conversation_id s = trim c
     \<and> rs_prompt s = trim p"
  by (auto simp: start_queued_def bind_res_Inr_iff dest!: start_new_Inr)

lemma queued_subagent_Inr:
  "queued_subagent i now parent c key p = Inr s \<Longrightarrow>
     rs_id s = i \<and> rs_initial_status s = Queued \<and> rs_role s = SubagentRun \<and> rs_parent_run_id s = Some parent
     \<and> rs_subtask_key s = Some (trim key) \<and> rs_expert_contract s = None \<and> rs_conversation_id s = trim c
     \<and> rs_prompt s = trim p"
  by (auto simp: queued_subagent_def res_simps dest!: start_queued_Inr split: if_splits)

lemma queued_expert_Inr:
  "queued_expert i now parent c contract = Inr s \<Longrightarrow>
     rs_id s = i \<and> rs_initial_status s = Queued \<and> rs_role s = SubagentRun \<and> rs_parent_run_id s = Some parent
     \<and> rs_subtask_key s = Some (trim (ac_key contract)) \<and> rs_expert_contract s = Some contract
     \<and> rs_conversation_id s = trim c \<and> ac_parent_run_id contract = parent"
  by (auto simp: queued_expert_def bind_res_Inr_iff dest!: queued_subagent_Inr split: if_splits)

definition child_of :: "run_record \<Rightarrow> run_start \<Rightarrow> bool" where
  "child_of parent s \<longleftrightarrow>
     rs_initial_status s = Queued \<and> rs_role s = SubagentRun \<and> rs_parent_run_id s = Some (rec_id parent)
     \<and> rs_conversation_id s = trim (rec_conversation_id parent)"

lemma gives_subagent_starts:
  "gives (subagent_starts env parent keys ts)
     (\<lambda>ss. (\<forall>s \<in> set ss. child_of parent s \<and> rs_expert_contract s = None) \<and> length ss = length ts)"
proof (induction ts arbitrary: keys)
  case Nil
  then show ?case by (simp add: triple_rules)
next
  case (Cons t ts)
  obtain key prompt where t: "t = (key, prompt)" by (cases t)
  show ?case unfolding t subagent_starts.simps
    by (rule gives_bind [OF gives_any], rule gives_split, rule gives_bind [OF gives_pure(2)], assumption,
        rule gives_bind [OF gives_any], rule gives_bind [OF Cons.IH], rule gives_pure(1))
      (auto simp: child_of_def dest!: queued_subagent_Inr)
qed

lemma writes_subagents [writes_rules]:
  assumes "\<And>s. rs_initial_status s = Queued \<Longrightarrow> trim (rs_conversation_id s) = rs_conversation_id s \<Longrightarrow> A (RunStarted s)"
  shows "writes env A (append_subagent_runs env parent ts)"
  unfolding append_subagent_runs_def
  by (rule writes_if [OF writes_pure(2) writes_bind [OF writes_reads(8)
        writes_bind_gives [OF writes_subagent_starts gives_subagent_starts]]], intro writes_rules)
    (auto simp: child_of_def intro: assms)

lemma writes_team [writes_rules]:
  assumes "\<And>s. rs_initial_status s = Queued \<Longrightarrow> trim (rs_conversation_id s) = rs_conversation_id s \<Longrightarrow> A (RunStarted s)"
  shows "writes env A (append_expert_team_runs env team order parent items)"
proof -
  have g: "gives (run_map (\<lambda>c. run_bind (run_draw env) (\<lambda>(i, now).
      run_domain (queued_expert i now parent conv c))) cs) (\<lambda>ss. \<forall>s \<in> set ss. rs_initial_status s = Queued
        \<and> trim (rs_conversation_id s) = rs_conversation_id s)"
    for conv cs
    by (intro gives_map gives_bind [OF gives_any] gives_split gives_pure(2)) (auto dest: queued_expert_Inr)
  show ?thesis unfolding append_expert_team_runs_def
    by (rule writes_bind [OF writes_reads(8) writes_bind_domain [OF writes_bind_gives [OF _ g]]];
        intro writes_rules) (auto intro: assms)
qed

lemma writes_retry [writes_rules]:
  assumes "\<And>s. rs_initial_status s = Queued \<Longrightarrow> trim (rs_conversation_id s) = rs_conversation_id s \<Longrightarrow> A (RunStarted s)"
  shows "writes env A (append_expert_retry env parent key)"
  unfolding append_expert_retry_def Let_def
  by (intro writes_rules) (auto dest!: queued_expert_Inr intro!: assms)

lemma writes_retries [writes_rules]:
  "(\<And>s. rs_initial_status s = Queued \<Longrightarrow> trim (rs_conversation_id s) = rs_conversation_id s \<Longrightarrow> A (RunStarted s))
   \<Longrightarrow> writes env A (append_due_expert_retries env parent)"
  unfolding append_due_expert_retries_def by (intro writes_rules) auto

lemma writes_claim_next [writes_rules]:
  assumes "\<And>y. A (RunRecovered y)" "\<And>t. rt_status t = Blocked \<Longrightarrow> A (RunTransitioned t)"
    "\<And>f. rf_status f = Cancelled \<Longrightarrow> finish_validate f = Inr () \<Longrightarrow> A (RunFinished f)"
    "\<And>s. A (RunStepRecorded s)" "\<And>c. A (RunClaimed c)"
  shows "writes env A (claim_next_agent_run env w l)" "writes env A (claim_agent_run env i w l)"
  unfolding claim_next_agent_run_def claim_agent_run_def by (intro writes_rules; auto intro: assms)+

lemma resource_claim_new_Inr:
  "resource_claim_new i at run v key access l = Inr c \<Longrightarrow>
     cl_run_id c = run \<and> cl_tool_invocation_id c = v \<and> cl_resource_key c = trim key \<and> cl_access c = access"
  by (auto simp: resource_claim_new_def res_simps)

lemma writes_resources [writes_rules]:
  "A (ResourceClaimed c) \<Longrightarrow> writes env A (claim_agent_run_resource env c)"
  "(\<And>c. trim (cl_resource_key c) = cl_resource_key c \<Longrightarrow> A (ResourceClaimed c))
     \<Longrightarrow> writes env A (renew_agent_run_resources_for_run env i l)"
  "(\<And>x. A (ResourceReleased x)) \<Longrightarrow> writes env A (release_agent_run_resources_for_invocation env v outcome)"
  unfolding claim_agent_run_resource_def renew_agent_run_resources_for_run_def
    release_agent_run_resources_for_invocation_def Let_def
  by (intro writes_rules; auto dest: resource_claim_new_Inr)+

lemma writes_heartbeat [writes_rules]:
  "(\<And>c. trim (cl_resource_key c) = cl_resource_key c \<Longrightarrow> A (ResourceClaimed c)) \<Longrightarrow> (\<And>c. A (RunClaimed c)) \<Longrightarrow> writes env A (heartbeat_agent_run_lease env i w l)"
  unfolding heartbeat_agent_run_lease_def Let_def by (intro writes_rules) auto

lemma writes_write_checkpoint [writes_rules]: "writes env A (write_checkpoint previous c)"
  by (auto simp: writes_def write_checkpoint_def run_grows_def Let_def split: option.splits)

lemma writes_checkpoint [writes_rules]:
  "(\<And>c. A (CheckpointRecorded c)) \<Longrightarrow> writes env A (record_goal_context_checkpoint env i obs)"
  unfolding record_goal_context_checkpoint_def persist_checkpoint_def
  by (intro writes_rules; auto)

section \<open>Steps of a store\<close>

text \<open>
  The operations a caller has, on any arguments its types and constructors let it pass; the events
  of a run are those its constructors make.
\<close>

inductive run_next :: "run_env \<Rightarrow> goal_json \<Rightarrow> run_store \<Rightarrow> run_store \<Rightarrow> bool" for env js where
  next_goal: "goal_next (rv_goal env) js (rn_goals st) g \<Longrightarrow> run_next env js st (st\<lparr>rn_goals := g\<rparr>)"
| next_start: "start_new i now c p n = Inr s \<or> start_queued i now c p n = Inr s
    \<Longrightarrow> run_next env js st (snd (append_agent_run_start env s st))"
| next_child: "queued_subagent i now parent c key p = Inr s \<or> queued_expert i now parent c contract = Inr s
    \<Longrightarrow> run_next env js st (snd (append_agent_run_start env s st))"
| next_subagents: "run_next env js st (snd (append_subagent_runs env parent ts st))"
| next_team: "run_next env js st (snd (append_expert_team_runs env team order parent items st))"
| next_retry: "run_next env js st (snd (append_expert_retry env parent key st))"
| next_retries: "run_next env js st (snd (append_due_expert_retries env parent st))"
| next_cancel: "run_next env js st (snd (append_agent_run_cancel_request env k st))"
| next_tree_cancel: "run_next env js st (snd (request_agent_run_tree_cancel env parent reason st))"
| next_claim: "run_next env js st (snd (append_agent_run_claim env cl st))"
| next_claim_next: "run_next env js st (snd (claim_next_agent_run env w l st))"
| next_claim_run: "run_next env js st (snd (claim_agent_run env run w l st))"
| next_heartbeat: "run_next env js st (snd (heartbeat_agent_run_lease env run w l st))"
| next_sweep: "run_next env js st (snd (recover_expired_agent_runs env now st))"
| next_recovery: "run_next env js st (snd (append_agent_run_recovery env y st))"
| next_transition: "transition_new i now run s reason v = Inr t
    \<Longrightarrow> run_next env js st (snd (append_agent_run_transition env t st))"
| next_finish: "run_next env js st (snd (append_agent_run_finish env f st))"
| next_step: "run_next env js st (snd (append_agent_run_step env sp st))"
| next_artifact: "run_next env js st (snd (append_agent_run_artifact env af st))"
| next_context: "run_next env js st (snd (append_agent_run_execution_context env x st))"
| next_continuation: "run_next env js st (snd (append_agent_run_continuation_queued env q st))"
| next_guidance: "run_next env js st (snd (append_agent_run_queued_guidance env gd st))"
| next_applied: "run_next env js st (snd (append_agent_run_guidance_applied env ap st))"
| next_resource: "resource_claim_new i now owner v key access l = Inr rc
    \<Longrightarrow> run_next env js st (snd (claim_agent_run_resource env rc st))"
| next_release: "run_next env js st (snd (append_agent_run_resource_release env rl st))"
| next_release_all: "run_next env js st (snd (release_agent_run_resources_for_invocation env iv outcome st))"
| next_result: "run_next env js st (snd (append_expert_attempt_result env r st))"
| next_merge: "run_next env js st (snd (append_expert_merge_receipt env m st))"
| next_checkpoint: "run_next env js st (snd (record_goal_context_checkpoint env run obs st))"

text \<open>An empty store: no run, no checkpoint, and goals that are empty too.\<close>

definition run_initial :: "run_store \<Rightarrow> bool" where
  "run_initial st \<longleftrightarrow> goal_initial (rn_goals st) \<and> rn_checkpoints st = [] \<and> rn_runs st = []"

text \<open>
  What every event of a run is: a start is queued or running in a conversation without blanks
  around its name, a transition names an open
  status, a finish passes its check, and the key of a resource has no blanks around it.
\<close>

definition payload_ok :: "run_payload \<Rightarrow> bool" where
  "payload_ok p \<longleftrightarrow>
     (case p of
        RunStarted s \<Rightarrow> rs_initial_status s \<in> {Queued, Running} \<and> trim (rs_conversation_id s) = rs_conversation_id s
      | RunTransitioned t \<Rightarrow> rt_status t \<in> {Queued, Running, WaitingForPrerequisite, WaitingForConfirmation, Blocked}
      | RunFinished f \<Rightarrow> finish_validate f = Inr ()
      | ResourceClaimed c \<Rightarrow> trim (cl_resource_key c) = cl_resource_key c
      | _ \<Rightarrow> True)"

lemma payload_ok_simps [simp]:
  "payload_ok (RunStarted s) \<longleftrightarrow>
     rs_initial_status s \<in> {Queued, Running} \<and> trim (rs_conversation_id s) = rs_conversation_id s"
  "payload_ok (RunTransitioned t) \<longleftrightarrow>
     rt_status t \<in> {Queued, Running, WaitingForPrerequisite, WaitingForConfirmation, Blocked}"
  "payload_ok (RunFinished f) \<longleftrightarrow> finish_validate f = Inr ()"
  "payload_ok (ResourceClaimed c) \<longleftrightarrow> trim (cl_resource_key c) = cl_resource_key c"
  by (simp_all add: payload_ok_def)

lemma payload_ok_others [simp]:
  "payload_ok (RunClaimed c)" "payload_ok (RunRecovered y)" "payload_ok (RunContextRecorded x)"
  "payload_ok (RunContinuationQueued q)" "payload_ok (RunGuidanceQueued g)" "payload_ok (RunGuidanceApplied a)"
  "payload_ok (RunCancelRequested k)" "payload_ok (ResourceReleased rl)"
  "payload_ok (RunStepRecorded sp)" "payload_ok (RunArtifactRecorded af)" "payload_ok (ExpertResultRecorded r)"
  "payload_ok (ExpertMergeRecorded m)" "payload_ok (CheckpointRecorded ck)"
  by (simp_all add: payload_ok_def)

text \<open>Every step either moves the goals or appends such events.\<close>

lemma run_next_grows:
  assumes "run_next env js st st'"
  shows "(\<exists>g. goal_next (rv_goal env) js (rn_goals st) g \<and> st' = st\<lparr>rn_goals := g\<rparr>)
    \<or> run_grows env payload_ok st st'"
  using assms
proof cases
  case (next_start i now c p n s)
  then have "payload_ok (RunStarted s)" by (auto dest: start_new_Inr start_queued_Inr)
  then show ?thesis using next_start(1) by (simp add: writesD writes_start)
next
  case (next_child i now parent c key p s contract)
  then have "payload_ok (RunStarted s)" by (auto dest: queued_subagent_Inr queued_expert_Inr)
  then show ?thesis using next_child(1) by (simp add: writesD writes_start)
next
  case (next_transition i now run s reason v t)
  then show ?thesis using transition_new_Inr [OF next_transition(2)] by (simp add: writesD writes_rules)
next
  case (next_resource i now owner v key access l rc)
  then have "payload_ok (ResourceClaimed rc)" by (auto dest: resource_claim_new_Inr)
  then show ?thesis using next_resource(1) by (simp add: writesD writes_rules)
qed (auto intro!: writesD writes_rules)

end
