(* ===== verification/Run_Store_Safety.thy ===== *)
theory Run_Store_Safety
  imports Run_Step
begin

text \<open>
  What holds of the runs of every store the operations can reach: a run shown as completed is
  verified, two writers never hold one resource, a recovered run had no tool running, delegation is
  bounded, and a merged result was reviewed.
\<close>

section \<open>The invariant\<close>

definition run_inv :: "run_env \<Rightarrow> run_store \<Rightarrow> bool" where
  "run_inv env st \<longleftrightarrow>
     store_inv (rv_goal env) (rn_goals st) \<and> (\<forall>e \<in> set (rn_runs st). payload_ok (ke_payload e))"

lemma run_grows_inv: "run_grows env payload_ok st st' \<Longrightarrow> run_inv env st \<Longrightarrow> run_inv env st'"
  by (auto simp: run_grows_def run_inv_def)

lemma run_next_inv: "run_inv env st \<Longrightarrow> run_next env js st st' \<Longrightarrow> run_inv env st'"
  using run_next_grows [of env js st st'] run_grows_inv goal_next_inv
  by (fastforce simp: run_inv_def)

interpretation runs: transition_system "run_next env js" "run_inv env" for env js
  by unfold_locales (rule run_next_inv)

lemma run_initial_inv: "run_initial st \<Longrightarrow> run_inv env st"
  by (simp add: run_initial_def run_inv_def goal_initial_inv)

lemma run_reachable_inv: "run_initial st0 \<Longrightarrow> (run_next env js)\<^sup>*\<^sup>* st0 st \<Longrightarrow> run_inv env st"
  using runs.run_inv run_initial_inv by blast

section \<open>Reading the log\<close>

lemma list_by_type_in:
  "x \<in> set (list_by_type n is_type part st) \<Longrightarrow>
     \<exists>e \<in> set (rn_runs st). is_type (ke_payload e) \<and> x = part (ke_payload e)"
  by (auto simp: list_by_type_def dest!: in_set_takeD)

text \<open>A list within its limit misses nothing.\<close>

lemma list_by_type_all:
  assumes "length (filter (\<lambda>e. is_type (ke_payload e)) (rn_runs st)) \<le> n"
  shows "set (list_by_type n is_type part st) = {part (ke_payload e) |e. e \<in> set (rn_runs st) \<and> is_type (ke_payload e)}"
proof -
  let ?l = "newest_first ke_created_at (rev (filter (\<lambda>e. is_type (ke_payload e)) (rn_runs st)))"
  have "length ?l \<le> n" using assms by (simp add: newest_first_def)
  then have "take n ?l = ?l" by simp
  then have "list_by_type n is_type part st = map (\<lambda>e. part (ke_payload e)) ?l" by (simp add: list_by_type_def)
  then show ?thesis by auto
qed

lemma listed_iff:
  assumes "length (filter (\<lambda>e. is_type (ke_payload e)) (rn_runs st)) \<le> n"
    and "\<And>y. is_type (C y)" and "\<And>y. part (C y) = y" and "\<And>p. is_type p \<Longrightarrow> p = C (part p)"
  shows "x \<in> set (list_by_type n is_type part st) \<longleftrightarrow> C x \<in> ke_payload ` set (rn_runs st)"
proof
  assume "x \<in> set (list_by_type n is_type part st)"
  then show "C x \<in> ke_payload ` set (rn_runs st)" using list_by_type_in assms(4) by fastforce
next
  assume "C x \<in> ke_payload ` set (rn_runs st)"
  then obtain e where "e \<in> set (rn_runs st)" "ke_payload e = C x" by force
  then show "x \<in> set (list_by_type n is_type part st)"
    using list_by_type_all [of is_type st n part, OF assms(1)] assms(2) [of x] assms(3) [of x]
    by (auto intro!: exI [of _ e])
qed

lemma list_starts_in: "s \<in> set (list_agent_run_starts st) \<Longrightarrow> \<exists>e \<in> set (rn_runs st). ke_payload e = RunStarted s"
  using list_by_type_in [of s 500 is_started the_start st] by (auto simp: list_agent_run_starts_def is_started_def)

section \<open>Records\<close>

lemma record_of_start:
  assumes "records_of env st seen ss = Inr rs" and "r \<in> set rs"
  shows "\<exists>s \<in> set ss. \<exists>h block. r = record_from s h block \<and> (h = no_history \<or> h = history_of st (rs_id s))
    \<and> (case rh_finish h of None \<Rightarrow> Inr None | Some f \<Rightarrow> agent_run_finish_restart_block_reason env st f) = Inr block"
  using assms
proof (induction ss arbitrary: seen rs)
  case (Cons s ss)
  let ?h = "if rs_id s \<in> seen then no_history else history_of st (rs_id s)"
  obtain block rest where b: "(case rh_finish ?h of None \<Rightarrow> Inr None
        | Some f \<Rightarrow> agent_run_finish_restart_block_reason env st f) = Inr block"
      "records_of env st (insert (rs_id s) seen) ss = Inr rest" "rs = record_from s ?h block # rest"
    using Cons.prems(1) by (auto simp: Let_def bind_res_Inr_iff)
  show ?case
  proof (cases "r \<in> set rest")
    case True
    then show ?thesis using Cons.IH [OF b(2)] by auto
  next
    case False
    then have "r = record_from s ?h block" using b(3) Cons.prems(2) by simp
    then show ?thesis using b(1) by (intro bexI [of _ s] exI [of _ ?h] exI [of _ block]) auto
  qed
qed simp

lemma listed_record:
  assumes "list_agent_run_records env st = Inr rs" and "r \<in> set rs"
  obtains s h block where "s \<in> set (list_agent_run_starts st)" "r = record_from s h block"
    "h = no_history \<or> h = history_of st (rs_id s)"
    "(case rh_finish h of None \<Rightarrow> Inr None | Some f \<Rightarrow> agent_run_finish_restart_block_reason env st f) = Inr block"
  using record_of_start [OF assms(1) [unfolded list_agent_run_records_def] assms(2)] by blast

lemma record_from_id [simp]: "rec_id (record_from s h block) = rs_id s"
  by (simp add: record_from_def Let_def)

lemma record_from_start [simp]:
  "rec_role (record_from s h block) = rs_role s" "rec_parent_run_id (record_from s h block) = rs_parent_run_id s"
  "rec_conversation_id (record_from s h block) = rs_conversation_id s"
  "rec_expert_contract (record_from s h block) = rs_expert_contract s"
  "rec_expert_result (record_from s h block) = rh_result h" "rec_prompt (record_from s h block) = rs_prompt s"
  by (simp_all add: record_from_def Let_def)

lemma record_completed:
  assumes "rec_status (record_from s h block) = Completed" and "open_status s h \<noteq> Completed"
  shows "block = None \<and> (\<exists>f. rh_finish h = Some f \<and> rf_status f = Completed)"
  using assms by (auto simp: record_from_def Let_def split: if_splits option.splits)

lemma history_finish:
  "rh_finish (history_of st i) = Some f \<Longrightarrow> rf_run_id f = i \<and> f \<in> set (list_agent_run_finishes st)"
  using latest_by_Some [of rf_run_id rf_finished_at "list_agent_run_finishes st" i f] by (simp add: history_of_def)

lemma history_transition:
  "rh_transition (history_of st i) = Some t \<Longrightarrow> rt_run_id t = i \<and> t \<in> set (list_agent_run_transitions st)"
  using latest_by_Some [of rt_run_id rt_transitioned_at "list_agent_run_transitions st" i t] by (simp add: history_of_def)

lemma open_status_open:
  assumes "run_inv env st" and "s \<in> set (list_agent_run_starts st)"
    and "h = no_history \<or> h = history_of st (rs_id s)"
  shows "open_status s h \<notin> {Completed, Failed, Cancelled, CancelRequested}"
proof -
  have s: "rs_initial_status s \<in> {Queued, Running}"
    using list_starts_in [OF assms(2)] assms(1) by (auto simp: run_inv_def)
  have "rt_status t \<notin> {Completed, Failed, Cancelled, CancelRequested}" if "rh_transition h = Some t" for t
  proof -
    have "t \<in> set (list_agent_run_transitions st)" using that assms(3) history_transition by (auto simp: no_history_def)
    then obtain e where "e \<in> set (rn_runs st)" "ke_payload e = RunTransitioned t"
      using list_by_type_in [of t 1000 is_transition the_transition st]
      by (auto simp: list_agent_run_transitions_def is_transition_def)
    then show ?thesis using assms(1) by (auto simp: run_inv_def)
  qed
  then show ?thesis using s by (auto simp: open_status_def split: option.splits)
qed

text \<open>A record shown as completed: its latest finish is, and the goal supports it now.\<close>

lemma completed_record:
  assumes "run_inv env st" and "list_agent_run_records env st = Inr rs" and "r \<in> set rs" and "rec_status r = Completed"
  obtains f where "f \<in> set (list_agent_run_finishes st)" "rf_run_id f = rec_id r" "rf_status f = Completed"
    "agent_run_finish_restart_block_reason env st f = Inr None"
proof -
  obtain s h block where s: "s \<in> set (list_agent_run_starts st)" "r = record_from s h block"
    "h = no_history \<or> h = history_of st (rs_id s)"
    "(case rh_finish h of None \<Rightarrow> Inr None | Some f \<Rightarrow> agent_run_finish_restart_block_reason env st f) = Inr block"
    by (rule listed_record [OF assms(2,3)])
  have "open_status s h \<noteq> Completed" using open_status_open [OF assms(1) s(1,3)] by auto
  then obtain f where f: "block = None" "rh_finish h = Some f" "rf_status f = Completed"
    using record_completed [of s h block] assms(4) s(2) by auto
  then have "h = history_of st (rs_id s)" using s(3) by (auto simp: no_history_def)
  then show ?thesis using that [of f] f s(2,4) history_finish [of st "rs_id s" f] by simp
qed

lemma unblocked_completion:
  assumes "agent_run_finish_restart_block_reason env st f = Inr None" and "rf_status f = Completed"
  shows "(classify_run env st (rf_run_id f) = Inr GoalLess \<and> rf_goal_completion_receipt f = None)
    \<or> (\<exists>receipt. classify_run env st (rf_run_id f) = Inr (ExactComplete receipt)
         \<and> rf_goal_completion_receipt f = Some receipt)"
  using assms
  by (auto simp: agent_run_finish_restart_block_reason_def Let_def split: sum.splits store_error.splits
      run_classification.splits if_splits)

lemma goalless_has_no_goal:
  "classify_agent_run_completion_from_connection env blocker st i = Inr GoalLess \<Longrightarrow>
     goal_envelope_projection env st i = Inr None"
proof -
  note d = classify_agent_run_completion_from_connection_def
  have blk: "blocked_reason x \<noteq> Inr GoalLess" for x by (auto simp: blocked_reason_def bind_res_Inr_iff)
  assume c: "classify_agent_run_completion_from_connection env blocker st i = Inr GoalLess"
  obtain found where f: "goal_envelope_projection env st i = Inr found" using c by (auto simp: d bind_res_Inr_iff)
  show ?thesis
  proof (cases found)
    case (Some j)
    then obtain completion where "goal_completion_projection env st i = Inr completion"
      using c f blk by (auto simp: d bind_res_Inr_iff split: if_splits)
    then show ?thesis
      using c f Some blk by (cases completion) (auto simp: d split: if_splits option.splits)
  qed (use f in simp)
qed

text \<open>
  C1: A run is shown as completed only on verified work. In every reachable store, if the list of
  records shows a run as completed, either the run has no goal, or its goal is frozen, its finish
  carries the receipt of this revision and fingerprint, and for every verifier of the frozen
  envelope the log holds a tool invocation of this run that succeeded, was verified and reports
  evidence of the verifier's kind.
\<close>

theorem completed_run_is_verified:
  assumes "run_initial st0" and "(run_next env js)\<^sup>*\<^sup>* st0 st"
    and "list_agent_run_records env st = Inr rs" and "r \<in> set rs" and "rec_status r = Completed"
  shows "goal_envelope_projection (rv_goal env) (rn_goals st) (rec_id r) = Inr None \<or>
    (\<exists>f j g receipt. f \<in> set (list_agent_run_finishes st) \<and> rf_run_id f = rec_id r \<and>
       rf_goal_completion_receipt f = Some receipt \<and>
       goal_envelope_projection (rv_goal env) (rn_goals st) (rec_id r) = Inr (Some j) \<and> gj_state j = GoalFrozen g \<and>
       cr_revision receipt = fe_revision g \<and> cr_frozen_fingerprint receipt = fe_fingerprint g \<and>
       (\<forall>w \<in> set (ve_verifiers (fe_envelope g)). \<exists>v.
          ToolRecorded v \<in> ke_payload ` set (xs_events (gs_exec (rn_goals st))) \<and>
          ti_run_id v = Some (rec_id r) \<and> ti_status v = ToolSucceeded \<and> tv_passed (ti_verification v) \<and>
          (\<exists>e \<in> set (ti_evidence v). trim (te_kind e) = gv_evidence_kind w)))"
proof -
  note inv = run_reachable_inv [OF assms(1,2)]
  obtain f where f: "f \<in> set (list_agent_run_finishes st)" "rf_run_id f = rec_id r" "rf_status f = Completed"
    "agent_run_finish_restart_block_reason env st f = Inr None"
    by (rule completed_record [OF inv assms(3-5)])
  from unblocked_completion [OF f(4,3)] show ?thesis
  proof (elim disjE exE conjE)
    assume "classify_run env st (rf_run_id f) = Inr GoalLess"
    then show ?thesis using goalless_has_no_goal f(2) by (simp add: classify_run_def)
  next
    fix receipt
    assume "classify_run env st (rf_run_id f) = Inr (ExactComplete receipt)"
      and receipt: "rf_goal_completion_receipt f = Some receipt"
    then have "classify_agent_run_completion_from_connection (rv_goal env) (blocker_reason_from_connection env st)
        (rn_goals st) (rec_id r) = Inr (ExactComplete receipt)" using f(2) by (simp add: classify_run_def)
    from classified_run_evidence [OF _ this] show ?thesis
      using inv receipt f(1,2) unfolding run_inv_def by metis
  qed
qed

section \<open>Recovery\<close>

text \<open>The payloads appended between two stores.\<close>

definition new_payloads :: "run_store \<Rightarrow> run_store \<Rightarrow> run_payload set" where
  "new_payloads st st' = ke_payload ` set (drop (length (rn_runs st)) (rn_runs st'))"

lemma new_payloads_grows: "run_grows env A st st' \<Longrightarrow> p \<in> new_payloads st st' \<Longrightarrow> A p"
  by (auto simp: run_grows_def new_payloads_def)

lemma new_payloads_widen:
  assumes "run_grows env A st st1" and "p \<in> new_payloads st1 st2" and "run_grows env A st1 st2" and "run_grows env A st2 st3"
  shows "p \<in> new_payloads st st3"
  using assms by (auto simp: run_grows_def new_payloads_def)

definition may_replay :: "run_env \<Rightarrow> run_store \<Rightarrow> instant \<Rightarrow> uuid \<Rightarrow> bool" where
  "may_replay env st now i \<longleftrightarrow>
     (\<exists>rs r lease. list_agent_run_records env st = Inr rs \<and> r \<in> set rs \<and> rec_id r = i \<and>
        rec_status r = Running \<and> \<not> rec_cancel_requested r \<and>
        rec_lease_expires_at r = Some lease \<and> lease \<le> now \<and>
        (\<forall>v \<in> set (list_tool_invocations (gs_exec (rn_goals st))).
           ti_run_id v = Some i \<longrightarrow> ti_status v \<noteq> ToolRunning))"

lemma sweep_state:
  "list_agent_run_records env st = Inr rs \<Longrightarrow> snd (recover_expired_agent_runs env now st) =
     snd (run_map (sweep_run env now (list_tool_invocations (gs_exec (rn_goals st)))) rs st)"
  "list_agent_run_records env st = Inl e \<Longrightarrow> recover_expired_agent_runs env now st = (Inl e, st)"
  by (simp_all add: recover_expired_agent_runs_def run_bind_def run_read_def the_records_def run_return_def
      split: prod.splits sum.splits)

lemma sweep_grows:
  "run_grows env (\<lambda>p. \<forall>y. p = RunRecovered y \<longrightarrow> may_replay env st now (ry_run_id y)) st
     (snd (recover_expired_agent_runs env now st))"
proof (cases "list_agent_run_records env st")
  case (Inr rs)
  have "writes env (\<lambda>p. \<forall>y. p = RunRecovered y \<longrightarrow> may_replay env st now (ry_run_id y))
      (run_map (sweep_run env now (list_tool_invocations (gs_exec (rn_goals st)))) rs)"
    by (intro writes_map writes_sweep_run) (auto simp: may_replay_def Inr find_None_iff)
  then show ?thesis by (simp add: sweep_state(1) [OF Inr] writesD)
qed (simp add: sweep_state(2))

text \<open>A successful \<open>run_map\<close> ran every element from a store of its own, and kept what each wrote.\<close>

lemma run_map_each:
  assumes "\<And>x. x \<in> set xs \<Longrightarrow> writes env A (f x)" and "fst (run_map f xs st) = Inr ys" and "x \<in> set xs"
  shows "\<exists>st1 y. run_grows env A st st1 \<and> fst (f x st1) = Inr y
    \<and> run_grows env A (snd (f x st1)) (snd (run_map f xs st))"
  using assms
proof (induction xs arbitrary: st ys)
  case (Cons z zs)
  have w: "writes env A (f z)" "writes env A (run_map f zs)" using Cons.prems(1) by (auto intro: writes_map)
  obtain y where y: "fst (f z st) = Inr y" using Cons.prems(2) by (auto simp: run_bind_result split: sum.splits)
  obtain ws where ws: "fst (run_map f zs (snd (f z st))) = Inr ws"
    using Cons.prems(2) y by (auto simp: run_bind_result split: sum.splits)
  have final: "snd (run_map f (z # zs) st) = snd (run_map f zs (snd (f z st)))"
    using y ws by (simp add: run_bind_state run_return_def)
  show ?case
  proof (cases "x = z")
    case True
    then show ?thesis using y final w(2) [THEN writesD, of "snd (f z st)"] by (intro exI [of _ st]) auto
  next
    case False
    then obtain st1 v where "run_grows env A (snd (f z st)) st1" "fst (f x st1) = Inr v"
      "run_grows env A (snd (f x st1)) (snd (run_map f zs (snd (f z st))))"
      using Cons.IH [OF _ ws] Cons.prems(1,3) by auto
    then show ?thesis using final run_grows_trans [OF writesD [OF w(1)]] by auto
  qed
qed simp

lemma run_grows_log: "run_grows env A st st' \<Longrightarrow> e \<in> set (rn_runs st) \<Longrightarrow> e \<in> set (rn_runs st')"
  by (auto simp: run_grows_def)

lemma run_append_new:
  "fst (run_append env p st) = Inr x \<Longrightarrow> p \<in> new_payloads st (snd (run_append env p st))"
  by (auto simp: run_append_def run_bind_def run_draw_def new_payloads_def split: prod.splits if_splits)

lemma transition_new_payload:
  assumes "fst (append_agent_run_transition env t st) = Inr x"
  shows "RunTransitioned t \<in> new_payloads st (snd (append_agent_run_transition env t st))"
  using assms run_append_new [of env "RunTransitioned t" st]
  by (auto simp: append_agent_run_transition_def the_run_def the_records_def run_bind_result run_bind_state
      run_read_def run_lift_def run_require_def run_return_def run_fail_def split: sum.splits if_splits)

text \<open>A run whose outcome is open is blocked by the sweep, not recovered.\<close>

lemma sweep_run_blocks:
  assumes "rec_lease_expires_at r = Some lease" and "lease \<le> now" and "rec_status r = Running"
    and "\<not> rec_cancel_requested r" and "find (\<lambda>v. ti_run_id v = Some (rec_id r) \<and> ti_status v = ToolRunning) vs = Some v"
    and "fst (sweep_run env now vs r st) = Inr k"
  shows "\<exists>t. RunTransitioned t \<in> new_payloads st (snd (sweep_run env now vs r st)) \<and> rt_run_id t = rec_id r
    \<and> rt_status t = Blocked \<and> rt_tool_invocation_id t = Some (ti_id v)"
proof -
  let ?reason = "blocked_recovery_reason env v"
  let ?st1 = "snd (run_draw env st)"
  obtain i at where d: "fst (run_draw env st) = Inr (i, at)" by (cases "rv_draw env (rn_draws st)") (auto simp: run_draw_def)
  let ?rest = "\<lambda>t. run_bind (append_agent_run_transition env t)
      (\<lambda>_. run_bind (record_recovery_step env r StepFailed ?reason) (\<lambda>_. run_return SweepBlocked))"
  have run: "sweep_run env now vs r = run_bind (run_draw env) (\<lambda>(i, at).
      run_bind (run_domain (transition_new i at (rec_id r) Blocked ?reason (Some (ti_id v)))) ?rest)"
    using assms(1-5) by (simp add: sweep_run_def Let_def)
  obtain t where t: "transition_new i at (rec_id r) Blocked ?reason (Some (ti_id v)) = Inr t"
    using assms(6) d by (auto simp: run run_bind_result run_domain_def run_lift_def invalid_state_def split: sum.splits)
  have rest: "fst (?rest t ?st1) = Inr k" "snd (sweep_run env now vs r st) = snd (?rest t ?st1)"
    using assms(6) d t
    by (simp_all add: run run_bind_result run_bind_state run_domain_def run_lift_def invalid_state_def)
  then obtain y where y: "fst (append_agent_run_transition env t ?st1) = Inr y"
    by (auto simp: run_bind_result split: sum.splits)
  let ?st2 = "snd (append_agent_run_transition env t ?st1)"
  have any: "writes env (\<lambda>_. True) (run_bind (record_recovery_step env r StepFailed ?reason) (\<lambda>_. run_return SweepBlocked))"
    unfolding record_recovery_step_def by (intro writes_rules) auto
  have g: "run_grows env (\<lambda>_. True) st ?st1" "run_grows env (\<lambda>_. True) ?st1 ?st2"
    "run_grows env (\<lambda>_. True) ?st2 (snd (?rest t ?st1))"
    using y writesD [OF any, of ?st2]
    by (auto simp: run_bind_state intro: writesD writes_rules)
  have "RunTransitioned t \<in> new_payloads st (snd (?rest t ?st1))"
    by (rule new_payloads_widen [OF g(1) transition_new_payload [OF y] g(2,3)])
  then show ?thesis using rest(2) transition_new_Inr [OF t] by auto
qed

text \<open>
  C5: Recovery never replays a side effect it can see. The sweep reads the list of tool invocations,
  which holds the 500 that changed last. Whatever it appends, each run it puts back in the queue was
  running, not cancelled, with an expired lease and without a running invocation in that list. When
  the sweep succeeds, a run of that kind that the list of runs shows and that has a running invocation
  in that list is marked blocked, with one of its own running invocations named, and is not put back.
\<close>

theorem recovery_never_replays:
  "(\<forall>y. RunRecovered y \<in> new_payloads st (snd (recover_expired_agent_runs env now st))
      \<longrightarrow> may_replay env st now (ry_run_id y)) \<and>
   (\<forall>rs r lease v sweep. list_agent_run_records env st = Inr rs \<longrightarrow> r \<in> set rs \<longrightarrow> rec_status r = Running \<longrightarrow>
      \<not> rec_cancel_requested r \<longrightarrow> rec_lease_expires_at r = Some lease \<longrightarrow> lease \<le> now \<longrightarrow>
      v \<in> set (list_tool_invocations (gs_exec (rn_goals st))) \<longrightarrow> ti_run_id v = Some (rec_id r) \<longrightarrow>
      ti_status v = ToolRunning \<longrightarrow> fst (recover_expired_agent_runs env now st) = Inr sweep \<longrightarrow>
      (\<forall>y. RunRecovered y \<in> new_payloads st (snd (recover_expired_agent_runs env now st)) \<longrightarrow> ry_run_id y \<noteq> rec_id r) \<and>
      (\<exists>t w. RunTransitioned t \<in> new_payloads st (snd (recover_expired_agent_runs env now st)) \<and>
         rt_run_id t = rec_id r \<and> rt_status t = Blocked \<and> rt_tool_invocation_id t = Some (ti_id w) \<and>
         w \<in> set (list_tool_invocations (gs_exec (rn_goals st))) \<and> ti_run_id w = Some (rec_id r) \<and>
         ti_status w = ToolRunning))"
proof (intro conjI allI impI)
  fix y assume "RunRecovered y \<in> new_payloads st (snd (recover_expired_agent_runs env now st))"
  then show "may_replay env st now (ry_run_id y)" using new_payloads_grows [OF sweep_grows] by blast
next
  fix rs r lease v sweep y
  assume "v \<in> set (list_tool_invocations (gs_exec (rn_goals st)))" "ti_run_id v = Some (rec_id r)"
    "ti_status v = ToolRunning" "RunRecovered y \<in> new_payloads st (snd (recover_expired_agent_runs env now st))"
  then show "ry_run_id y \<noteq> rec_id r"
    using new_payloads_grows [OF sweep_grows, of "RunRecovered y" st env now] by (auto simp: may_replay_def)
next
  fix rs r lease v sweep
  let ?vs = "list_tool_invocations (gs_exec (rn_goals st))"
  let ?any = "\<lambda>_ :: run_payload. True"
  assume rs: "list_agent_run_records env st = Inr rs" and r: "r \<in> set rs"
    and c: "rec_status r = Running" "\<not> rec_cancel_requested r" "rec_lease_expires_at r = Some lease" "lease \<le> now"
    and v: "v \<in> set ?vs" "ti_run_id v = Some (rec_id r)" "ti_status v = ToolRunning"
    and ok: "fst (recover_expired_agent_runs env now st) = Inr sweep"
  obtain w where w: "find (\<lambda>v. ti_run_id v = Some (rec_id r) \<and> ti_status v = ToolRunning) ?vs = Some w"
    using v by (metis (mono_tags, lifting) find_None_iff not_None_eq)
  have wr: "writes env ?any (sweep_run env now ?vs x)" for x by (rule writes_sweep_run) auto
  obtain kinds where kinds: "fst (run_map (sweep_run env now ?vs) rs st) = Inr kinds"
    using ok rs by (auto simp: recover_expired_agent_runs_def run_bind_def run_read_def the_records_def split: prod.splits sum.splits)
  obtain st1 k where st1: "run_grows env ?any st st1" "fst (sweep_run env now ?vs r st1) = Inr k"
    "run_grows env ?any (snd (sweep_run env now ?vs r st1)) (snd (run_map (sweep_run env now ?vs) rs st))"
    using run_map_each [OF wr kinds r] by blast
  obtain t where t: "RunTransitioned t \<in> new_payloads st1 (snd (sweep_run env now ?vs r st1))" "rt_run_id t = rec_id r"
    "rt_status t = Blocked" "rt_tool_invocation_id t = Some (ti_id w)"
    using sweep_run_blocks [OF c(3,4,1,2) w st1(2)] by blast
  have "RunTransitioned t \<in> new_payloads st (snd (recover_expired_agent_runs env now st))"
    unfolding sweep_state(1) [OF rs] by (rule new_payloads_widen [OF st1(1) t(1) writesD [OF wr] st1(3)])
  then show "\<exists>t w. RunTransitioned t \<in> new_payloads st (snd (recover_expired_agent_runs env now st)) \<and>
      rt_run_id t = rec_id r \<and> rt_status t = Blocked \<and> rt_tool_invocation_id t = Some (ti_id w) \<and>
      w \<in> set ?vs \<and> ti_run_id w = Some (rec_id r) \<and> ti_status w = ToolRunning"
    using t(2-4) w by (intro exI [of _ t] exI [of _ w]) (auto simp: find_Some_iff)
qed

section \<open>Holding a resource\<close>

text \<open>
  Who holds a resource, on the whole log: the claims whose lease has not run out and that nothing
  released.
\<close>

abbreviation run_payloads :: "run_store \<Rightarrow> run_payload set" where
  "run_payloads st \<equiv> ke_payload ` set (rn_runs st)"

lemma run_grows_payloads:
  assumes "run_grows env A st st'"
  shows "p \<in> run_payloads st \<Longrightarrow> p \<in> run_payloads st'" "p \<in> run_payloads st' \<Longrightarrow> p \<in> run_payloads st \<or> A p"
proof -
  obtain es where es: "rn_runs st' = rn_runs st @ es" "\<forall>e \<in> set es. A (ke_payload e)"
    using assms by (auto simp: run_grows_def)
  show "p \<in> run_payloads st \<Longrightarrow> p \<in> run_payloads st'" by (simp add: es(1) image_Un)
  show "p \<in> run_payloads st' \<Longrightarrow> p \<in> run_payloads st \<or> A p" using es(2) by (auto simp: es(1))
qed

definition held_claims :: "run_store \<Rightarrow> instant \<Rightarrow> resource_claim set" where
  "held_claims st now =
     {c. ResourceClaimed c \<in> run_payloads st \<and> now < cl_lease_expires_at c \<and>
         (\<forall>l. ResourceReleased l \<in> run_payloads st \<longrightarrow> rl_claim_id l \<noteq> cl_id c)}"

definition claims_in_view :: "run_store \<Rightarrow> bool" where
  "claims_in_view st \<longleftrightarrow>
     length (filter (\<lambda>e. is_resource_claim (ke_payload e)) (rn_runs st)) \<le> 1000 \<and>
     length (filter (\<lambda>e. is_resource_release (ke_payload e)) (rn_runs st)) \<le> 1000"

definition clock_runs :: "run_env \<Rightarrow> bool" where
  "clock_runs env \<longleftrightarrow> (\<forall>m n. m \<le> n \<longrightarrow> snd (rv_draw env m) \<le> snd (rv_draw env n))"

definition next_instant :: "run_env \<Rightarrow> run_store \<Rightarrow> instant" where
  "next_instant env st = snd (rv_draw env (rn_draws st))"

definition exclusive_from :: "run_store \<Rightarrow> instant \<Rightarrow> bool" where
  "exclusive_from st now \<longleftrightarrow>
     (\<forall>t c d. now \<le> t \<longrightarrow> c \<in> held_claims st t \<longrightarrow> d \<in> held_claims st t \<longrightarrow> claims_clash c d \<longrightarrow>
        claim_key c = claim_key d)"

definition exclusive :: "run_env \<Rightarrow> run_store \<Rightarrow> bool" where
  "exclusive env st \<longleftrightarrow> (claims_in_view st \<longrightarrow> exclusive_from st (next_instant env st))"

lemma exclusive_from_later: "exclusive_from st now \<Longrightarrow> now \<le> t \<Longrightarrow> exclusive_from st t"
  unfolding exclusive_from_def by (meson order_trans)

lemma held_earlier: "c \<in> held_claims st t \<Longrightarrow> now \<le> t \<Longrightarrow> c \<in> held_claims st now"
  by (auto simp: held_claims_def)

lemma claims_in_view_grows: "run_grows env A st st' \<Longrightarrow> claims_in_view st' \<Longrightarrow> claims_in_view st"
  by (auto simp: run_grows_def claims_in_view_def)

lemma next_instant_grows: "clock_runs env \<Longrightarrow> run_grows env A st st' \<Longrightarrow> next_instant env st \<le> next_instant env st'"
  by (simp add: run_grows_def clock_runs_def next_instant_def)

lemma claims_clash_key:
  "claim_key x = claim_key y \<Longrightarrow> claims_clash x d = claims_clash y d"
  "claim_key x = claim_key y \<Longrightarrow> claims_clash d x = claims_clash d y"
  by (auto simp: claim_key_def claims_clash_def)

lemma claims_clash_sym: "claims_clash c d = claims_clash d c"
  by (auto simp: claims_clash_def)

text \<open>What the store lists as active are the held claims, as long as all are in view.\<close>

lemma listed_claims:
  assumes "claims_in_view st"
  shows "set (active_claims st now) = held_claims st now"
proof -
  have c: "c \<in> set (list_agent_run_resource_claims st) \<longleftrightarrow> ResourceClaimed c \<in> run_payloads st" for c
    unfolding list_agent_run_resource_claims_def
    by (rule listed_iff) (use assms in \<open>auto simp: claims_in_view_def is_resource_claim_def\<close>)
  have l: "l \<in> set (list_agent_run_resource_releases st) \<longleftrightarrow> ResourceReleased l \<in> run_payloads st" for l
    unfolding list_agent_run_resource_releases_def
    by (rule listed_iff) (use assms in \<open>auto simp: claims_in_view_def is_resource_release_def\<close>)
  have "cl_id d \<in> rl_claim_id ` set (list_agent_run_resource_releases st) \<longleftrightarrow>
      (\<exists>l. ResourceReleased l \<in> run_payloads st \<and> rl_claim_id l = cl_id d)" for d :: resource_claim
    using l by (metis (no_types, lifting) image_iff)
  then show ?thesis unfolding active_claims_def held_claims_def set_filter c by blast
qed

lemma in_map_filter: "y \<in> set (List.map_filter f xs) \<longleftrightarrow> (\<exists>x \<in> set xs. f x = Some y)"
  by (force simp: List.map_filter_def)

lemma listed_active:
  "c \<in> set (list_active_agent_run_resource_claims st now) \<Longrightarrow> c \<in> set (active_claims st now)"
  by (auto simp: list_active_agent_run_resource_claims_def Let_def in_map_filter dest: latest_by_Some)

lemma active_is_listed:
  assumes "c \<in> set (active_claims st now)"
  shows "\<exists>d \<in> set (list_active_agent_run_resource_claims st now). claim_key d = claim_key c"
proof -
  obtain d where d: "latest_by claim_key cl_claimed_at (active_claims st now) (claim_key c) = Some d"
    using latest_by_max [OF assms] by blast
  then have "d \<in> set (list_active_agent_run_resource_claims st now)"
    using assms by (force simp: list_active_agent_run_resource_claims_def Let_def in_map_filter)
  then show ?thesis using latest_by_Some [OF d] by blast
qed

text \<open>Writing anything but a claim keeps the exclusion; so does renewing a held claim.\<close>

lemma exclusive_frame:
  assumes "clock_runs env" and "run_grows env (\<lambda>p. \<not> is_resource_claim p) st st'" and "exclusive env st"
  shows "exclusive env st'"
  unfolding exclusive_def
proof
  assume "claims_in_view st'"
  then have "exclusive_from st (next_instant env st)"
    using claims_in_view_grows [OF assms(2)] assms(3) by (simp add: exclusive_def)
  then have "exclusive_from st (next_instant env st')"
    using exclusive_from_later next_instant_grows [OF assms(1,2)] by blast
  moreover have "held_claims st' t \<subseteq> held_claims st t" for t
  proof
    fix c assume c: "c \<in> held_claims st' t"
    then have "ResourceClaimed c \<in> run_payloads st"
      using run_grows_payloads(2) [OF assms(2), of "ResourceClaimed c"] by (auto simp: held_claims_def)
    then show "c \<in> held_claims st t"
      using c run_grows_payloads(1) [OF assms(2)] by (simp add: held_claims_def)
  qed
  ultimately show "exclusive_from st' (next_instant env st')" unfolding exclusive_from_def by blast
qed

lemma held_append:
  "held_claims (st\<lparr>rn_draws := k, rn_runs := rn_runs st @ [\<lparr>ke_id = i, ke_payload = ResourceClaimed e, ke_created_at = a\<rparr>]\<rparr>) t
     \<subseteq> insert e (held_claims st t)"
  by (auto simp: held_claims_def)

lemma renewal_keeps:
  assumes "exclusive_from st now" and "x \<in> held_claims st now" and "claim_key e = claim_key x"
    and "\<And>t. held_claims st' t \<subseteq> insert e (held_claims st t)"
  shows "exclusive_from st' now"
  unfolding exclusive_from_def
proof (intro allI impI)
  fix t c d assume t: "now \<le> t" "c \<in> held_claims st' t" "d \<in> held_claims st' t" "claims_clash c d"
  have old: "claim_key e = claim_key z" if "z \<in> held_claims st t" "claims_clash e z" for z
    using assms(1-3) that t(1) held_earlier [OF that(1) t(1)] claims_clash_key(1) [OF assms(3)]
    unfolding exclusive_from_def by (metis order_refl)
  have "c \<in> insert e (held_claims st t)" "d \<in> insert e (held_claims st t)" using t(2,3) assms(4) by blast+
  then show "claim_key c = claim_key d"
    using old t(1,4) assms(1) claims_clash_sym unfolding exclusive_from_def by (metis insertE)
qed

definition keeps :: "(run_store \<Rightarrow> bool) \<Rightarrow> 'a run_m \<Rightarrow> bool" where
  "keeps I m \<longleftrightarrow> (\<forall>st. I st \<longrightarrow> I (snd (m st)))"

lemma keeps_bind: "keeps I m \<Longrightarrow> (\<And>x. keeps I (f x)) \<Longrightarrow> keeps I (run_bind m f)"
  by (auto simp: keeps_def run_bind_state split: sum.splits)

lemma keeps_writes:
  "writes env A m \<Longrightarrow> (\<And>st st'. run_grows env A st st' \<Longrightarrow> I st \<Longrightarrow> I st') \<Longrightarrow> keeps I m"
  unfolding keeps_def writes_def by blast

lemma keeps_return: "keeps I (run_return x)"
  by (simp add: keeps_def run_return_def)

lemma keeps_map: "(\<And>x. x \<in> set xs \<Longrightarrow> keeps I (f x)) \<Longrightarrow> keeps I (run_map f xs)"
  by (induction xs) (auto intro!: keeps_bind simp: keeps_return)

lemma append_state:
  "snd (run_append env p st) = st\<lparr>rn_draws := Suc (rn_draws st)\<rparr> \<or>
   snd (run_append env p st) = st\<lparr>rn_draws := Suc (rn_draws st), rn_runs := rn_runs st @
      [\<lparr>ke_id = fst (rv_draw env (rn_draws st)), ke_payload = p, ke_created_at = snd (rv_draw env (rn_draws st))\<rparr>]\<rparr>"
  by (auto simp: run_append_def run_bind_def run_draw_def split: prod.splits)

lemma held_draws [simp]: "held_claims (st\<lparr>rn_draws := k\<rparr>) t = held_claims st t"
  "claims_in_view (st\<lparr>rn_draws := k\<rparr>) = claims_in_view st"
  "active_claims (st\<lparr>rn_draws := k\<rparr>) t = active_claims st t"
  "list_active_agent_run_resource_claims (st\<lparr>rn_draws := k\<rparr>) t = list_active_agent_run_resource_claims st t"
  by (simp_all add: held_claims_def claims_in_view_def active_claims_def list_active_agent_run_resource_claims_def
      list_agent_run_resource_claims_def list_agent_run_resource_releases_def list_by_type_def)

lemma exclusive_from_draws [simp]: "exclusive_from (st\<lparr>rn_draws := k\<rparr>) = exclusive_from st"
  by (rule ext) (simp add: exclusive_from_def)

lemma append_held:
  "held_claims (snd (run_append env (ResourceClaimed c) st)) t \<subseteq> insert c (held_claims st t)"
  using append_state [of env "ResourceClaimed c" st] by (auto simp: held_claims_def)

lemma active_result:
  "the_active_claims env st =
     (Inr (list_active_agent_run_resource_claims st (snd (rv_draw env (rn_draws st)))),
      st\<lparr>rn_draws := Suc (rn_draws st)\<rparr>)"
  by (cases "rv_draw env (rn_draws st)") (simp add: the_active_claims_def run_bind_def run_draw_def run_read_def)

text \<open>A new claim that clashes with no active one.\<close>

lemma claim_keeps:
  assumes "exclusive_from st now" and "set (active_claims st now) = held_claims st now"
    and "find (\<lambda>d. claim_key d = claim_key c) (list_active_agent_run_resource_claims st now) = None"
    and "find (claims_clash c) (list_active_agent_run_resource_claims st now) = None"
    and "\<And>t. held_claims st' t \<subseteq> insert c (held_claims st t)"
  shows "exclusive_from st' now"
  unfolding exclusive_from_def
proof (intro allI impI)
  fix t a b assume t: "now \<le> t" "a \<in> held_claims st' t" "b \<in> held_claims st' t" "claims_clash a b"
  have old: "\<not> claims_clash c d" if "d \<in> held_claims st t" for d
  proof -
    have "d \<in> set (active_claims st now)" using held_earlier [OF that t(1)] assms(2) by simp
    then obtain e where "e \<in> set (list_active_agent_run_resource_claims st now)" "claim_key e = claim_key d"
      using active_is_listed by blast
    then show ?thesis using assms(4) claims_clash_key(2) by (metis find_None_iff)
  qed
  have "a \<in> insert c (held_claims st t)" "b \<in> insert c (held_claims st t)" using t(2,3) assms(5) by blast+
  then show "claim_key a = claim_key b"
    using old t(1,4) assms(1) claims_clash_sym unfolding exclusive_from_def by (metis insertE)
qed

lemma exclusive_later:
  "clock_runs env \<Longrightarrow> claims_in_view st' \<longrightarrow> exclusive_from st' now \<Longrightarrow> now \<le> next_instant env st' \<Longrightarrow> exclusive env st'"
  using exclusive_from_later by (auto simp: exclusive_def)

lemma next_instant_le: "clock_runs env \<Longrightarrow> k \<le> rn_draws st \<Longrightarrow> snd (rv_draw env k) \<le> next_instant env st"
  by (simp add: clock_runs_def next_instant_def)

lemma keeps_claim_resource:
  assumes clock: "clock_runs env"
  shows "keeps (exclusive env) (claim_agent_run_resource env c)"
  unfolding claim_agent_run_resource_def
proof (rule keeps_bind)
  show "keeps (exclusive env) (require_open_run env (cl_run_id c))"
    by (rule keeps_writes [OF writes_reads(7)]) (rule exclusive_frame [OF clock])
next
  fix u
  let ?rest = "\<lambda>active. case find (\<lambda>d. claim_key d = claim_key c) active of Some d \<Rightarrow> run_return d
      | None \<Rightarrow> (case find (claims_clash c) active of
          Some d \<Rightarrow> run_fail (InvalidState (''resource `'' @ cl_resource_key c
                @ ''` is already claimed by '' @ (case cl_run_id d of
                    Some i \<Rightarrow> ''agent run '' @ ge_uuid_text (rv_goal env) i
                  | None \<Rightarrow> ''another tool invocation'')))
        | None \<Rightarrow> run_bind (run_append env (ResourceClaimed c)) (\<lambda>_. run_return c))"
  show "keeps (exclusive env) (run_bind (the_active_claims env) ?rest)"
    unfolding keeps_def
  proof (intro allI impI)
    fix st assume ex: "exclusive env st"
    let ?now = "snd (rv_draw env (rn_draws st))" let ?st1 = "st\<lparr>rn_draws := Suc (rn_draws st)\<rparr>"
    let ?active = "list_active_agent_run_resource_claims st ?now"
    have run: "snd (run_bind (the_active_claims env) ?rest st) = snd (?rest ?active ?st1)"
      by (simp add: run_bind_state active_result)
    have st1: "exclusive env ?st1"
      by (rule exclusive_frame [OF clock _ ex]) (simp add: run_grows_def)
    show "exclusive env (snd (run_bind (the_active_claims env) ?rest st))"
    proof (cases "find (\<lambda>d. claim_key d = claim_key c) ?active = None \<and> find (claims_clash c) ?active = None")
      case True
      let ?st2 = "snd (run_append env (ResourceClaimed c) ?st1)"
      have end_: "snd (?rest ?active ?st1) = ?st2"
        using True by (auto simp: run_bind_state run_return_def split: sum.splits)
      have g: "run_grows env (\<lambda>_. True) ?st1 ?st2" by (intro writesD writes_append) simp
      have "exclusive_from ?st2 ?now" if v: "claims_in_view ?st2"
      proof (rule claim_keeps [where c = c])
        have "claims_in_view ?st1" using claims_in_view_grows [OF g v] .
        then have v1: "claims_in_view st" by simp
        then show "exclusive_from st ?now" using ex by (simp add: exclusive_def next_instant_def)
        show "set (active_claims st ?now) = held_claims st ?now" by (rule listed_claims [OF v1])
        show "held_claims ?st2 t \<subseteq> insert c (held_claims st t)" for t using append_held [of env c ?st1 t] by simp
      qed (use True in auto)
      moreover have "?now \<le> next_instant env ?st2"
        by (rule next_instant_le [OF clock]) (use g in \<open>auto simp: run_grows_def\<close>)
      ultimately show ?thesis unfolding run end_ using exclusive_later [OF clock] by blast
    next
      case False
      then show ?thesis using st1 unfolding run
        by (auto simp: run_return_def run_fail_def split: option.splits)
    qed
  qed
qed

text \<open>Renewing one held claim.\<close>

definition renew_one :: "run_env \<Rightarrow> int \<Rightarrow> resource_claim \<Rightarrow> unit run_m" where
  "renew_one env l c =
     run_bind (run_draw env) (\<lambda>(i, now).
     run_bind (run_domain (resource_claim_new i now (cl_run_id c) (cl_tool_invocation_id c)
       (cl_resource_key c) (cl_access c) l)) (\<lambda>d. run_append env (ResourceClaimed d)))"

lemma renew_one_writes: "writes env is_resource_claim (renew_one env l c)"
  unfolding renew_one_def by (intro writes_rules) simp

lemma renew_one_held:
  assumes "trim (cl_resource_key x) = cl_resource_key x"
  obtains e where "claim_key e = claim_key x"
    "\<And>t. held_claims (snd (renew_one env l x st)) t \<subseteq> insert e (held_claims st t)"
proof -
  obtain i now where d: "rv_draw env (rn_draws st) = (i, now)" by fastforce
  let ?r = "resource_claim_new i now (cl_run_id x) (cl_tool_invocation_id x) (cl_resource_key x) (cl_access x) l"
  let ?st1 = "st\<lparr>rn_draws := Suc (rn_draws st)\<rparr>"
  have run: "snd (renew_one env l x st) =
      (case ?r of Inl _ \<Rightarrow> ?st1 | Inr e \<Rightarrow> snd (run_append env (ResourceClaimed e) ?st1))"
    by (simp add: renew_one_def run_bind_state run_draw_def d run_domain_def run_lift_def invalid_state_def
        split: sum.splits)
  show thesis
  proof (cases ?r)
    case (Inl m)
    then show ?thesis using that [of x] by (auto simp: run)
  next
    case (Inr e)
    then have "claim_key e = claim_key x"
      using resource_claim_new_Inr [OF Inr] assms by (simp add: claim_key_def)
    then show ?thesis using that [of e] append_held [of env e ?st1] by (simp add: run Inr)
  qed
qed

lemma held_grows:
  assumes "run_grows env is_resource_claim st st'" and "c \<in> held_claims st t"
  shows "c \<in> held_claims st' t"
  using assms(2) run_grows_payloads(1) [OF assms(1), of "ResourceClaimed c"]
    run_grows_payloads(2) [OF assms(1), of "ResourceReleased _"]
  by (fastforce simp: held_claims_def)

text \<open>
  The loop of a renewal: the claims it has still to renew are held at the instant of the read, and
  no two held ones clash at or after it.
\<close>

lemma renewals_keep:
  assumes "\<And>x. x \<in> set cs \<Longrightarrow> trim (cl_resource_key x) = cl_resource_key x"
  shows "keeps (\<lambda>s. claims_in_view s \<longrightarrow> set cs \<subseteq> held_claims s now \<and> exclusive_from s now)
    (run_map (renew_one env l) cs)"
proof (rule keeps_map, unfold keeps_def, intro allI impI)
  fix x s
  assume x: "x \<in> set cs" and s: "claims_in_view s \<longrightarrow> set cs \<subseteq> held_claims s now \<and> exclusive_from s now"
    and v: "claims_in_view (snd (renew_one env l x s))"
  have g: "run_grows env is_resource_claim s (snd (renew_one env l x s))" by (rule writesD [OF renew_one_writes])
  have s': "set cs \<subseteq> held_claims s now" "exclusive_from s now"
    using s claims_in_view_grows [OF g v] by auto
  obtain e where e: "claim_key e = claim_key x"
    "\<And>t. held_claims (snd (renew_one env l x s)) t \<subseteq> insert e (held_claims s t)"
    using renew_one_held [OF assms [OF x]] by blast
  show "set cs \<subseteq> held_claims (snd (renew_one env l x s)) now \<and> exclusive_from (snd (renew_one env l x s)) now"
    using held_grows [OF g] s'(1) renewal_keeps [OF s'(2) _ e] x by blast
qed

lemma renew_exclusive:
  assumes clock: "clock_runs env" and inv: "run_inv env st" and ex: "exclusive env st"
  shows "exclusive env (snd (renew_agent_run_resources_for_run env run l st))"
proof -
  let ?now = "snd (rv_draw env (rn_draws st))" let ?st1 = "st\<lparr>rn_draws := Suc (rn_draws st)\<rparr>"
  let ?cs = "filter (\<lambda>c. cl_run_id c = Some run) (list_active_agent_run_resource_claims st ?now)"
  let ?st2 = "snd (run_map (renew_one env l) ?cs ?st1)"
  have run: "snd (renew_agent_run_resources_for_run env run l st) = ?st2"
    by (simp add: renew_agent_run_resources_for_run_def run_bind_state active_result Let_def
        renew_one_def [abs_def] run_return_def split: sum.splits)
  have active: "x \<in> set (active_claims st ?now)" if "x \<in> set ?cs" for x using that listed_active by auto
  have key: "trim (cl_resource_key x) = cl_resource_key x" if "x \<in> set ?cs" for x
  proof -
    have "x \<in> set (list_agent_run_resource_claims st)" using active [OF that] by (simp add: active_claims_def)
    then obtain e where "e \<in> set (rn_runs st)" "ke_payload e = ResourceClaimed x"
      using list_by_type_in [of x 1000 is_resource_claim the_resource_claim st]
      by (auto simp: list_agent_run_resource_claims_def is_resource_claim_def)
    then show ?thesis using inv by (auto simp: run_inv_def)
  qed
  have pre: "claims_in_view ?st1 \<longrightarrow> set ?cs \<subseteq> held_claims ?st1 ?now \<and> exclusive_from ?st1 ?now"
    using active listed_claims [of st ?now] ex by (auto simp: exclusive_def next_instant_def)
  have "keeps (\<lambda>s. claims_in_view s \<longrightarrow> set ?cs \<subseteq> held_claims s ?now \<and> exclusive_from s ?now)
      (run_map (renew_one env l) ?cs)" by (rule renewals_keep [OF key])
  then have "claims_in_view ?st2 \<longrightarrow> exclusive_from ?st2 ?now" using pre unfolding keeps_def by blast
  moreover have "?now \<le> next_instant env ?st2"
  proof (rule next_instant_le [OF clock])
    have "writes env is_resource_claim (run_map (renew_one env l) ?cs)" by (intro writes_map renew_one_writes)
    from writesD [OF this, of ?st1] show "rn_draws st \<le> rn_draws ?st2" by (auto simp: run_grows_def)
  qed
  ultimately show ?thesis unfolding run using exclusive_later [OF clock] by blast
qed

definition ordinary :: "run_payload \<Rightarrow> bool" where
  "ordinary p \<longleftrightarrow> payload_ok p \<and> \<not> is_resource_claim p"

definition exclusive_inv :: "run_env \<Rightarrow> run_store \<Rightarrow> bool" where
  "exclusive_inv env st \<longleftrightarrow> run_inv env st \<and> exclusive env st"

lemma ordinary_keeps:
  "clock_runs env \<Longrightarrow> run_grows env ordinary st st' \<Longrightarrow> exclusive_inv env st \<Longrightarrow> exclusive_inv env st'"
  unfolding exclusive_inv_def ordinary_def using exclusive_frame run_grows_inv run_grows_weaken
  by (metis (mono_tags, lifting))

lemma keeps_ordinary: "clock_runs env \<Longrightarrow> writes env ordinary m \<Longrightarrow> keeps (exclusive_inv env) m"
  using ordinary_keeps unfolding keeps_def writes_def by blast

lemma keeps_heartbeat:
  assumes clock: "clock_runs env"
  shows "keeps (exclusive_inv env) (heartbeat_agent_run_lease env run w l)"
proof -
  have renew: "keeps (exclusive_inv env) (renew_agent_run_resources_for_run env run l)"
    unfolding keeps_def
  proof (intro allI impI)
    fix st assume st: "exclusive_inv env st"
    have "writes env payload_ok (renew_agent_run_resources_for_run env run l)" by (intro writes_rules) simp
    then show "exclusive_inv env (snd (renew_agent_run_resources_for_run env run l st))"
      using st renew_exclusive [OF clock] run_grows_inv writesD unfolding exclusive_inv_def by blast
  qed
  show ?thesis unfolding heartbeat_agent_run_lease_def Let_def
    by (intro keeps_bind renew keeps_ordinary [OF clock]) (auto simp: ordinary_def intro!: writes_rules)
qed

text \<open>Every step of a store whose clock never goes back keeps the exclusion.\<close>

lemma run_next_exclusive:
  assumes clock: "clock_runs env" and inv: "exclusive_inv env st" and step: "run_next env js st st'"
  shows "exclusive_inv env st'"
  using step
proof cases
  case (next_goal g)
  then have "exclusive env st'" using inv
    by (simp add: exclusive_inv_def exclusive_def claims_in_view_def exclusive_from_def held_claims_def next_instant_def)
  then show ?thesis using run_next_inv [OF _ step] inv by (simp add: exclusive_inv_def)
next
  case (next_start i now c p n s)
  then have "ordinary (RunStarted s)" by (auto simp: ordinary_def dest: start_new_Inr start_queued_Inr)
  then show ?thesis using ordinary_keeps [OF clock _ inv] next_start(1) by (simp add: writesD writes_rules)
next
  case (next_child i now parent c key p s contract)
  then have "ordinary (RunStarted s)" by (auto simp: ordinary_def dest: queued_subagent_Inr queued_expert_Inr)
  then show ?thesis using ordinary_keeps [OF clock _ inv] next_child(1) by (simp add: writesD writes_rules)
next
  case (next_transition i now run s reason v t)
  then have "ordinary (RunTransitioned t)" using transition_new_Inr [OF next_transition(2)] by (auto simp: ordinary_def)
  then show ?thesis using ordinary_keeps [OF clock _ inv] next_transition(1) by (simp add: writesD writes_rules)
next
  case (next_heartbeat run w l)
  then show ?thesis using keeps_heartbeat [OF clock] inv by (simp add: keeps_def)
next
  case (next_resource i now owner v key access l rc)
  then show ?thesis using keeps_claim_resource [OF clock] run_next_inv [OF _ step] inv
    by (simp add: keeps_def exclusive_inv_def)
qed (simp only:, rule ordinary_keeps [OF clock _ inv], rule writesD, (rule writes_rules; simp add: ordinary_def))+

interpretation exclusion: transition_system "\<lambda>st st'. clock_runs env \<and> run_next env js st st'" "exclusive_inv env" for env js
  by unfold_locales (blast intro: run_next_exclusive)

lemma reachable_exclusive:
  assumes "run_initial st0" and "(run_next env js)\<^sup>*\<^sup>* st0 st" and "clock_runs env"
  shows "exclusive env st"
proof -
  have "exclusive_inv env st0" using run_initial_inv [OF assms(1)] assms(1)
    by (simp add: run_initial_def exclusive_inv_def exclusive_def exclusive_from_def held_claims_def)
  moreover have "(\<lambda>st st'. clock_runs env \<and> run_next env js st st')\<^sup>*\<^sup>* st0 st" using assms(2,3) by simp
  ultimately show ?thesis using exclusion.run_inv unfolding exclusive_inv_def by blast
qed

text \<open>
  C4: Writers exclude each other. In every store the operations reach while the clock does not go
  back, and as long as at most 1000 claims and 1000 releases have been recorded, two held claims on
  one resource of which one writes are the same claim: the same tool invocation with the same
  access. Claims, releases, renewals by heartbeats and every other operation may interleave.
\<close>

theorem writers_are_exclusive:
  assumes "run_initial st0" and "(run_next env js)\<^sup>*\<^sup>* st0 st" and "clock_runs env" and "claims_in_view st"
    and "snd (rv_draw env (rn_draws st)) \<le> now" and "c \<in> held_claims st now" and "d \<in> held_claims st now"
    and "cl_resource_key c = cl_resource_key d" and "cl_access c = ClaimWrite \<or> cl_access d = ClaimWrite"
  shows "claim_key c = claim_key d"
proof -
  have "exclusive_from st (next_instant env st)"
    using reachable_exclusive [OF assms(1-3)] assms(4) by (simp add: exclusive_def)
  moreover have "claims_clash c d" using assms(8,9) by (simp add: claims_clash_def)
  ultimately show ?thesis using assms(5-7) unfolding exclusive_from_def next_instant_def by blast
qed

section \<open>A concrete store\<close>

definition demo_run_env :: run_env where
  "demo_run_env =
     \<lparr>rv_goal = demo_goal_env, rv_loop = demo_loop_json, rv_sha = (\<lambda>x. x), rv_rfc3339 = (\<lambda>_. ''t''),
      rv_artifact_json = (\<lambda>_ _ _ _. ''a''), rv_source_json = (\<lambda>_ _ _ _. ''s''), rv_simple_uuid = (\<lambda>_. ''u''),
      rv_authorizations = (\<lambda>_ _. Inr []), rv_draw = (\<lambda>n. (10 + n, 10 + int n))\<rparr>"

definition demo_run_start :: run_store where
  "demo_run_start = \<lparr>rn_goals = demo_start, rn_checkpoints = [], rn_runs = [], rn_draws = 0\<rparr>"

definition demo_parent :: run_start where
  "demo_parent =
     \<lparr>rs_id = 7, rs_conversation_id = ''c'', rs_prompt = ''go'', rs_attachment_count = 0, rs_role = ParentRun,
      rs_parent_run_id = None, rs_subtask_key = None, rs_expert_contract = None, rs_initial_status = Running,
      rs_started_at = 1\<rparr>"

definition demo_claimed :: resource_claim where
  "demo_claimed =
     \<lparr>cl_id = 1, cl_run_id = Some 7, cl_tool_invocation_id = 5, cl_resource_key = ''f'', cl_access = ClaimWrite,
      cl_claimed_at = 5, cl_lease_expires_at = 100000000005\<rparr>"

definition demo_leased :: run_store where
  "demo_leased =
     snd (append_agent_run_claim demo_run_env \<lparr>rc_id = 2, rc_run_id = 7, rc_worker_id = ''w'', rc_claimed_at = 9,
        rc_lease_expires_at = 109\<rparr> (snd (append_agent_run_start demo_run_env demo_parent demo_run_start)))"

definition demo_held :: run_store where
  "demo_held =
     snd (heartbeat_agent_run_lease demo_run_env 7 ''w'' 100 (snd (claim_agent_run_resource demo_run_env demo_claimed demo_leased)))"

lemma demo_leased_log:
  "map ke_payload (rn_runs demo_leased) = [RunStarted demo_parent, RunClaimed \<lparr>rc_id = 2, rc_run_id = 7, rc_worker_id = ''w'',
      rc_claimed_at = 9, rc_lease_expires_at = 109\<rparr>]"
  by code_simp

definition demo_renewed :: resource_claim where
  "demo_renewed = demo_claimed\<lparr>cl_id := 17, cl_claimed_at := 17, cl_lease_expires_at := 100000000017\<rparr>"

lemma demo_held_value:
  "(\<lambda>st. (filter is_resource_claim (map ke_payload (rn_runs st)), filter is_resource_release (map ke_payload (rn_runs st)),
      rn_draws st)) demo_held = ([ResourceClaimed demo_claimed, ResourceClaimed demo_renewed], [], 9)"
  by code_simp

lemma demo_held_log:
  "filter is_resource_claim (map ke_payload (rn_runs demo_held)) = [ResourceClaimed demo_claimed, ResourceClaimed demo_renewed]"
  "filter is_resource_release (map ke_payload (rn_runs demo_held)) = []" "rn_draws demo_held = 9"
  using demo_held_value by simp_all

lemma demo_clock: "clock_runs demo_run_env"
  by (simp add: clock_runs_def demo_run_env_def)

lemma demo_run_initial: "run_initial demo_run_start"
  using demo_run_steps(1) by (simp add: run_initial_def demo_run_start_def)

lemma demo_started_step:
  "run_next demo_run_env demo_goal_json demo_run_start (snd (append_agent_run_start demo_run_env demo_parent demo_run_start))"
proof (rule next_start [where n = 0])
  show "start_new 7 1 ''c'' ''go'' 0 = Inr demo_parent \<or> start_queued 7 1 ''c'' ''go'' 0 = Inr demo_parent"
    by (simp add: start_new_def demo_parent_def required_text_def text_eval)
qed

lemma demo_held_reachable: "(run_next demo_run_env demo_goal_json)\<^sup>*\<^sup>* demo_run_start demo_held"
proof -
  let ?step = "run_next demo_run_env demo_goal_json"
  have "?step (snd (append_agent_run_start demo_run_env demo_parent demo_run_start)) demo_leased"
    unfolding demo_leased_def by (rule next_claim)
  moreover have "resource_claim_new 1 5 (Some 7) 5 ''f'' ClaimWrite 100 = Inr demo_claimed"
    by (simp add: resource_claim_new_def demo_claimed_def required_text_def text_eval seconds_def)
  then have "?step demo_leased (snd (claim_agent_run_resource demo_run_env demo_claimed demo_leased))"
    by (rule next_resource)
  moreover have "?step (snd (claim_agent_run_resource demo_run_env demo_claimed demo_leased)) demo_held"
    unfolding demo_held_def by (rule next_heartbeat)
  ultimately show ?thesis using demo_started_step by (meson rtranclp.intros)
qed

lemma filter_payloads: "set (filter P (map ke_payload es)) = {p \<in> ke_payload ` set es. P p}"
  by auto

lemma count_payloads: "length (filter (\<lambda>e. P (ke_payload e)) es) = length (filter P (map ke_payload es))"
  by (simp add: filter_map comp_def)

theorem writers_are_exclusive_witness:
  "demo_claimed \<in> held_claims demo_held 30 \<and> demo_renewed \<in> held_claims demo_held 30 \<and>
   demo_claimed \<noteq> demo_renewed \<and> claim_key demo_claimed = claim_key demo_renewed"
proof -
  have claims: "{p \<in> run_payloads demo_held. is_resource_claim p} = {ResourceClaimed demo_claimed, ResourceClaimed demo_renewed}"
    using filter_payloads [of is_resource_claim "rn_runs demo_held"] demo_held_log(1) by simp
  have releases: "{p \<in> run_payloads demo_held. is_resource_release p} = {}"
    using filter_payloads [of is_resource_release "rn_runs demo_held"] demo_held_log(2) by simp
  have "ResourceClaimed demo_claimed \<in> run_payloads demo_held" "ResourceClaimed demo_renewed \<in> run_payloads demo_held"
    using claims by blast+
  moreover have "ResourceReleased l \<notin> run_payloads demo_held" for l
    using releases by (metis (mono_tags, lifting) empty_iff mem_Collect_eq run_payload.disc(181))
  ultimately have held: "demo_claimed \<in> held_claims demo_held 30" "demo_renewed \<in> held_claims demo_held 30"
    by (auto simp: held_claims_def demo_claimed_def demo_renewed_def)
  have "claims_in_view demo_held"
    by (simp add: claims_in_view_def count_payloads demo_held_log)
  then have "claim_key demo_claimed = claim_key demo_renewed"
    by (rule writers_are_exclusive [OF demo_run_initial demo_held_reachable demo_clock _ _ held])
      (simp_all add: demo_held_log(3) demo_run_env_def demo_claimed_def demo_renewed_def)
  then show ?thesis using held by (simp add: demo_claimed_def demo_renewed_def)
qed

text \<open>Two runs with expired leases; the first has a tool whose outcome is open.\<close>

definition demo_event :: "uuid \<Rightarrow> run_payload \<Rightarrow> run_event" where
  "demo_event i p = \<lparr>ke_id = i, ke_payload = p, ke_created_at = int i\<rparr>"

definition demo_lease :: "uuid \<Rightarrow> run_claim" where
  "demo_lease i = \<lparr>rc_id = 2, rc_run_id = i, rc_worker_id = ''w'', rc_claimed_at = 9, rc_lease_expires_at = 109\<rparr>"

definition demo_crashed :: run_store where
  "demo_crashed =
     \<lparr>rn_goals = demo_start\<lparr>gs_exec := (gs_exec demo_start)\<lparr>xs_tools := [\<lparr>tr_invocation = demo_run_tool ToolRunning,
            tr_revision = 0, tr_created_at = 1, tr_updated_at = 1\<rparr>]\<rparr>\<rparr>,
      rn_checkpoints = [],
      rn_runs = [demo_event 1 (RunStarted demo_parent), demo_event 2 (RunStarted (demo_parent\<lparr>rs_id := 8\<rparr>)),
        demo_event 3 (RunClaimed (demo_lease 7)), demo_event 4 (RunClaimed (demo_lease 8))],
      rn_draws = 0\<rparr>"

lemma demo_sweep:
  "map (\<lambda>p. ry_run_id (the_recovery p)) (filter is_recovered (map ke_payload
      (drop (length (rn_runs demo_crashed)) (rn_runs (snd (recover_expired_agent_runs demo_run_env 200 demo_crashed)))))) = [8]"
  by code_simp

lemma demo_sweep_ok: "case fst (recover_expired_agent_runs demo_run_env 200 demo_crashed) of Inl e \<Rightarrow> False | Inr s \<Rightarrow> True"
  by code_simp

lemma demo_crashed_records:
  "case list_agent_run_records demo_run_env demo_crashed of Inl e \<Rightarrow> False
   | Inr rs \<Rightarrow> list_ex (\<lambda>r. rec_id r = 7 \<and> rec_status r = Running \<and> \<not> rec_cancel_requested r \<and>
       rec_lease_expires_at r = Some 109) rs"
  by code_simp

lemma demo_crashed_tools: "list_tool_invocations (gs_exec (rn_goals demo_crashed)) = [demo_run_tool ToolRunning]"
  by (simp add: demo_crashed_def list_tool_invocations_def newest_first_def)

theorem recovery_never_replays_witness:
  "may_replay demo_run_env demo_crashed 200 8 \<and> \<not> may_replay demo_run_env demo_crashed 200 7 \<and>
   (\<exists>t. RunTransitioned t \<in> new_payloads demo_crashed (snd (recover_expired_agent_runs demo_run_env 200 demo_crashed)) \<and>
      rt_run_id t = 7 \<and> rt_status t = Blocked \<and> rt_tool_invocation_id t = Some 5)"
proof -
  let ?st' = "snd (recover_expired_agent_runs demo_run_env 200 demo_crashed)"
  let ?new = "map ke_payload (drop (length (rn_runs demo_crashed)) (rn_runs ?st'))"
  have chosen: "x \<in> set (map f (filter P ps)) \<Longrightarrow> \<exists>p \<in> set ps. P p \<and> f p = x" for x :: uuid and f P and ps :: "run_payload list"
    by auto
  have "8 \<in> set (map (\<lambda>p. ry_run_id (the_recovery p)) (filter is_recovered ?new))" by (simp only: demo_sweep) simp
  then obtain p where p: "p \<in> set ?new" "is_recovered p" "ry_run_id (the_recovery p) = 8"
    using chosen by blast
  then have "RunRecovered (the_recovery p) \<in> new_payloads demo_crashed ?st'"
    unfolding new_payloads_def set_map by (cases p) simp_all
  then have "may_replay demo_run_env demo_crashed 200 8"
    using recovery_never_replays [of demo_crashed demo_run_env 200] p(3) by metis
  moreover have "\<not> may_replay demo_run_env demo_crashed 200 7"
    by (simp add: may_replay_def demo_crashed_tools demo_run_tool_fields)
  moreover have "\<exists>t. RunTransitioned t \<in> new_payloads demo_crashed ?st' \<and> rt_run_id t = 7 \<and> rt_status t = Blocked
      \<and> rt_tool_invocation_id t = Some 5"
  proof -
    obtain rs r where r: "list_agent_run_records demo_run_env demo_crashed = Inr rs" "r \<in> set rs" "rec_id r = 7"
      "rec_status r = Running" "\<not> rec_cancel_requested r" "rec_lease_expires_at r = Some 109"
      using demo_crashed_records by (auto simp: list_ex_iff split: sum.splits)
    obtain sweep where ok: "fst (recover_expired_agent_runs demo_run_env 200 demo_crashed) = Inr sweep"
      using demo_sweep_ok by (auto split: sum.splits)
    let ?v = "demo_run_tool ToolRunning"
    have "\<exists>t w. RunTransitioned t \<in> new_payloads demo_crashed ?st' \<and> rt_run_id t = rec_id r \<and> rt_status t = Blocked \<and>
        rt_tool_invocation_id t = Some (ti_id w) \<and>
        w \<in> set (list_tool_invocations (gs_exec (rn_goals demo_crashed))) \<and> ti_status w = ToolRunning"
      using recovery_never_replays [of demo_crashed demo_run_env 200, THEN conjunct2, rule_format, of rs r 109 ?v sweep] r ok
      by (simp add: demo_crashed_tools demo_run_tool_fields)
    then show ?thesis using r(3) by (auto simp: demo_crashed_tools demo_run_tool_fields)
  qed
  ultimately show ?thesis by blast
qed

text \<open>A run with a goal that its recorded evidence completes, finished with the receipt.\<close>

definition demo_finish :: "completion_receipt \<Rightarrow> run_finish" where
  "demo_finish receipt =
     \<lparr>rf_id = 3, rf_run_id = 7, rf_status = Completed, rf_summary = None, rf_error = None,
      rf_goal_completion_receipt = Some receipt, rf_finished_at = 50\<rparr>"

definition demo_working :: run_store where
  "demo_working = (snd (append_agent_run_start demo_run_env demo_parent demo_run_start))\<lparr>rn_goals := demo_done\<rparr>"

definition demo_finished :: "completion_receipt \<Rightarrow> run_store" where
  "demo_finished receipt = snd (append_agent_run_finish demo_run_env (demo_finish receipt) demo_working)"

lemma demo_working_parts:
  "rn_goals demo_working = demo_done" "rn_draws demo_working = 1"
  "rn_runs demo_working = [\<lparr>ke_id = 10, ke_payload = RunStarted demo_parent, ke_created_at = 10\<rparr>]"
proof -
  have "event_ids (demo_run_start\<lparr>rn_draws := n\<rparr>) = {}" for n
    by (simp add: event_ids_def demo_run_start_def demo_start_def blank_def)
  note fresh = this [unfolded demo_run_start_def, simplified]
  then show "rn_goals demo_working = demo_done" "rn_draws demo_working = 1"
    "rn_runs demo_working = [\<lparr>ke_id = 10, ke_payload = RunStarted demo_parent, ke_created_at = 10\<rparr>]"
    by (simp_all add: demo_working_def append_agent_run_start_def run_bind_def run_read_def run_lift_def run_return_def
        run_append_def run_draw_def list_agent_run_starts_def list_by_type_def newest_first_def demo_run_env_def
        demo_run_start_def demo_parent_def fresh)
qed

lemma demo_goals_reached: "(run_next demo_run_env demo_goal_json)\<^sup>*\<^sup>* demo_run_start demo_working"
proof -
  have lift: "(goal_next demo_goal_env demo_goal_json)\<^sup>*\<^sup>* g g' \<Longrightarrow> rn_goals st = g \<Longrightarrow>
      (run_next demo_run_env demo_goal_json)\<^sup>*\<^sup>* st (st\<lparr>rn_goals := g'\<rparr>)" for g g' st
  proof (induction rule: rtranclp_induct)
    case (step y z)
    have "run_next demo_run_env demo_goal_json (st\<lparr>rn_goals := y\<rparr>) (st\<lparr>rn_goals := y\<rparr>\<lparr>rn_goals := z\<rparr>)"
      by (rule next_goal) (use step.hyps(2) in \<open>simp add: demo_run_env_def\<close>)
    then show ?case using step by (auto intro: rtranclp.rtrancl_into_rtrancl)
  qed auto
  let ?st = "snd (append_agent_run_start demo_run_env demo_parent demo_run_start)"
  have "rn_goals ?st = demo_start"
    using writesD [OF writes_start, of "\<lambda>_. True" demo_parent demo_run_env demo_run_start]
    by (simp add: run_grows_def demo_run_start_def)
  from lift [OF demo_run_steps(4) this] show ?thesis
    unfolding demo_working_def using demo_started_step by (rule converse_rtranclp_into_rtranclp [rotated])
qed

theorem completed_run_is_verified_witness:
  "\<exists>receipt rs r v. list_agent_run_records demo_run_env (demo_finished receipt) = Inr rs \<and> r \<in> set rs \<and>
     rec_id r = 7 \<and> rec_status r = Completed \<and>
     ToolRecorded v \<in> ke_payload ` set (xs_events (gs_exec (rn_goals (demo_finished receipt)))) \<and>
     ti_run_id v = Some 7 \<and> ti_status v = ToolSucceeded"
proof (rule demo_classified)
  fix receipt
  assume cl: "\<And>blocker. classify_agent_run_completion_from_connection demo_goal_env blocker demo_done 7
      = Inr (ExactComplete receipt)"
    and g: "goal_envelope_projection demo_goal_env demo_done 7 = Inr (Some demo_frozen_goal)"
    and ids: "\<forall>e \<in> set (xs_events (gs_exec demo_done)). 100 \<le> ke_id e"
  let ?st = "demo_finished receipt"
  have c: "classify_run demo_run_env st 7 = Inr (ExactComplete receipt)" if "rn_goals st = demo_done" for st
    using cl that by (simp add: classify_run_def demo_run_env_def)
  have fresh: "11 \<notin> event_ids demo_working" using ids by (auto simp: event_ids_def demo_working_parts)
  have log: "rn_runs ?st = rn_runs demo_working @ [\<lparr>ke_id = 11, ke_payload = RunFinished (demo_finish receipt), ke_created_at = 11\<rparr>]"
    and goals: "rn_goals ?st = demo_done"
    using fresh c [of demo_working]
    by (simp_all add: demo_finished_def append_agent_run_finish_def finish_validate_def demo_finish_def run_domain_def
        run_lift_def invalid_state_def ensure_agent_run_exists_def run_bind_def run_read_def run_require_def run_return_def
        run_append_def run_draw_def list_agent_run_starts_def list_by_type_def newest_first_def demo_working_parts
        demo_parent_def event_ids_def demo_run_env_def)
  have reach: "(run_next demo_run_env demo_goal_json)\<^sup>*\<^sup>* demo_run_start ?st"
    unfolding demo_finished_def by (rule rtranclp.rtrancl_into_rtrancl [OF demo_goals_reached next_finish])
  have lists: "list_agent_run_starts ?st = [demo_parent]" "list_agent_run_finishes ?st = [demo_finish receipt]"
    "list_agent_run_cancel_requests ?st = []"
    by (simp_all add: list_agent_run_starts_def list_agent_run_finishes_def list_agent_run_cancel_requests_def
        list_by_type_def newest_first_def log demo_working_parts)
  define h where "h = history_of ?st 7"
  have h: "rh_finish h = Some (demo_finish receipt)" "rh_cancel h = None"
    by (simp_all add: h_def history_of_def lists latest_by_def latest_step_def demo_finish_def)
  have "agent_run_finish_restart_block_reason demo_run_env ?st (demo_finish receipt) = Inr None"
    using c [OF goals] by (simp add: agent_run_finish_restart_block_reason_def demo_finish_def Let_def)
  then have rs: "list_agent_run_records demo_run_env ?st = Inr [record_from demo_parent h None]"
    using h by (simp add: list_agent_run_records_def lists h_def demo_parent_def)
  have st: "rec_status (record_from demo_parent h None) = Completed"
    using h by (simp add: record_from_def Let_def demo_finish_def)
  have id: "rec_id (record_from demo_parent h None) = 7" by (simp add: demo_parent_def)
  have proj: "goal_envelope_projection (rv_goal demo_run_env) (rn_goals ?st) (rec_id (record_from demo_parent h None))
      = Inr (Some demo_frozen_goal)" using g by (simp only: goals id) (simp add: demo_run_env_def)
  have "\<exists>g. gj_state demo_frozen_goal = GoalFrozen g \<and> (\<forall>w \<in> set (ve_verifiers (fe_envelope g)). \<exists>v.
          ToolRecorded v \<in> ke_payload ` set (xs_events (gs_exec demo_done)) \<and>
          ti_run_id v = Some 7 \<and> ti_status v = ToolSucceeded)"
    using completed_run_is_verified [OF demo_run_initial reach rs _ st] unfolding proj by (auto simp: goals demo_parent_def) blast
  moreover have "ve_verifiers (fe_envelope demo_frozen) \<noteq> []"
    by (simp add: demo_frozen_parts demo_proposal_def)
  ultimately obtain v where "ToolRecorded v \<in> ke_payload ` set (xs_events (gs_exec demo_done))"
    "ti_run_id v = Some 7" "ti_status v = ToolSucceeded" by (fastforce simp: demo_frozen_goal_def neq_Nil_conv)
  then show ?thesis using rs st id goals by (intro exI [of _ receipt] exI [of _ "[record_from demo_parent h None]"]
    exI [of _ "record_from demo_parent h None"] exI [of _ v]) simp
qed

end
