(* ===== verification/Run_Teams.thy ===== *)
theory Run_Teams
  imports Run_Store_Safety
begin

text \<open>
  Delegation and the merging of results: the starts a store holds form a forest of height one with
  bounded families, and what is merged was produced and reviewed as recorded.
\<close>

section \<open>Starts in the log\<close>

definition started :: "run_store \<Rightarrow> run_start list" where
  "started st = map (\<lambda>e. the_start (ke_payload e)) (filter (\<lambda>e. is_started (ke_payload e)) (rn_runs st))"

definition starts_in_view :: "run_store \<Rightarrow> bool" where
  "starts_in_view st \<longleftrightarrow> length (started st) \<le> 500"

lemma started_draws [simp]: "started (st\<lparr>rn_draws := k\<rparr>) = started st"
  by (simp add: started_def)

lemma started_append:
  "rn_runs st' = rn_runs st @ [\<lparr>ke_id = i, ke_payload = RunStarted s, ke_created_at = a\<rparr>] \<Longrightarrow> started st' = started st @ [s]"
  by (simp add: started_def)

lemma started_payload: "s \<in> set (started st) \<longleftrightarrow> RunStarted s \<in> run_payloads st"
proof
  assume "s \<in> set (started st)"
  then show "RunStarted s \<in> run_payloads st" by (force simp: started_def is_started_def)
next
  assume "RunStarted s \<in> run_payloads st"
  then obtain e where "e \<in> set (rn_runs st)" "ke_payload e = RunStarted s" by force
  then show "s \<in> set (started st)" by (auto simp: started_def intro!: image_eqI [of _ _ e])
qed

lemma started_grows: "run_grows env A st st' \<Longrightarrow> \<exists>ss. started st' = started st @ ss"
  by (auto simp: run_grows_def started_def)

lemma started_frame: "run_grows env (\<lambda>p. \<not> is_started p) st st' \<Longrightarrow> started st' = started st"
  by (auto simp: run_grows_def started_def filter_empty_conv)

lemma starts_in_view_grows: "run_grows env A st st' \<Longrightarrow> starts_in_view st' \<Longrightarrow> starts_in_view st"
  using started_grows [of env A st st'] by (auto simp: starts_in_view_def)

text \<open>Within the limit the list of starts is the log's, in another order.\<close>

lemma listed_starts:
  assumes "starts_in_view st"
  shows "mset (list_agent_run_starts st) = mset (started st)"
proof -
  let ?l = "newest_first ke_created_at (rev (filter (\<lambda>e. is_started (ke_payload e)) (rn_runs st)))"
  have "length ?l \<le> 500" using assms by (simp add: newest_first_def starts_in_view_def started_def)
  then have "mset (list_agent_run_starts st) = image_mset (\<lambda>e. the_start (ke_payload e)) (mset ?l)"
    by (simp add: list_agent_run_starts_def list_by_type_def)
  then show ?thesis by (simp add: newest_first_def started_def)
qed

lemma listed_starts_set: "starts_in_view st \<Longrightarrow> set (list_agent_run_starts st) = set (started st)"
  using listed_starts by (metis set_mset_mset)

lemma listed_child_count: "starts_in_view st \<Longrightarrow> child_count (list_agent_run_starts st) i = child_count (started st) i"
  using listed_starts [of st] unfolding child_count_def by (metis mset_filter size_mset)

section \<open>Delegation\<close>

definition plain_count :: "run_start list \<Rightarrow> uuid \<Rightarrow> nat" where
  "plain_count ss i = length (filter (\<lambda>s. rs_parent_run_id s = Some i \<and> rs_expert_contract s = None) ss)"

text \<open>A start is a parent without linkage, or the child of a parent in its conversation.\<close>

definition placed :: "run_start set \<Rightarrow> run_start \<Rightarrow> bool" where
  "placed S s \<longleftrightarrow>
     (rs_role s = ParentRun \<and> rs_parent_run_id s = None) \<or>
     (rs_role s = SubagentRun \<and> (\<exists>p \<in> S. rs_parent_run_id s = Some (rs_id p) \<and> rs_role p = ParentRun \<and>
        rs_parent_run_id p = None \<and> rs_conversation_id p = rs_conversation_id s))"

definition delegation_ok :: "run_start list \<Rightarrow> bool" where
  "delegation_ok ss \<longleftrightarrow>
     (\<forall>s \<in> set ss. placed (set ss) s) \<and> (\<forall>i. child_count ss i \<le> 8) \<and> (\<forall>i. plain_count ss i \<le> 3)"

definition delegated :: "run_store \<Rightarrow> bool" where
  "delegated st \<longleftrightarrow> (starts_in_view st \<longrightarrow> delegation_ok (started st))"

lemma placed_mono: "placed S s \<Longrightarrow> S \<subseteq> T \<Longrightarrow> placed T s"
  unfolding placed_def by blast

lemma plain_le_child: "plain_count ss i \<le> child_count ss i"
  by (induction ss) (auto simp: plain_count_def child_count_def)

lemma delegation_snoc:
  assumes "delegation_ok ss" and "placed (set ss) s"
    and "\<And>i. rs_parent_run_id s = Some i \<Longrightarrow> child_count ss i < (if rs_expert_contract s = None then 3 else 8)"
  shows "delegation_ok (ss @ [s])"
proof -
  have "placed (set (ss @ [s])) x" if "x \<in> set (ss @ [s])" for x
    using that assms(1,2) placed_mono [of "set ss" x "set (ss @ [s])"]
    by (auto simp: delegation_ok_def)
  moreover have "child_count (ss @ [s]) i \<le> 8" for i
    using assms(1) assms(3) [of i] by (auto simp: delegation_ok_def child_count_def split: if_splits)
  moreover have "plain_count (ss @ [s]) i \<le> 3" for i
  proof (cases "rs_parent_run_id s = Some i \<and> rs_expert_contract s = None")
    case True
    then have "plain_count ss i < 3" using assms(3) [of i] plain_le_child [of ss i] by simp
    then show ?thesis using True by (simp add: plain_count_def)
  next
    case False
    then show ?thesis using assms(1) by (auto simp: delegation_ok_def plain_count_def)
  qed
  ultimately show ?thesis by (simp add: delegation_ok_def)
qed

lemma linkage_places:
  assumes "subagent_linkage env starts s = Inr ()" and "rs_role s = SubagentRun"
  shows "placed (set starts) s \<and>
    (\<forall>i. rs_parent_run_id s = Some i \<longrightarrow> child_count starts i < (if rs_expert_contract s = None then 3 else 8))"
proof -
  obtain i where i: "rs_parent_run_id s = Some i"
    using assms(1) by (auto simp: subagent_linkage_def bind_res_Inr_iff ok_or_Inr_iff)
  obtain p where p: "find (\<lambda>r. rs_id r = i) starts = Some p"
    using assms(1) i by (auto simp: subagent_linkage_def bind_res_Inr_iff ok_or_Inr_iff)
  have c: "rs_role p = ParentRun" "rs_parent_run_id p = None" "rs_conversation_id p = rs_conversation_id s"
    "child_count starts i < (if rs_expert_contract s \<noteq> None then EXPERT_TEAM_MAX_TOTAL_ATTEMPTS
       else AGENT_RUN_MAX_PARALLEL_SUBAGENTS)"
    using assms(1) i p
    by (simp_all add: subagent_linkage_def bind_res_Inr_iff ok_or_Inr_iff Let_def not_le split: if_splits)
  have "p \<in> set starts" "rs_id p = i" using p by (auto simp: find_Some_iff)
  then show ?thesis using i c assms(2)
    by (auto simp: placed_def EXPERT_TEAM_MAX_TOTAL_ATTEMPTS_def AGENT_RUN_MAX_PARALLEL_SUBAGENTS_def)
qed

lemma delegated_frame: "run_grows env (\<lambda>p. \<not> is_started p) st st' \<Longrightarrow> delegated st \<Longrightarrow> delegated st'"
  by (simp add: delegated_def started_frame starts_in_view_def)

lemma append_started:
  "started (snd (run_append env (RunStarted s) st)) = started st \<or>
   started (snd (run_append env (RunStarted s) st)) = started st @ [s]"
  using append_state [of env "RunStarted s" st] started_append [of _ "st" _ s]
  by (auto simp: started_def)

lemma keeps_start: "keeps delegated (append_agent_run_start env s)"
  unfolding keeps_def
proof (intro allI impI)
  fix st assume d: "delegated st"
  let ?starts = "list_agent_run_starts st"
  let ?check = "if rs_role s = SubagentRun then subagent_linkage env ?starts s
            else if rs_parent_run_id s \<noteq> None \<or> rs_subtask_key s \<noteq> None
            then Inl (InvalidState ''parent run cannot carry subagent linkage'') else Inr ()"
  show "delegated (snd (append_agent_run_start env s st))"
  proof (cases "(\<exists>r \<in> set ?starts. rs_id r = rs_id s) \<or> (\<exists>e. ?check = Inl e)")
    case True
    then have "snd (append_agent_run_start env s st) = st"
      by (auto simp: append_agent_run_start_def run_bind_state run_read_def run_lift_def run_return_def)
    then show ?thesis using d by simp
  next
    case False
    then have ok: "?check = Inr ()" by (cases ?check) auto
    let ?st' = "snd (run_append env (RunStarted s) st)"
    have run: "snd (append_agent_run_start env s st) = ?st'"
      using False ok
      by (auto simp: append_agent_run_start_def run_bind_state run_read_def run_lift_def run_return_def split: sum.splits)
    show ?thesis
    proof (cases "started ?st' = started st @ [s]")
      case True
      have "delegation_ok (started ?st')" if v: "starts_in_view ?st'"
      proof -
        have v0: "starts_in_view st" using v True by (simp add: starts_in_view_def)
        have "placed (set (started st)) s \<and> (\<forall>i. rs_parent_run_id s = Some i \<longrightarrow>
            child_count (started st) i < (if rs_expert_contract s = None then 3 else 8))"
        proof (cases "rs_role s = SubagentRun")
          case True
          then show ?thesis using linkage_places [of env ?starts s] ok listed_starts_set [OF v0] listed_child_count [OF v0]
            by simp
        next
          case False
          then have "rs_role s = ParentRun" "rs_parent_run_id s = None"
            using ok by (cases "rs_role s"; auto split: if_splits)+
          then show ?thesis by (simp add: placed_def)
        qed
        then show ?thesis unfolding True using delegation_snoc d v0 by (simp add: delegated_def)
      qed
      then show ?thesis unfolding run by (simp add: delegated_def)
    next
      case False
      then have "started ?st' = started st" using append_started by blast
      then show ?thesis using d unfolding run by (simp add: delegated_def starts_in_view_def)
    qed
  qed
qed

lemma keeps_delegated_quiet: "writes env (\<lambda>p. \<not> is_started p) m \<Longrightarrow> keeps delegated m"
  by (rule keeps_writes) (auto intro: delegated_frame)

lemma keeps_if: "keeps I m \<Longrightarrow> keeps I n \<Longrightarrow> keeps I (if c then m else n)"
  by simp

lemma keeps_split: "(\<And>a b. keeps I (f a b)) \<Longrightarrow> keeps I (case p of (a, b) \<Rightarrow> f a b)"
  by (cases p) simp

lemma keeps_retry: "keeps delegated (append_expert_retry env parent key)"
  unfolding append_expert_retry_def Let_def
  by (intro keeps_bind keeps_split keeps_if keeps_start; rule keeps_delegated_quiet [where env = env]; intro writes_rules)

lemma keeps_subagents: "keeps delegated (append_subagent_runs env parent ts)"
  unfolding append_subagent_runs_def
  by (intro keeps_bind keeps_if keeps_map keeps_start; rule keeps_delegated_quiet [where env = env]; intro writes_rules)

text \<open>A team is appended at once, so its members are counted together.\<close>

lemma run_map_started:
  "fst (run_map (\<lambda>s. run_append env (RunStarted s)) ss st) = Inr ys \<Longrightarrow>
     started (snd (run_map (\<lambda>s. run_append env (RunStarted s)) ss st)) = started st @ ss"
proof (induction ss arbitrary: st ys)
  case (Cons s ss)
  let ?st1 = "snd (run_append env (RunStarted s) st)"
  obtain u where u: "fst (run_append env (RunStarted s) st) = Inr u"
    using Cons.prems by (auto simp: run_bind_result split: sum.splits)
  obtain us where us: "fst (run_map (\<lambda>s. run_append env (RunStarted s)) ss ?st1) = Inr us"
    using Cons.prems u by (auto simp: run_bind_result split: sum.splits)
  have "started ?st1 = started st @ [s]"
    using u by (auto simp: run_append_def run_bind_def run_draw_def started_def split: prod.splits if_splits)
  then show ?case using Cons.IH [OF us] u us by (simp add: run_bind_state run_return_def)
qed (simp add: run_return_def)

lemma delegation_children:
  assumes "delegation_ok ss" and "\<And>x. x \<in> set xs \<Longrightarrow> placed (set ss) x" and "\<And>x. x \<in> set xs \<Longrightarrow> rs_parent_run_id x = Some i"
    and "\<And>x. x \<in> set xs \<Longrightarrow> rs_expert_contract x \<noteq> None" and "child_count ss i + length xs \<le> 8"
  shows "delegation_ok (ss @ xs)"
  using assms
proof (induction xs arbitrary: ss)
  case (Cons x xs)
  have p: "placed (set ss) x" "rs_parent_run_id x = Some i" "rs_expert_contract x \<noteq> None" using Cons.prems by simp_all
  have "delegation_ok (ss @ [x])" using Cons.prems(1,5) p by (intro delegation_snoc) auto
  then have "delegation_ok ((ss @ [x]) @ xs)"
  proof (rule Cons.IH)
    show "child_count (ss @ [x]) i + length xs \<le> 8" using Cons.prems(5) p(2) by (simp add: child_count_def)
    show "placed (set (ss @ [x])) y" if "y \<in> set xs" for y
      using that Cons.prems(2) [of y] placed_mono [of "set ss" y "set (ss @ [x])"] by auto
  qed (use Cons.prems in auto)
  then show ?case by simp
qed simp

lemma records_of_starts:
  "records_of env st seen ss = Inr rs \<Longrightarrow> map rec_id rs = map rs_id ss \<and>
     map rec_parent_run_id rs = map rs_parent_run_id ss"
  by (induction ss arbitrary: seen rs) (auto simp: Let_def bind_res_Inr_iff)

lemma no_child_record:
  assumes "list_agent_run_records env st = Inr rs" and "\<forall>r \<in> set rs. rec_parent_run_id r \<noteq> Some i"
  shows "child_count (list_agent_run_starts st) i = 0"
proof -
  have "set (map rs_parent_run_id (list_agent_run_starts st)) = set (map rec_parent_run_id rs)"
    using records_of_starts [of env st "{}" "list_agent_run_starts st" rs] assms(1)
    by (simp add: list_agent_run_records_def)
  then have "rs_parent_run_id s \<noteq> Some i" if "s \<in> set (list_agent_run_starts st)" for s
    using assms(2) that by (metis (no_types, lifting) imageE image_eqI set_map)
  then show ?thesis by (auto simp: child_count_def filter_empty_conv)
qed

lemma plan_parent_Inr:
  assumes "fst (plan_parent env i a b c st) = Inr parent"
  obtains rs where "list_agent_run_records env st = Inr rs" "parent \<in> set rs" "rec_id parent = i"
    "rec_role parent = ParentRun" "rec_parent_run_id parent = None" "\<forall>r \<in> set rs. rec_parent_run_id r \<noteq> Some i"
  using assms
  by (auto simp: plan_parent_def run_bind_result run_bind_state the_records_def run_read_def run_lift_def
      run_require_def run_return_def run_fail_def the_record_def ok_or_Inr_iff find_record_def find_Some_iff
      split: sum.splits if_splits)

lemma plan_parent_state: "snd (plan_parent env i a b c st) = st"
  by (simp add: plan_parent_def run_bind_state the_records_def run_read_def run_lift_def
      run_require_def run_return_def run_fail_def split: sum.splits)

lemma run_map_length: "fst (run_map f xs st) = Inr ys \<Longrightarrow> length ys = length xs"
  by (induction xs arbitrary: st ys) (auto simp: run_bind_result run_return_def split: sum.splits)

lemma run_atomic_state:
  "snd (run_atomic m st) =
     (case fst (m st) of Inl e \<Rightarrow> st\<lparr>rn_draws := rn_draws (snd (m st))\<rparr> | Inr x \<Rightarrow> snd (m st))"
  by (simp add: run_atomic_def split: prod.splits sum.splits)

definition team_member :: "run_record \<Rightarrow> run_start \<Rightarrow> bool" where
  "team_member parent s \<longleftrightarrow>
     rs_role s = SubagentRun \<and> rs_parent_run_id s = Some (rec_id parent) \<and> rs_expert_contract s \<noteq> None
     \<and> rs_conversation_id s = trim (rec_conversation_id parent)"

text \<open>Storing a team either draws and stores nothing, or stores all its members.\<close>

lemma team_started:
  fixes env team order i items st
  defines "st' \<equiv> snd (append_expert_team_runs env team order i items st)"
  shows "started st' = started st \<or>
    (\<exists>rs parent ss. list_agent_run_records env st = Inr rs \<and> parent \<in> set rs \<and> rec_id parent = i \<and>
       rec_role parent = ParentRun \<and> rec_parent_run_id parent = None \<and>
       (\<forall>r \<in> set rs. rec_parent_run_id r \<noteq> Some i) \<and> length ss \<le> 4 \<and> (\<forall>s \<in> set ss. team_member parent s) \<and>
       started st' = started st @ ss)"
proof -
  let ?pp = "plan_parent env i ''only a parent run may create an expert team''
         ''parent run cannot create an expert team from status '' ''parent run already has a child plan''"
  show ?thesis
  proof (cases "fst (?pp st)")
    case (Inl e)
    then show ?thesis by (simp add: st'_def append_expert_team_runs_def run_bind_state plan_parent_state)
  next
    case (Inr parent)
    obtain rs where rs: "list_agent_run_records env st = Inr rs" "parent \<in> set rs" "rec_id parent = i"
      "rec_role parent = ParentRun" "rec_parent_run_id parent = None" "\<forall>r \<in> set rs. rec_parent_run_id r \<noteq> Some i"
      by (rule plan_parent_Inr [OF Inr])
    let ?plan = "validate_team_plan (rv_sha env) team order i (rec_prompt parent) items"
    let ?make = "run_map (\<lambda>c. run_bind (run_draw env) (\<lambda>(k, now).
           run_domain (queued_expert k now i (rec_conversation_id parent) c)))"
    let ?store = "\<lambda>ss. run_atomic (run_map (\<lambda>s. run_append env (RunStarted s)) ss)"
    show ?thesis
    proof (cases ?plan)
      case (Inl e)
      then show ?thesis using Inr
        by (simp add: st'_def append_expert_team_runs_def run_bind_state plan_parent_state run_domain_def run_lift_def
            invalid_state_def)
    next
      case plan: (Inr cs)
      let ?st1 = "snd (?make cs st)"
      have "writes env (\<lambda>_. False) (?make cs)" by (intro writes_rules)
      then have quiet: "started ?st1 = started st" using started_frame run_grows_weaken writesD by blast
      have run: "st' = (case fst (?make cs st) of Inl e \<Rightarrow> ?st1 | Inr ss \<Rightarrow> snd (?store ss ?st1))"
        using Inr plan
        by (simp add: st'_def append_expert_team_runs_def run_bind_state plan_parent_state run_domain_def run_lift_def
            invalid_state_def records_among_def the_records_def run_read_def run_return_def split: sum.splits)
      show ?thesis
      proof (cases "fst (?make cs st)")
        case (Inl e)
        then show ?thesis using quiet by (simp add: run)
      next
        case made: (Inr ss)
        have "gives (?make cs) (\<lambda>ss. \<forall>s \<in> set ss. team_member parent s)"
          by (intro gives_map gives_bind [OF gives_any] gives_split gives_pure(2))
            (auto simp: team_member_def rs(3) dest: queued_expert_Inr)
        then have members: "\<forall>s \<in> set ss. team_member parent s"
          using made by (auto simp: gives_def dest: tripleD(1) [OF _ TrueI])
        have "length ss \<le> 4" using run_map_length [OF made] validate_team_plan_Inr(3,7) [OF plan] by simp
        moreover have "started st' = started st \<or> started st' = started st @ ss"
        proof (cases "fst (run_map (\<lambda>s. run_append env (RunStarted s)) ss ?st1)")
          case (Inl e)
          then have "started st' = started ?st1"
            by (simp add: run made run_atomic_state)
          then show ?thesis using quiet by simp
        next
          case (Inr ys)
          then have "st' = snd (run_map (\<lambda>s. run_append env (RunStarted s)) ss ?st1)"
            by (simp add: run made run_atomic_state)
          then show ?thesis using run_map_started [OF Inr] quiet by simp
        qed
        ultimately show ?thesis using rs members by blast
      qed
    qed
  qed
qed

lemma team_keeps:
  assumes "run_inv env st" and d: "delegated st"
  shows "delegated (snd (append_expert_team_runs env team order i items st))"
    (is "delegated ?st'")
  using team_started [of env team order i items st]
proof (elim disjE exE conjE)
  assume "started ?st' = started st"
  then show ?thesis using d by (simp add: delegated_def starts_in_view_def)
next
  fix rs parent ss
  assume rs: "list_agent_run_records env st = Inr rs" "parent \<in> set rs" "rec_id parent = i" "rec_role parent = ParentRun"
    "rec_parent_run_id parent = None" "\<forall>r \<in> set rs. rec_parent_run_id r \<noteq> Some i"
    and ss: "length ss \<le> 4" "\<forall>s \<in> set ss. team_member parent s" "started ?st' = started st @ ss"
  obtain p h block where p: "p \<in> set (list_agent_run_starts st)" "parent = record_from p h block"
    by (rule listed_record [OF rs(1,2)])
  have conv: "trim (rs_conversation_id p) = rs_conversation_id p"
    using list_starts_in [OF p(1)] assms(1) by (auto simp: run_inv_def)
  show ?thesis unfolding delegated_def
  proof
    assume "starts_in_view ?st'"
    then have v: "starts_in_view st" using ss(3) by (simp add: starts_in_view_def)
    have "child_count (started st) i = 0"
      using no_child_record [OF rs(1,6)] listed_child_count [OF v] by simp
    moreover have "placed (set (started st)) x" if "x \<in> set ss" for x
    proof -
      have "p \<in> set (started st)" using p(1) listed_starts_set [OF v] by simp
      then show ?thesis using ss(2) that p(2) rs(4,5) conv by (auto simp: placed_def team_member_def)
    qed
    ultimately show "delegation_ok (started ?st')"
      unfolding ss(3) using d v ss(1,2) rs(3)
      by (intro delegation_children [where i = i]) (auto simp: delegated_def team_member_def)
  qed
qed

lemma run_next_delegated:
  assumes "run_inv env st" and d: "delegated st" and step: "run_next env js st st'"
  shows "delegated st'"
  using step
proof cases
  case (next_goal g)
  then show ?thesis using d by (simp add: delegated_def starts_in_view_def started_def)
next
  case next_start
  then show ?thesis using keeps_start d by (simp add: keeps_def)
next
  case next_child
  then show ?thesis using keeps_start d by (simp add: keeps_def)
next
  case next_subagents
  then show ?thesis using keeps_subagents d by (simp add: keeps_def)
next
  case next_team
  then show ?thesis using team_keeps [OF assms(1) d] by simp
next
  case (next_retry parent key)
  then show ?thesis using keeps_retry [of env parent key] d by (simp add: keeps_def)
next
  case (next_retries parent)
  have "keeps delegated (append_due_expert_retries env parent)"
    unfolding append_due_expert_retries_def
    by (intro keeps_bind keeps_map keeps_retry keeps_delegated_quiet [where env = env]) (intro writes_rules)
  then show ?thesis using d next_retries by (simp add: keeps_def)
qed (simp only:, rule delegated_frame [OF _ d, of env], rule writesD, (rule writes_rules; simp))+

definition delegation_inv :: "run_env \<Rightarrow> run_store \<Rightarrow> bool" where
  "delegation_inv env st \<longleftrightarrow> run_inv env st \<and> delegated st"

interpretation delegation: transition_system "run_next env js" "delegation_inv env" for env js
  by unfold_locales (auto simp: delegation_inv_def intro: run_next_inv run_next_delegated)

lemma reachable_delegated:
  assumes "run_initial st0" and "(run_next env js)\<^sup>*\<^sup>* st0 st" and "starts_in_view st"
  shows "delegation_ok (started st)"
proof -
  have "delegation_inv env st0" using run_initial_inv [OF assms(1)] assms(1)
    by (simp add: delegation_inv_def delegated_def delegation_ok_def started_def run_initial_def child_count_def
        plain_count_def)
  then show ?thesis using delegation.run_inv [OF assms(2)] assms(3) by (simp add: delegation_inv_def delegated_def)
qed

text \<open>
  C9: Delegation is not recursive and is bounded. In every reachable store with at most 500 runs,
  whatever plans, teams, retries and single starts made them, a subagent has a parent that is a
  parent run without a parent of its own, in the same conversation; and a run has at most eight
  children, of which at most three are not attempts of experts.
\<close>

theorem delegation_is_bounded:
  assumes "run_initial st0" and "(run_next env js)\<^sup>*\<^sup>* st0 st" and "starts_in_view st"
  shows "(\<forall>s \<in> set (started st). rs_role s = SubagentRun \<longrightarrow>
      (\<exists>p \<in> set (started st). rs_parent_run_id s = Some (rs_id p) \<and> rs_role p = ParentRun \<and>
         rs_parent_run_id p = None \<and> rs_conversation_id p = rs_conversation_id s)) \<and>
    child_count (started st) i \<le> 8 \<and>
    length (filter (\<lambda>s. rs_parent_run_id s = Some i \<and> rs_expert_contract s = None) (started st)) \<le> 3"
  using reachable_delegated [OF assms] by (auto simp: delegation_ok_def placed_def plain_count_def)

section \<open>Results and merges\<close>

definition result_sourced :: "run_payload set \<Rightarrow> attempt_result \<Rightarrow> bool" where
  "result_sourced P x \<longleftrightarrow>
     (\<exists>s c. RunStarted s \<in> P \<and> rs_id s = er_run_id x \<and> rs_expert_contract s = Some c \<and> result_fits c x)"

definition merge_sourced :: "run_env \<Rightarrow> run_payload set \<Rightarrow> merge_receipt \<Rightarrow> bool" where
  "merge_sourced env P m \<longleftrightarrow>
     (\<exists>p v w s. ExpertResultRecorded p \<in> P \<and> er_run_id p = mr_production_run_id m \<and> passed p \<and>
        er_output_revision p = mr_production_revision m \<and>
        ExpertResultRecorded v \<in> P \<and> er_run_id v = mr_review_run_id m \<and> passed v \<and>
        er_review v = Some w \<and> rv_decision w = Accept \<and> rv_target_revision w = mr_production_revision m \<and>
        RunStarted s \<in> P \<and> rs_id s = mr_parent_run_id m \<and> rs_role s = ParentRun \<and>
        parent_input_revision (rv_sha env) (rs_prompt s) = mr_parent_input_revision m)"

lemma result_sourced_mono: "result_sourced P x \<Longrightarrow> P \<subseteq> Q \<Longrightarrow> result_sourced Q x"
  unfolding result_sourced_def by blast

lemma merge_sourced_mono: "merge_sourced env P m \<Longrightarrow> P \<subseteq> Q \<Longrightarrow> merge_sourced env Q m"
  unfolding merge_sourced_def by (meson subsetD)

definition results_ok :: "run_env \<Rightarrow> run_store \<Rightarrow> bool" where
  "results_ok env st \<longleftrightarrow>
     (\<forall>x. ExpertResultRecorded x \<in> run_payloads st \<longrightarrow> result_sourced (run_payloads st) x) \<and>
     (\<forall>m. ExpertMergeRecorded m \<in> run_payloads st \<longrightarrow> merge_sourced env (run_payloads st) m)"

lemma last_by_in: "last_by key xs k = Some y \<Longrightarrow> y \<in> set xs \<and> key y = k"
proof -
  have "fold (\<lambda>x m. m(key x \<mapsto> x)) xs m k = Some y \<Longrightarrow> (y \<in> set xs \<and> key y = k) \<or> m k = Some y" for m
  proof (induction xs arbitrary: m)
    case (Cons a xs)
    then show ?case using Cons.IH [of "m(key a \<mapsto> a)"] by (auto split: if_splits)
  qed simp
  then show "last_by key xs k = Some y \<Longrightarrow> y \<in> set xs \<and> key y = k" by (fastforce simp: last_by_def)
qed

lemma find_record_in: "find_record rs i = Some r \<Longrightarrow> r \<in> set rs \<and> rec_id r = i"
  by (auto simp: find_record_def find_Some_iff)

lemma result_in_log:
  assumes "list_agent_run_records env st = Inr rs" and "result_of rs i = Some x"
  shows "ExpertResultRecorded x \<in> run_payloads st \<and> er_run_id x = i"
proof -
  obtain r where r: "r \<in> set rs" "rec_id r = i" "rec_expert_result r = Some x"
    using assms(2) find_record_in by (auto simp: result_of_def bind_eq_Some_conv)
  obtain s h block where s: "r = record_from s h block" "h = no_history \<or> h = history_of st (rs_id s)"
    by (rule listed_record [OF assms(1) r(1)])
  have "rh_result h = Some x" using r(3) s(1) by simp
  then have "last_by er_run_id (list_expert_attempt_results st) i = Some x"
    using s r(2) by (auto simp: no_history_def history_of_def)
  then have "x \<in> set (list_expert_attempt_results st)" "er_run_id x = i" using last_by_in by fast+
  then show ?thesis
    using list_by_type_in [of x 1000 is_result the_result st]
    by (force simp: list_expert_attempt_results_def is_result_def)
qed

lemma record_in_log:
  assumes "list_agent_run_records env st = Inr rs" and "find_record rs i = Some r"
  obtains s where "RunStarted s \<in> run_payloads st" "rs_id s = i" "rec_role r = rs_role s" "rec_prompt r = rs_prompt s"
    "rec_expert_contract r = rs_expert_contract s"
proof -
  have r: "r \<in> set rs" "rec_id r = i" using find_record_in [OF assms(2)] by auto
  obtain s h block where s: "s \<in> set (list_agent_run_starts st)" "r = record_from s h block"
    by (rule listed_record [OF assms(1) r(1)])
  then have "RunStarted s \<in> run_payloads st" using list_starts_in [OF s(1)] by force
  then show ?thesis using that [of s] s(2) r(2) by simp
qed

lemma run_grows_both:
  assumes "run_grows env A st st'" and "run_grows env B st st'"
  shows "run_grows env (\<lambda>p. A p \<and> B p) st st'"
proof -
  obtain es where "rn_runs st' = rn_runs st @ es" "\<forall>e \<in> set es. A (ke_payload e) \<and> drawn_in env st st' e"
    using assms(1) by (auto simp: run_grows_def)
  moreover obtain fs where "rn_runs st' = rn_runs st @ fs" "\<forall>e \<in> set fs. B (ke_payload e)"
    using assms(2) by (auto simp: run_grows_def)
  ultimately show ?thesis using assms(1) by (auto simp: run_grows_def)
qed

lemma results_grow:
  assumes "run_grows env A st st'" and "results_ok env st"
    and "\<And>x. A (ExpertResultRecorded x) \<Longrightarrow> result_sourced (run_payloads st) x"
    and "\<And>m. A (ExpertMergeRecorded m) \<Longrightarrow> merge_sourced env (run_payloads st) m"
  shows "results_ok env st'"
proof -
  have sub: "run_payloads st \<subseteq> run_payloads st'" using run_grows_payloads(1) [OF assms(1)] by blast
  show ?thesis unfolding results_ok_def
  proof (intro conjI allI impI)
    fix x assume "ExpertResultRecorded x \<in> run_payloads st'"
    then have "result_sourced (run_payloads st) x"
      using run_grows_payloads(2) [OF assms(1)] assms(2,3) unfolding results_ok_def by blast
    then show "result_sourced (run_payloads st') x" using result_sourced_mono sub by blast
  next
    fix m assume "ExpertMergeRecorded m \<in> run_payloads st'"
    then have "merge_sourced env (run_payloads st) m"
      using run_grows_payloads(2) [OF assms(1)] assms(2,4) unfolding results_ok_def by blast
    then show "merge_sourced env (run_payloads st') m" using merge_sourced_mono sub by blast
  qed
qed

lemma the_run_Inr:
  "fst (the_run env i st) = Inr r \<Longrightarrow> \<exists>rs. list_agent_run_records env st = Inr rs \<and> find_record rs i = Some r"
  "snd (the_run env i st) = st"
  by (auto simp: the_run_def the_records_def run_bind_result run_bind_state run_read_def run_lift_def the_record_def
      ok_or_Inr_iff split: sum.splits)

lemma result_grows:
  "run_grows env (\<lambda>p. \<forall>y. p = ExpertResultRecorded y \<longrightarrow> result_sourced (run_payloads st) y) st
     (snd (append_expert_attempt_result env x st))"
proof (cases "fst (the_run env (er_run_id x) st)")
  case (Inl e)
  then show ?thesis by (simp add: append_expert_attempt_result_def run_bind_state the_run_Inr(2))
next
  case (Inr r)
  let ?A = "\<lambda>p. \<forall>y. p = ExpertResultRecorded y \<longrightarrow> result_sourced (run_payloads st) y"
  obtain rs where rs: "list_agent_run_records env st = Inr rs" "find_record rs (er_run_id x) = Some r"
    using the_run_Inr(1) [OF Inr] by blast
  obtain s where s: "RunStarted s \<in> run_payloads st" "rs_id s = er_run_id x"
    "rec_expert_contract r = rs_expert_contract s"
    by (rule record_in_log [OF rs])
  have run: "snd (append_expert_attempt_result env x st) = snd (run_bind (run_lift (ok_or (rec_expert_contract r)
       (InvalidState ''expert result requires an expert attempt''))) (\<lambda>c.
     run_bind (run_require (result_fits c x)
       (InvalidState ''expert result does not match its immutable attempt contract'')) (\<lambda>_.
     run_bind (run_read (\<lambda>st. Inr (\<exists>y \<in> set (list_expert_attempt_results st). er_run_id y = er_run_id x))) (\<lambda>known.
     run_bind (run_require (\<not> known)
       (InvalidState ''expert attempt result is immutable and already recorded'')) (\<lambda>_.
       run_append env (ExpertResultRecorded x))))) st)"
    using Inr by (simp add: append_expert_attempt_result_def run_bind_state [of "the_run _ _"] the_run_Inr(2))
  show ?thesis
  proof (cases "\<exists>c. rec_expert_contract r = Some c \<and> result_fits c x")
    case True
    then have "result_sourced (run_payloads st) x" using s by (auto simp: result_sourced_def)
    then show ?thesis unfolding run by (intro writesD writes_rules) simp
  next
    case False
    then show ?thesis unfolding run
      by (cases "rec_expert_contract r")
        (auto simp: run_bind_state run_lift_def run_require_def run_fail_def run_return_def)
  qed
qed

lemma merge_grows:
  "run_grows env (\<lambda>p. \<forall>y. p = ExpertMergeRecorded y \<longrightarrow> merge_sourced env (run_payloads st) y) st
     (snd (append_expert_merge_receipt env m st))"
proof (cases "snd (append_expert_merge_receipt env m st) = st")
  case False
  let ?A = "\<lambda>p. \<forall>y. p = ExpertMergeRecorded y \<longrightarrow> merge_sourced env (run_payloads st) y"
  note u = append_expert_merge_receipt_def run_bind_state the_records_def run_read_def run_lift_def run_require_def
    run_return_def run_fail_def
  obtain rs where rs: "list_agent_run_records env st = Inr rs" using False by (auto simp: u split: sum.splits)
  obtain parent where parent: "find_record rs (mr_parent_run_id m) = Some parent"
    using False rs by (auto simp: u the_record_def ok_or_def split: sum.splits option.splits)
  have p: "rec_role parent = ParentRun" "parent_input_revision (rv_sha env) (rec_prompt parent) = mr_parent_input_revision m"
    using False rs parent by (auto simp: u the_record_def ok_or_def split: if_splits)
  obtain x where x: "result_of rs (mr_production_run_id m) = Some x"
    using False rs parent p by (auto simp: u the_record_def ok_or_def split: option.splits)
  obtain v where v: "result_of rs (mr_review_run_id m) = Some v"
    using False rs parent p x by (auto simp: u the_record_def ok_or_def split: option.splits)
  have ok: "passed x" "passed v" "er_output_revision x = mr_production_revision m"
    "is_some_and (er_review v) (\<lambda>w. rv_decision w = Accept \<and> rv_target_revision w = er_output_revision x)"
    using False rs parent p x v by (auto simp: u the_record_def ok_or_def split: if_splits)
  obtain w where w: "er_review v = Some w" "rv_decision w = Accept" "rv_target_revision w = er_output_revision x"
    using ok(4) by (cases "er_review v") auto
  obtain s where s: "RunStarted s \<in> run_payloads st" "rs_id s = mr_parent_run_id m" "rec_role parent = rs_role s"
    "rec_prompt parent = rs_prompt s" by (rule record_in_log [OF rs parent])
  have "merge_sourced env (run_payloads st) m"
    unfolding merge_sourced_def using result_in_log [OF rs x] result_in_log [OF rs v] ok(1-3) w s p
    by (intro exI [of _ x] exI [of _ v] exI [of _ w] exI [of _ s]) simp
  then show ?thesis by (intro writesD writes_rules) simp
qed simp

text \<open>Every other operation writes neither results nor merges.\<close>

definition unjudged :: "run_payload \<Rightarrow> bool" where
  "unjudged p \<longleftrightarrow> \<not> is_result p \<and> \<not> is_merge p"

lemma run_next_results:
  assumes ok: "results_ok env st" and step: "run_next env js st st'"
  shows "results_ok env st'"
proof -
  have quiet: "results_ok env st'" if "run_grows env unjudged st st'"
    by (rule results_grow [OF that ok]) (simp_all add: unjudged_def)
  show ?thesis using step
  proof cases
    case (next_goal g)
    then show ?thesis using ok by (simp add: results_ok_def)
  next
    case (next_result r)
    have "writes env (\<lambda>p. \<not> is_merge p) (append_expert_attempt_result env r)" by (intro writes_rules) simp
    then have other: "run_grows env (\<lambda>p. \<not> is_merge p) st st'" using next_result by (simp add: writesD)
    from run_grows_both [OF result_grows other [unfolded next_result]] show ?thesis
      unfolding next_result by (rule results_grow [OF _ ok]) auto
  next
    case (next_merge m)
    have "writes env (\<lambda>p. \<not> is_result p) (append_expert_merge_receipt env m)" by (intro writes_rules) simp
    then have other: "run_grows env (\<lambda>p. \<not> is_result p) st st'" using next_merge by (simp add: writesD)
    from run_grows_both [OF merge_grows other [unfolded next_merge]] show ?thesis
      unfolding next_merge by (rule results_grow [OF _ ok]) auto
  qed (rule quiet, simp only:, rule writesD, (rule writes_rules; simp add: unjudged_def))+
qed

interpretation teams: transition_system "run_next env js" "results_ok env" for env js
  by unfold_locales (rule run_next_results)

text \<open>
  C10: Only reviewed work is merged. In every reachable store a merge receipt names a recorded
  production result that passed with exactly the merged revision and a recorded review result that
  passed and accepts exactly that revision, for a parent run whose prompt has the revision of the
  receipt; and each of the two results is of a started expert attempt whose contract it fits.
\<close>

theorem merges_are_reviewed:
  assumes "run_initial st0" and "(run_next env js)\<^sup>*\<^sup>* st0 st" and "ExpertMergeRecorded m \<in> run_payloads st"
  shows "\<exists>p v w. {ExpertResultRecorded p, ExpertResultRecorded v} \<subseteq> run_payloads st \<and>
      er_run_id p = mr_production_run_id m \<and> passed p \<and> er_output_revision p = mr_production_revision m \<and>
      er_run_id v = mr_review_run_id m \<and> passed v \<and> er_review v = Some w \<and> rv_decision w = Accept \<and>
      rv_target_revision w = mr_production_revision m \<and>
      (\<exists>s. RunStarted s \<in> run_payloads st \<and> rs_id s = mr_parent_run_id m \<and> rs_role s = ParentRun \<and>
         parent_input_revision (rv_sha env) (rs_prompt s) = mr_parent_input_revision m) \<and>
      (\<forall>x \<in> {p, v}. \<exists>s c. RunStarted s \<in> run_payloads st \<and> rs_id s = er_run_id x \<and>
         rs_expert_contract s = Some c \<and> result_fits c x)"
proof -
  have "results_ok env st0" using assms(1) by (simp add: results_ok_def run_initial_def)
  then have ok: "results_ok env st" using teams.run_inv [OF assms(2)] by blast
  then obtain p v w where "ExpertResultRecorded p \<in> run_payloads st" "ExpertResultRecorded v \<in> run_payloads st"
    and pv: "er_run_id p = mr_production_run_id m \<and> passed p \<and> er_output_revision p = mr_production_revision m"
      "er_run_id v = mr_review_run_id m \<and> passed v \<and> er_review v = Some w \<and> rv_decision w = Accept \<and>
        rv_target_revision w = mr_production_revision m"
      "\<exists>s. RunStarted s \<in> run_payloads st \<and> rs_id s = mr_parent_run_id m \<and> rs_role s = ParentRun \<and>
         parent_input_revision (rv_sha env) (rs_prompt s) = mr_parent_input_revision m"
    using assms(3) unfolding results_ok_def merge_sourced_def by blast
  moreover from this(1,2) have "\<forall>x \<in> {p, v}. result_sourced (run_payloads st) x" using ok by (simp add: results_ok_def)
  ultimately show ?thesis unfolding result_sourced_def by (intro exI [of _ p] exI [of _ v] exI [of _ w]) simp
qed

section \<open>A concrete team\<close>

definition demo_contract_of :: "string \<Rightarrow> expert_role \<Rightarrow> attempt_contract" where
  "demo_contract_of key role = (contract_of 1 7 ''go'' demo_production)\<lparr>ac_key := key, ac_role := role\<rparr>"

definition demo_attempt :: "uuid \<Rightarrow> string \<Rightarrow> expert_role \<Rightarrow> run_start" where
  "demo_attempt i key role =
     \<lparr>rs_id = i, rs_conversation_id = ''c'', rs_prompt = ''p'', rs_attachment_count = 0, rs_role = SubagentRun,
      rs_parent_run_id = Some 7, rs_subtask_key = Some key, rs_expert_contract = Some (demo_contract_of key role),
      rs_initial_status = Queued, rs_started_at = 2\<rparr>"

definition demo_result :: "uuid \<Rightarrow> string \<Rightarrow> expert_role \<Rightarrow> review_verdict option \<Rightarrow> attempt_result" where
  "demo_result i key role verdict =
     \<lparr>er_id = 1, er_run_id = i, er_parent_run_id = 7, er_key = key, er_role = role, er_attempt = 1,
      er_parent_input_revision = ''go'', er_output_revision = ''out'', er_summary = ''done'', er_claims = [],
      er_evidence = [], er_unresolved_conflicts = [], er_missing_evidence = [],
      er_usage = \<lparr>au_elapsed_ms = 1, au_tool_calls = 0, au_tokens = 0, au_output_bytes = 0, au_staged_bytes = 0\<rparr>,
      er_quality_gates = [\<lparr>qg_code = ''q'', qg_passed = True, qg_detail = ''d''\<rparr>], er_staging = None,
      er_review = verdict, er_external_effect_state = NoEffect, er_retry_eligible = False, er_recorded_at = 3\<rparr>"

definition demo_verdict :: review_verdict where
  "demo_verdict = \<lparr>rv_target_revision = ''out'', rv_decision = Accept, rv_findings = []\<rparr>"

definition demo_merge :: merge_receipt where
  "demo_merge =
     \<lparr>mr_id = 4, mr_parent_run_id = 7, mr_parent_input_revision = ''go'', mr_production_run_id = 8,
      mr_production_revision = ''out'', mr_review_run_id = 9, mr_merged_at = 5\<rparr>"

text \<open>The log of a parent, two attempts, their results and the merge; each prefix of it is a store.\<close>

definition demo_team_log :: "run_payload list" where
  "demo_team_log =
     [RunStarted demo_parent, RunStarted (demo_attempt 8 ''write'' Production), RunStarted (demo_attempt 9 ''check'' Review),
      ExpertResultRecorded (demo_result 8 ''write'' Production None),
      ExpertResultRecorded (demo_result 9 ''check'' Review (Some demo_verdict)), ExpertMergeRecorded demo_merge]"

definition demo_team :: "nat \<Rightarrow> run_store" where
  "demo_team n =
     \<lparr>rn_goals = demo_start, rn_checkpoints = [],
      rn_runs = map (\<lambda>(i, p). \<lparr>ke_id = 10 + i, ke_payload = p, ke_created_at = 10 + int i\<rparr>)
        (zip [0..<n] (take n demo_team_log)), rn_draws = n\<rparr>"

lemma demo_team_start: "demo_team 0 = demo_run_start"
  by (simp add: demo_team_def demo_run_start_def)

lemma demo_team_attempts:
  "queued_expert 8 2 7 ''c'' (demo_contract_of ''write'' Production) = Inr (demo_attempt 8 ''write'' Production)"
  "queued_expert 9 2 7 ''c'' (demo_contract_of ''check'' Review) = Inr (demo_attempt 9 ''check'' Review)"
  by code_simp+

definition extends_team :: "'a run_m \<Rightarrow> nat \<Rightarrow> bool" where
  "extends_team m n \<longleftrightarrow>
     (let st = snd (m (demo_team n)) in
      rn_runs st = rn_runs (demo_team (Suc n)) \<and> rn_draws st = Suc n \<and> rn_checkpoints st = [])"

lemma demo_team_extended:
  "extends_team (append_agent_run_start demo_run_env demo_parent) 0"
  "extends_team (append_agent_run_start demo_run_env (demo_attempt 8 ''write'' Production)) 1"
  "extends_team (append_agent_run_start demo_run_env (demo_attempt 9 ''check'' Review)) 2"
  by code_simp+

lemma demo_team_result:
  "extends_team (append_expert_attempt_result demo_run_env (demo_result 8 ''write'' Production None)) 3"
  by code_simp

lemma demo_team_review:
  "extends_team (append_expert_attempt_result demo_run_env (demo_result 9 ''check'' Review (Some demo_verdict))) 4"
  by code_simp

lemma demo_team_merge:
  "extends_team (append_expert_merge_receipt demo_run_env demo_merge) 5"
  by code_simp

text \<open>An operation that extends a prefix by its next event takes one store to the next.\<close>

lemma demo_team_next:
  assumes "run_next demo_run_env demo_goal_json (demo_team n) (snd (m (demo_team n)))"
    and "writes demo_run_env (\<lambda>_. True) m" and "extends_team m n"
  shows "run_next demo_run_env demo_goal_json (demo_team n) (demo_team (Suc n))"
proof -
  have "rn_goals (snd (m (demo_team n))) = demo_start"
    using writesD [OF assms(2), of "demo_team n"] by (simp add: run_grows_def demo_team_def)
  then have "snd (m (demo_team n)) = demo_team (Suc n)"
    using assms(3) unfolding extends_team_def Let_def
    by (intro run_store.equality) (simp_all add: demo_team_def)
  then show ?thesis using assms(1) by simp
qed

lemma demo_team_steps:
  assumes "n < 6"
  shows "run_next demo_run_env demo_goal_json (demo_team n) (demo_team (Suc n))"
proof -
  have parent: "start_new 7 1 ''c'' ''go'' 0 = Inr demo_parent \<or> start_queued 7 1 ''c'' ''go'' 0 = Inr demo_parent"
    by (simp add: start_new_def demo_parent_def required_text_def text_eval)
  note attempts = demo_team_attempts [THEN disjI2]
  have "run_next demo_run_env demo_goal_json (demo_team 0) (demo_team (Suc 0))"
    "run_next demo_run_env demo_goal_json (demo_team 1) (demo_team (Suc 1))"
    "run_next demo_run_env demo_goal_json (demo_team 2) (demo_team (Suc 2))"
    "run_next demo_run_env demo_goal_json (demo_team 3) (demo_team (Suc 3))"
    "run_next demo_run_env demo_goal_json (demo_team 4) (demo_team (Suc 4))"
    "run_next demo_run_env demo_goal_json (demo_team 5) (demo_team (Suc 5))"
    by (rule demo_team_next [OF next_start [OF parent] _ demo_team_extended(1)]
          demo_team_next [OF next_child [OF attempts(1)] _ demo_team_extended(2)]
          demo_team_next [OF next_child [OF attempts(2)] _ demo_team_extended(3)]
          demo_team_next [OF next_result _ demo_team_result] demo_team_next [OF next_result _ demo_team_review]
          demo_team_next [OF next_merge _ demo_team_merge], (rule writes_rules, simp)+)+
  then show ?thesis using assms by (auto simp: less_Suc_eq numeral_eq_Suc)
qed

lemma demo_team_reachable: "n \<le> 6 \<Longrightarrow> (run_next demo_run_env demo_goal_json)\<^sup>*\<^sup>* demo_run_start (demo_team n)"
proof (induction n)
  case (Suc n)
  then show ?case using demo_team_steps [of n] by (auto intro: rtranclp.rtrancl_into_rtrancl)
qed (simp add: demo_team_start)

lemma demo_team_started:
  "started (demo_team 6) = [demo_parent, demo_attempt 8 ''write'' Production, demo_attempt 9 ''check'' Review]"
  by code_simp

lemma demo_team_payloads: "map ke_payload (rn_runs (demo_team 6)) = demo_team_log"
  by code_simp

theorem delegation_is_bounded_witness:
  "child_count (started (demo_team 6)) 7 = 2 \<and> child_count (started (demo_team 6)) 7 \<le> 8 \<and>
   (\<exists>p \<in> set (started (demo_team 6)). rs_id p = 7 \<and> rs_role p = ParentRun)"
proof -
  have view: "starts_in_view (demo_team 6)" by (simp add: starts_in_view_def demo_team_started)
  note bound = delegation_is_bounded [OF demo_run_initial demo_team_reachable [OF order_refl] view]
  have "\<exists>p \<in> set (started (demo_team 6)). rs_parent_run_id (demo_attempt 8 ''write'' Production) = Some (rs_id p) \<and>
      rs_role p = ParentRun"
    using bound [THEN conjunct1, rule_format, of "demo_attempt 8 ''write'' Production"]
    by (auto simp: demo_team_started demo_attempt_def)
  moreover have "child_count (started (demo_team 6)) 7 = 2"
    unfolding demo_team_started by (simp add: child_count_def demo_parent_def demo_attempt_def)
  ultimately show ?thesis using bound [of 7] by (auto simp: demo_attempt_def)
qed

theorem merges_are_reviewed_witness:
  "\<exists>p v w. {ExpertResultRecorded p, ExpertResultRecorded v} \<subseteq> run_payloads (demo_team 6) \<and>
     er_run_id p = 8 \<and> er_run_id v = 9 \<and> er_review v = Some w \<and> rv_decision w = Accept \<and>
     rv_target_revision w = er_output_revision p"
proof -
  have "set demo_team_log = run_payloads (demo_team 6)"
    using arg_cong [OF demo_team_payloads, of set] by simp
  then have "ExpertMergeRecorded demo_merge \<in> run_payloads (demo_team 6)"
    by (auto simp: demo_team_log_def)
  from merges_are_reviewed [OF demo_run_initial demo_team_reachable [OF order_refl] this] obtain p v w where
    "{ExpertResultRecorded p, ExpertResultRecorded v} \<subseteq> run_payloads (demo_team 6)"
    "er_run_id p = 8" "er_run_id v = 9" "er_review v = Some w" "rv_decision w = Accept"
    "rv_target_revision w = er_output_revision p" unfolding demo_merge_def by fastforce
  then show ?thesis by blast
qed

end
