(* ===== verification/Automation.thy ===== *)
theory Automation
  imports Run_Store
begin

text \<open>
  Automations and the review queue: \<open>kernel/automation.rs\<close> and the tables of automations in
  \<open>kernel/event_store.rs\<close>. The calendar (\<open>chrono\<close>, \<open>chrono_tz\<close>) is a parameter: which names
  of time zones it knows, the local date of an instant as days since 1970-01-01, the day of the
  month of a date, and the instants of a local time. \<open>Uuid::new_v4\<close> and the identifier and instant
  of an event are arguments. Columns hold the values whose texts the tables store; the text of an
  instant has all its nanoseconds and orders as the instant.
\<close>

section \<open>Definitions of automations\<close>

datatype automation_status = AutomationEnabled | AutomationPaused | AutomationDeleted

datatype schedule =
    Once instant
  | Daily u32 u32
  | Weekly u32 u32 u32
  | Monthly u32 u32 u32
  | RestrictedCron "u32 list" u32 u32

datatype missed_policy = MissedSkip | MissedRunOnce

record automation_definition =
  ad_id :: uuid
  ad_revision :: u64
  ad_goal :: string
  ad_timezone :: string
  ad_schedule :: schedule
  ad_status :: automation_status
  ad_missed_run_policy :: missed_policy
  ad_retry_limit :: u32
  ad_missed_after_seconds :: u64
  ad_created_at :: instant
  ad_updated_at :: instant

definition once_with_id ::
    "uuid \<Rightarrow> string \<Rightarrow> string \<Rightarrow> instant \<Rightarrow> instant \<Rightarrow> automation_definition res" where
  "once_with_id i goal timezone run_at now =
     bind_res (required_text goal ''automation goal'') (\<lambda>goal.
     bind_res (required_text timezone ''automation timezone'') (\<lambda>timezone.
       Inr \<lparr>ad_id = i, ad_revision = 0, ad_goal = goal, ad_timezone = timezone, ad_schedule = Once run_at,
            ad_status = AutomationEnabled, ad_missed_run_policy = MissedRunOnce, ad_retry_limit = 0,
            ad_missed_after_seconds = 300, ad_created_at = now, ad_updated_at = now\<rparr>))"

section \<open>Runs of automations\<close>

datatype automation_run_status =
    AutoQueued | AutoRunning | AutoWaitingReview | AutoWaitingApproval | AutoCompleted | AutoFailed | AutoCancelled

fun automation_status_debug :: "automation_run_status \<Rightarrow> string" where
  "automation_status_debug AutoQueued = ''Queued''"
| "automation_status_debug AutoRunning = ''Running''"
| "automation_status_debug AutoWaitingReview = ''WaitingReview''"
| "automation_status_debug AutoWaitingApproval = ''WaitingApproval''"
| "automation_status_debug AutoCompleted = ''Completed''"
| "automation_status_debug AutoFailed = ''Failed''"
| "automation_status_debug AutoCancelled = ''Cancelled''"

record automation_run =
  am_id :: uuid
  am_definition_id :: uuid
  am_definition_revision :: u64
  am_trigger_window_key :: string
  am_scheduled_for :: instant
  am_status :: automation_run_status
  am_attempt :: u32
  am_agent_run_id :: "uuid option"
  am_review_queue_item_id :: "uuid option"
  am_last_error :: "string option"
  am_claimed_by :: "string option"
  am_claimed_at :: "instant option"
  am_created_at :: instant
  am_updated_at :: instant

record automation_checkpoint =
  ak_automation_run_id :: uuid
  ak_dedup_key :: string
  ak_tool_invocation_id :: "uuid option"
  ak_evidence_ref :: "string option"
  ak_recorded_at :: instant

fun automation_run_transition_allowed :: "automation_run_status \<Rightarrow> automation_run_status \<Rightarrow> bool" where
  "automation_run_transition_allowed AutoQueued to \<longleftrightarrow> to \<noteq> AutoQueued"
| "automation_run_transition_allowed AutoRunning to \<longleftrightarrow>
     to \<in> {AutoWaitingReview, AutoWaitingApproval, AutoCompleted, AutoFailed, AutoCancelled}"
| "automation_run_transition_allowed AutoWaitingReview to \<longleftrightarrow>
     to \<in> {AutoWaitingApproval, AutoCompleted, AutoFailed, AutoCancelled}"
| "automation_run_transition_allowed AutoWaitingApproval to \<longleftrightarrow> to \<in> {AutoCompleted, AutoFailed, AutoCancelled}"
| "automation_run_transition_allowed AutoFailed to \<longleftrightarrow> to = AutoQueued"
| "automation_run_transition_allowed _ to \<longleftrightarrow> False"

section \<open>The review queue\<close>

datatype review_status = PendingReview | ReviewPendingApproval | ReviewAccepted | ReviewRejected

record review_item =
  ri_id :: uuid
  ri_automation_run_id :: uuid
  ri_agent_run_id :: "uuid option"
  ri_tool_invocation_id :: "uuid option"
  ri_status :: review_status
  ri_preview_fingerprint :: "string option"
  ri_revision :: u32
  ri_title :: string
  ri_evidence_ref :: "string option"
  ri_created_at :: instant
  ri_updated_at :: instant

text \<open>The canonical text of the fields that an action on a review names.\<close>

type_synonym review_json =
  "uuid \<Rightarrow> uuid \<Rightarrow> uuid option \<Rightarrow> uuid option \<Rightarrow> review_status \<Rightarrow> string option \<Rightarrow> u32 \<Rightarrow> string"

definition action_revision :: "digest \<Rightarrow> review_json \<Rightarrow> review_item \<Rightarrow> string" where
  "action_revision sha js r =
     ''review1:'' @ sha (js (ri_id r) (ri_automation_run_id r) (ri_agent_run_id r) (ri_tool_invocation_id r)
        (ri_status r) (ri_preview_fingerprint r) (ri_revision r))"

definition validate_action_revision :: "digest \<Rightarrow> review_json \<Rightarrow> review_item \<Rightarrow> string \<Rightarrow> unit res" where
  "validate_action_revision sha js r value =
     (if value \<noteq> action_revision sha js r
      then Inl ''review action is stale or does not match this exact revision'' else Inr ())"

definition edit_review :: "review_item \<Rightarrow> string \<Rightarrow> string option \<Rightarrow> instant \<Rightarrow> review_item res" where
  "edit_review r title fp at =
     (if ri_status r \<notin> {PendingReview, ReviewPendingApproval} then Inl ''resolved review item cannot be edited''
      else bind_res (required_text title ''review item title'') (\<lambda>title.
        Inr (r\<lparr>ri_title := title, ri_preview_fingerprint := fp, ri_tool_invocation_id := None,
               ri_status := PendingReview, ri_revision := sat_inc (ri_revision r), ri_updated_at := at\<rparr>)))"

definition request_approval :: "review_item \<Rightarrow> uuid \<Rightarrow> string \<Rightarrow> instant \<Rightarrow> review_item res" where
  "request_approval r tool fp at =
     (if ri_status r \<noteq> PendingReview then Inl ''review item is not ready to request approval''
      else bind_res (required_text fp ''review fingerprint'') (\<lambda>fp.
        if ri_preview_fingerprint r \<noteq> Some fp then Inl ''review preview changed; create a new exact approval''
        else Inr (r\<lparr>ri_tool_invocation_id := Some tool, ri_status := ReviewPendingApproval,
                    ri_revision := sat_inc (ri_revision r), ri_updated_at := at\<rparr>)))"

definition resolve_review :: "review_item \<Rightarrow> bool \<Rightarrow> instant \<Rightarrow> review_item res" where
  "resolve_review r accepted at =
     (if ri_status r \<notin> {PendingReview, ReviewPendingApproval} then Inl ''review item is already resolved''
      else if accepted \<and> ri_status r = ReviewPendingApproval
      then Inl ''external mutation must use its exact approval action''
      else Inr (r\<lparr>ri_status := (if accepted then ReviewAccepted else ReviewRejected),
                  ri_revision := sat_inc (ri_revision r), ri_updated_at := at\<rparr>))"

definition complete_approved_action :: "review_item \<Rightarrow> string \<Rightarrow> instant \<Rightarrow> review_item res" where
  "complete_approved_action r evidence at =
     (if ri_status r \<noteq> ReviewPendingApproval then Inl ''review item is not waiting for an approved action''
      else bind_res (required_text evidence ''review evidence'') (\<lambda>evidence.
        Inr (r\<lparr>ri_evidence_ref := Some evidence, ri_status := ReviewAccepted,
               ri_revision := sat_inc (ri_revision r), ri_updated_at := at\<rparr>)))"

section \<open>The next time of a schedule\<close>

datatype local_result = SingleTime instant | AmbiguousTime instant instant | NoTime

record calendar =
  ca_zone :: "string \<Rightarrow> bool"
  ca_local_date :: "string \<Rightarrow> instant \<Rightarrow> int"
  ca_month_day :: "int \<Rightarrow> nat"
  ca_from_local :: "string \<Rightarrow> int \<Rightarrow> nat \<Rightarrow> nat \<Rightarrow> local_result"

text \<open>Days from Monday: 1970-01-01 was a Thursday.\<close>

definition days_from_monday :: "int \<Rightarrow> nat" where
  "days_from_monday date = nat ((date + 3) mod 7)"

fun local_instants :: "local_result \<Rightarrow> instant list" where
  "local_instants (SingleTime a) = [a]"
| "local_instants (AmbiguousTime a b) = sort [a, b]"
| "local_instants NoTime = []"

text \<open>Hour, minute, and whether the date is one of the schedule.\<close>

fun date_match :: "calendar \<Rightarrow> schedule \<Rightarrow> int \<Rightarrow> nat \<times> nat \<times> bool" where
  "date_match cal (Daily h m) date = (unat h, unat m, True)"
| "date_match cal (Weekly w h m) date = (unat h, unat m, days_from_monday date = unat w)"
| "date_match cal (Monthly d h m) date = (unat h, unat m, ca_month_day cal date = unat d)"
| "date_match cal (RestrictedCron ws h m) date =
     (unat h, unat m, ws = [] \<or> days_from_monday date \<in> unat ` set ws)"
| "date_match cal (Once _) date = (0, 0, False)"

fun search_dates :: "calendar \<Rightarrow> string \<Rightarrow> schedule \<Rightarrow> instant \<Rightarrow> int list \<Rightarrow> instant option res" where
  "search_dates cal zone s after [] = Inr None"
| "search_dates cal zone s after (date # dates) =
     (case date_match cal s date of (hour, minute, matches_date) \<Rightarrow>
        if \<not> matches_date then search_dates cal zone s after dates
        else if hour \<ge> 24 \<or> minute \<ge> 60 then Inl ''automation schedule time is invalid''
        else (case find (\<lambda>v. v > after) (local_instants (ca_from_local cal zone date hour minute)) of
                Some v \<Rightarrow> Inr (Some v)
              | None \<Rightarrow> search_dates cal zone s after dates))"

definition searched_dates :: "calendar \<Rightarrow> string \<Rightarrow> instant \<Rightarrow> int list" where
  "searched_dates cal zone after = map (\<lambda>k. ca_local_date cal zone after + int k) [0..<401]"

definition next_scheduled_at :: "calendar \<Rightarrow> automation_definition \<Rightarrow> instant \<Rightarrow> instant option res" where
  "next_scheduled_at cal d after =
     (case ad_schedule d of
        Once run_at \<Rightarrow> Inr (if run_at > after then Some run_at else None)
      | s \<Rightarrow>
          if \<not> ca_zone cal (ad_timezone d) then Inl ''automation timezone is invalid''
          else search_dates cal (ad_timezone d) s after (searched_dates cal (ad_timezone d) after))"

section \<open>The tables\<close>

record definition_row =
  dn_id :: uuid
  dn_definition :: automation_definition
  dn_status :: automation_status
  dn_revision :: int
  dn_updated_at :: instant

record automation_row =
  mw_id :: uuid
  mw_definition_id :: uuid
  mw_trigger_window_key :: string
  mw_scheduled_for :: instant
  mw_run :: automation_run
  mw_status :: automation_run_status
  mw_definition_revision :: int
  mw_claimed_by :: "string option"
  mw_updated_at :: instant

record review_row =
  vw_id :: uuid
  vw_automation_run_id :: uuid
  vw_item :: review_item
  vw_status :: review_status
  vw_revision :: int
  vw_updated_at :: instant

record auto_store =
  at_runs :: run_store
  at_definitions :: "definition_row list"
  at_automations :: "automation_row list"
  at_checkpoints :: "automation_checkpoint list"
  at_reviews :: "review_row list"

record auto_env =
  av_run :: run_env
  av_calendar :: calendar
  av_review_json :: review_json

text \<open>\<open>i64::try_from\<close> on an unsigned 64-bit number.\<close>

definition i64_of_u64 :: "u64 \<Rightarrow> int option" where
  "i64_of_u64 n = (if uint n < 2 ^ 63 then Some (uint n) else None)"

definition no_row :: "'a option \<Rightarrow> 'a store_res" where
  "no_row x = ok_or x (SqliteError ''Query returned no rows'')"

section \<open>Operations on definitions\<close>

definition definition_changed :: store_error where
  "definition_changed = InvalidState ''automation definition revision changed''"

definition upsert_automation_definition ::
    "automation_definition \<Rightarrow> auto_store \<Rightarrow> (automation_definition \<times> auto_store) store_res" where
  "upsert_automation_definition d st =
     bind_res
        (case row_of dn_id (at_definitions st) (ad_id d) of
           Some w \<Rightarrow>
             if ad_revision d \<noteq> ad_revision (dn_definition w) then Inl definition_changed
             else if ad_revision (dn_definition w) = - 1
             then Inl (InvalidState ''automation definition revision is exhausted'')
             else Inr (d\<lparr>ad_revision := ad_revision (dn_definition w) + 1\<rparr>)
         | None \<Rightarrow>
             if ad_revision d \<noteq> 0
             then Inl (InvalidState ''new automation definition revision is invalid'') else Inr d)
        (\<lambda>p.
      bind_res (ok_or (i64_of_u64 (ad_revision p))
        (InvalidState ''automation definition revision is too large'')) (\<lambda>n.
      let new = \<lparr>dn_id = ad_id d, dn_definition = p, dn_status = ad_status p, dn_revision = n,
                  dn_updated_at = ad_updated_at p\<rparr> in
      if (case row_of dn_id (at_definitions st) (ad_id d) of None \<Rightarrow> False | Some w \<Rightarrow> dn_revision w \<noteq> n - 1)
      then Inl definition_changed
      else Inr (p, st\<lparr>at_definitions := upsert_row dn_id (ad_id d) new (\<lambda>_. new) (at_definitions st)\<rparr>)))"

definition automation_definition_of :: "auto_store \<Rightarrow> uuid \<Rightarrow> automation_definition store_res" where
  "automation_definition_of st i = no_row (map_option dn_definition (row_of dn_id (at_definitions st) i))"

definition set_automation_definition_status ::
    "uuid \<Rightarrow> automation_status \<Rightarrow> instant \<Rightarrow> auto_store \<Rightarrow> (automation_definition \<times> auto_store) store_res" where
  "set_automation_definition_status i status at st =
     bind_res (automation_definition_of st i) (\<lambda>d.
       upsert_automation_definition (d\<lparr>ad_status := status, ad_updated_at := at\<rparr>) st)"

definition update_automation_goal ::
    "uuid \<Rightarrow> string \<Rightarrow> instant \<Rightarrow> auto_store \<Rightarrow> (automation_definition \<times> auto_store) store_res" where
  "update_automation_goal i goal at st =
     bind_res (automation_definition_of st i) (\<lambda>d.
       if trim goal = [] then Inl (InvalidState ''automation goal is required'')
       else if ad_status d = AutomationDeleted
       then Inl (InvalidState ''deleted automation cannot be edited'')
       else upsert_automation_definition (d\<lparr>ad_goal := trim goal, ad_updated_at := at\<rparr>) st)"

definition list_automation_definitions :: "auto_store \<Rightarrow> automation_definition list" where
  "list_automation_definitions st = map dn_definition (sort_key dn_updated_at (at_definitions st))"

section \<open>Due windows\<close>

definition last_scheduled :: "automation_row list \<Rightarrow> uuid \<Rightarrow> instant option" where
  "last_scheduled rows i =
     (case map mw_scheduled_for (filter (\<lambda>w. mw_definition_id w = i) rows) of
        [] \<Rightarrow> None | t # ts \<Rightarrow> Some (fold max ts t))"

fun latest_due ::
    "nat \<Rightarrow> (instant \<Rightarrow> instant option res) \<Rightarrow> instant \<Rightarrow> instant option \<Rightarrow> instant option res" where
  "latest_due 0 nxt now c = Inr c"
| "latest_due (Suc n) nxt now None = Inr None"
| "latest_due (Suc n) nxt now (Some current) =
     bind_res (nxt current) (\<lambda>following.
       if is_some_and following (\<lambda>v. v \<le> now) then latest_due n nxt now following
       else Inr (Some current))"

definition due_automation_window ::
    "calendar \<Rightarrow> automation_row list \<Rightarrow> automation_definition \<Rightarrow> instant \<Rightarrow> instant option store_res" where
  "due_automation_window cal rows d now =
     bind_res
       (case (ad_schedule d, last_scheduled rows (ad_id d)) of
          (Once run_at, None) \<Rightarrow> Inr (Some run_at)
        | (Once _, Some _) \<Rightarrow> Inr None
        | (_, latest) \<Rightarrow> invalid_state
            (bind_res (next_scheduled_at cal d (case latest of Some t \<Rightarrow> t | None \<Rightarrow> ad_created_at d - 1))
              (latest_due 5000 (next_scheduled_at cal d) now)))
       (\<lambda>nxt. Inr (case nxt of None \<Rightarrow> None | Some t \<Rightarrow> if t \<le> now then Some t else None))"

definition trigger_window_key :: "auto_env \<Rightarrow> uuid \<Rightarrow> instant \<Rightarrow> string" where
  "trigger_window_key env i t =
     ge_uuid_text (rv_goal (av_run env)) i @ '':'' @ rv_rfc3339 (av_run env) t"

text \<open>\<open>num_seconds\<close> of the time since the window, which lies in the past.\<close>

definition missed_window :: "automation_definition \<Rightarrow> instant \<Rightarrow> instant \<Rightarrow> bool" where
  "missed_window d now scheduled \<longleftrightarrow>
     (now - scheduled) div 1000000000 > (case i64_of_u64 (ad_missed_after_seconds d) of Some n \<Rightarrow> n | None \<Rightarrow> 2 ^ 63 - 1)"

definition skips_window :: "automation_definition \<Rightarrow> instant \<Rightarrow> instant \<Rightarrow> bool" where
  "skips_window d now scheduled \<longleftrightarrow> missed_window d now scheduled \<and> ad_missed_run_policy d = MissedSkip"

definition queued_automation_run ::
    "uuid \<Rightarrow> automation_definition \<Rightarrow> string \<Rightarrow> instant \<Rightarrow> bool \<Rightarrow> uuid option \<Rightarrow> string \<Rightarrow> instant \<Rightarrow> automation_run" where
  "queued_automation_run i d key scheduled skip agent worker now =
     \<lparr>am_id = i, am_definition_id = ad_id d, am_definition_revision = ad_revision d, am_trigger_window_key = key,
      am_scheduled_for = scheduled, am_status = (if skip then AutoCancelled else AutoQueued), am_attempt = 0,
      am_agent_run_id = agent, am_review_queue_item_id = None,
      am_last_error = (if skip then Some ''missed trigger window skipped by policy'' else None),
      am_claimed_by = Some worker, am_claimed_at = Some now, am_created_at = now, am_updated_at = now\<rparr>"

text \<open>\<open>INSERT OR IGNORE\<close>: the identifier and the window of a definition are unique.\<close>

definition insert_automation_run ::
    "automation_run \<Rightarrow> string \<Rightarrow> instant \<Rightarrow> auto_store \<Rightarrow> (bool \<times> auto_store) store_res" where
  "insert_automation_run r worker now st =
     bind_res (ok_or (i64_of_u64 (am_definition_revision r))
       (InvalidState ''automation run definition revision is too large'')) (\<lambda>n.
       if (\<exists>w \<in> set (at_automations st). mw_id w = am_id r
             \<or> (mw_definition_id w = am_definition_id r \<and> mw_trigger_window_key w = am_trigger_window_key r))
       then Inr (False, st)
       else Inr (True, st\<lparr>at_automations := at_automations st @
              [\<lparr>mw_id = am_id r, mw_definition_id = am_definition_id r,
                mw_trigger_window_key = am_trigger_window_key r, mw_scheduled_for = am_scheduled_for r,
                mw_run = r, mw_status = am_status r, mw_definition_revision = n,
                mw_claimed_by = Some worker, mw_updated_at = now\<rparr>]\<rparr>))"

definition insert_started_event ::
    "uuid \<Rightarrow> instant \<Rightarrow> run_start \<Rightarrow> auto_store \<Rightarrow> auto_store store_res" where
  "insert_started_event i at s st =
     (if i \<in> event_ids (at_runs st) then Inl (SqliteError ''UNIQUE constraint failed: kernel_events.id'')
      else Inr (st\<lparr>at_runs := (at_runs st)\<lparr>rn_runs := rn_runs (at_runs st) @
             [\<lparr>ke_id = i, ke_payload = RunStarted s, ke_created_at = at\<rparr>]\<rparr>\<rparr>))"

definition claim_due_automation_run ::
    "auto_env \<Rightarrow> uuid \<Rightarrow> uuid \<Rightarrow> instant \<Rightarrow> string \<Rightarrow> auto_store \<Rightarrow> (automation_run option \<times> auto_store) store_res" where
  "claim_due_automation_run env new_id i now worker st =
     bind_res (automation_definition_of st i) (\<lambda>d.
       if ad_status d \<noteq> AutomationEnabled then Inr (None, st)
       else bind_res (due_automation_window (av_calendar env) (at_automations st) d now) (\<lambda>due.
         case due of None \<Rightarrow> Inr (None, st)
         | Some scheduled \<Rightarrow>
             let skip = skips_window d now scheduled;
                 r = queued_automation_run new_id d (trigger_window_key env (ad_id d) scheduled) scheduled skip None worker now in
             bind_res (insert_automation_run r worker now st) (\<lambda>(inserted, st).
               Inr (if inserted \<and> \<not> skip then Some r else None, st))))"

text \<open>
  The identifiers and instants drawn: of the agent run (\<open>run_id\<close>, \<open>run_at\<close>), of the automation run
  and of the event.
\<close>

definition enqueue_due_automation_agent_run ::
    "auto_env \<Rightarrow> uuid \<Rightarrow> instant \<Rightarrow> uuid \<Rightarrow> uuid \<Rightarrow> instant \<Rightarrow> uuid \<Rightarrow> instant \<Rightarrow> string \<Rightarrow> string \<Rightarrow> auto_store
     \<Rightarrow> ((automation_run \<times> run_start) option \<times> auto_store) store_res" where
  "enqueue_due_automation_agent_run env run_id run_at new_id event_id event_at i now scheduler conversation st =
     bind_res (automation_definition_of st i) (\<lambda>d.
       if ad_status d \<noteq> AutomationEnabled then Inr (None, st)
       else bind_res (due_automation_window (av_calendar env) (at_automations st) d now) (\<lambda>due.
         case due of None \<Rightarrow> Inr (None, st)
         | Some scheduled \<Rightarrow>
             let skip = skips_window d now scheduled in
             bind_res (invalid_state (start_queued run_id run_at conversation (ad_goal d) 0)) (\<lambda>s.
             let r = queued_automation_run new_id d (trigger_window_key env (ad_id d) scheduled) scheduled skip
                       (if skip then None else Some (rs_id s)) scheduler now in
             bind_res (insert_automation_run r scheduler now st) (\<lambda>(inserted, st1).
               if \<not> inserted then Inr (None, st)
               else if skip then Inr (None, st1)
               else bind_res (insert_started_event event_id event_at s st1) (\<lambda>st2.
                 Inr (Some (r, s), st2))))))"

definition enqueue_manual_automation_agent_run ::
    "auto_env \<Rightarrow> uuid \<Rightarrow> instant \<Rightarrow> uuid \<Rightarrow> uuid \<Rightarrow> instant \<Rightarrow> uuid \<Rightarrow> uuid \<Rightarrow> instant \<Rightarrow> string \<Rightarrow> auto_store
     \<Rightarrow> ((automation_run \<times> run_start) \<times> auto_store) store_res" where
  "enqueue_manual_automation_agent_run env run_id run_at new_id event_id event_at i manual now conversation st =
     bind_res (automation_definition_of st i) (\<lambda>d.
       if ad_status d = AutomationDeleted then Inl (InvalidState ''deleted automation cannot run'')
       else bind_res (invalid_state (start_queued run_id run_at conversation (ad_goal d) 0)) (\<lambda>s.
         let r = queued_automation_run new_id d (''manual:'' @ ge_uuid_text (rv_goal (av_run env)) manual) now False
                   (Some (rs_id s)) ''manual'' now in
         bind_res (insert_automation_run r ''manual'' now st) (\<lambda>(inserted, st1).
           if \<not> inserted then Inl (InvalidState ''manual automation invocation already exists'')
           else bind_res (insert_started_event event_id event_at s st1) (\<lambda>st2. Inr ((r, s), st2)))))"

section \<open>Operations on runs\<close>

definition list_automation_runs :: "auto_store \<Rightarrow> automation_run list" where
  "list_automation_runs st = map mw_run (sort_key mw_scheduled_for (at_automations st))"

definition automation_run_of :: "auto_store \<Rightarrow> uuid \<Rightarrow> automation_run store_res" where
  "automation_run_of st i = no_row (map_option mw_run (row_of mw_id (at_automations st) i))"

definition persist_automation_run :: "automation_run \<Rightarrow> auto_store \<Rightarrow> auto_store store_res" where
  "persist_automation_run r st =
     bind_res (ok_or (i64_of_u64 (am_definition_revision r))
       (InvalidState ''automation run definition revision is too large'')) (\<lambda>n.
       Inr (st\<lparr>at_automations := update_row mw_id (am_id r)
         (\<lambda>w. w\<lparr>mw_run := r, mw_status := am_status r, mw_definition_revision := n,
                 mw_claimed_by := am_claimed_by r, mw_updated_at := am_updated_at r\<rparr>) (at_automations st)\<rparr>))"

definition transition_automation_run ::
    "uuid \<Rightarrow> automation_run_status \<Rightarrow> uuid option \<Rightarrow> string option \<Rightarrow> instant \<Rightarrow> auto_store
     \<Rightarrow> (automation_run \<times> auto_store) store_res" where
  "transition_automation_run i status agent error at st =
     bind_res (automation_run_of st i) (\<lambda>r.
     if \<not> automation_run_transition_allowed (am_status r) status
     then Inl (InvalidState (''automation run cannot transition from '' @ automation_status_debug (am_status r)
            @ '' to '' @ automation_status_debug status))
     else bind_res
       (if am_status r = AutoFailed \<and> status = AutoQueued
        then bind_res (automation_definition_of st (am_definition_id r)) (\<lambda>d.
          if am_attempt r \<ge> ad_retry_limit d then Inl (InvalidState ''automation retry limit reached'')
          else Inr (r\<lparr>am_attempt := am_attempt r + 1\<rparr>))
        else Inr r)
       (\<lambda>r. let r = r\<lparr>am_agent_run_id := (if agent = None then am_agent_run_id r else agent),
                      am_status := status, am_last_error := error, am_updated_at := at\<rparr> in
          bind_res (persist_automation_run r st) (\<lambda>st. Inr (r, st))))"

fun agent_target :: "run_status \<Rightarrow> automation_run_status" where
  "agent_target Queued = AutoQueued"
| "agent_target Running = AutoRunning"
| "agent_target WaitingForPrerequisite = AutoWaitingReview"
| "agent_target WaitingForConfirmation = AutoWaitingApproval"
| "agent_target Completed = AutoCompleted"
| "agent_target Failed = AutoFailed"
| "agent_target Blocked = AutoFailed"
| "agent_target Cancelled = AutoCancelled"
| "agent_target CancelRequested = AutoCancelled"

text \<open>Every transition commits on its own, so a failing one keeps those before it and ends the loop.\<close>

fun reconcile_loop ::
    "(uuid \<rightharpoonup> run_record) \<Rightarrow> instant \<Rightarrow> automation_run list \<Rightarrow> nat \<Rightarrow> auto_store \<Rightarrow> nat store_res \<times> auto_store" where
  "reconcile_loop agents at [] n st = (Inr n, st)"
| "reconcile_loop agents at (r # rs) n st =
     (case Option.bind (am_agent_run_id r) agents of
        None \<Rightarrow> reconcile_loop agents at rs n st
      | Some g \<Rightarrow>
          let target = agent_target (rec_status g) in
          if am_status r = target then reconcile_loop agents at rs n st
          else (case transition_automation_run (am_id r) target None (rec_finish_error g) at st of
                  Inl e \<Rightarrow> (Inl e, st)
                | Inr (_, st) \<Rightarrow> reconcile_loop agents at rs (Suc n) st))"

definition reconcile_automation_agent_runs ::
    "auto_env \<Rightarrow> instant \<Rightarrow> auto_store \<Rightarrow> nat store_res \<times> auto_store" where
  "reconcile_automation_agent_runs env at st =
     (case list_agent_run_records (av_run env) (at_runs st) of
        Inl e \<Rightarrow> (Inl e, st)
      | Inr rs \<Rightarrow> reconcile_loop (last_by rec_id rs) at (list_automation_runs st) 0 st)"

definition link_automation_run_to_agent_run ::
    "auto_env \<Rightarrow> uuid \<Rightarrow> uuid \<Rightarrow> instant \<Rightarrow> auto_store \<Rightarrow> (automation_run \<times> auto_store) store_res" where
  "link_automation_run_to_agent_run env i agent at st =
     bind_res (fst (ensure_agent_run_exists (av_run env) agent (at_runs st))) (\<lambda>_.
     bind_res (automation_run_of st i) (\<lambda>r.
       case am_agent_run_id r of
         Some existing \<Rightarrow>
           if existing \<noteq> agent
           then Inl (InvalidState ''automation run is already linked to another agent run'') else Inr (r, st)
       | None \<Rightarrow>
           let r = r\<lparr>am_agent_run_id := Some agent, am_updated_at := at\<rparr> in
           bind_res (persist_automation_run r st) (\<lambda>st. Inr (r, st))))"

definition upsert_automation_checkpoint :: "automation_checkpoint \<Rightarrow> auto_store \<Rightarrow> auto_store" where
  "upsert_automation_checkpoint c st =
     st\<lparr>at_checkpoints := upsert_row ak_automation_run_id (ak_automation_run_id c) c (\<lambda>_. c) (at_checkpoints st)\<rparr>"

definition automation_checkpoint_of :: "auto_store \<Rightarrow> uuid \<Rightarrow> automation_checkpoint store_res" where
  "automation_checkpoint_of st i = no_row (row_of ak_automation_run_id (at_checkpoints st) i)"

section \<open>Operations on reviews\<close>

definition list_review_queue_items :: "auto_store \<Rightarrow> review_item list" where
  "list_review_queue_items st = map vw_item (sort_key vw_updated_at (at_reviews st))"

definition review_queue_item :: "auto_store \<Rightarrow> uuid \<Rightarrow> review_item store_res" where
  "review_queue_item st i = no_row (map_option vw_item (row_of vw_id (at_reviews st) i))"

text \<open>\<open>UPDATE automation_runs SET run_json, updated_at\<close>: the other columns stay.\<close>

definition touch_automation_run :: "automation_run \<Rightarrow> auto_store \<Rightarrow> auto_store" where
  "touch_automation_run r st =
     st\<lparr>at_automations := update_row mw_id (am_id r)
       (\<lambda>w. w\<lparr>mw_run := r, mw_updated_at := am_updated_at r\<rparr>) (at_automations st)\<rparr>"

definition review_row_for :: "review_item \<Rightarrow> review_row \<Rightarrow> review_row" where
  "review_row_for r w =
     w\<lparr>vw_item := r, vw_status := ri_status r, vw_revision := uint (ri_revision r), vw_updated_at := ri_updated_at r\<rparr>"

definition new_review_row :: "review_item \<Rightarrow> review_row" where
  "new_review_row r =
     \<lparr>vw_id = ri_id r, vw_automation_run_id = ri_automation_run_id r, vw_item = r, vw_status = ri_status r,
      vw_revision = uint (ri_revision r), vw_updated_at = ri_updated_at r\<rparr>"

text \<open>
  The conflict on the identifier is resolved first; a second review of one automation run violates
  the other unique column.
\<close>

definition write_review_row :: "review_item \<Rightarrow> auto_store \<Rightarrow> auto_store store_res" where
  "write_review_row r st =
     (case row_of vw_id (at_reviews st) (ri_id r) of
        Some w \<Rightarrow>
          if vw_revision w + 1 \<noteq> uint (ri_revision r)
          then Inl (InvalidState ''review item update raced with another writer'')
          else Inr (st\<lparr>at_reviews := update_row vw_id (ri_id r) (review_row_for r) (at_reviews st)\<rparr>)
      | None \<Rightarrow>
          if row_of vw_automation_run_id (at_reviews st) (ri_automation_run_id r) \<noteq> None
          then Inl (SqliteError ''UNIQUE constraint failed: review_queue_items.automation_run_id'')
          else Inr (st\<lparr>at_reviews := at_reviews st @ [new_review_row r]\<rparr>))"

definition upsert_review_queue_item :: "review_item \<Rightarrow> auto_store \<Rightarrow> auto_store store_res" where
  "upsert_review_queue_item r st =
     (let existing = map_option vw_item (row_of vw_id (at_reviews st) (ri_id r)) in
      if existing = Some r then Inr st
      else if is_some_and existing (\<lambda>x. ri_revision r \<noteq> sat_inc (ri_revision x))
      then Inl (InvalidState ''review item revision is stale'')
      else bind_res (automation_run_of st (ri_automation_run_id r)) (\<lambda>m.
        if is_some_and (am_review_queue_item_id m) (\<lambda>i. i \<noteq> ri_id r)
        then Inl (InvalidState ''automation run already has a review queue item'')
        else bind_res (write_review_row r st) (\<lambda>st.
          Inr (touch_automation_run
            (m\<lparr>am_review_queue_item_id := Some (ri_id r), am_updated_at := ri_updated_at r\<rparr>) st))))"

text \<open>The approval request of the item's tool is to be denied; \<open>new_id\<close> is drawn by the resolution.\<close>

definition review_tool_approval_invalidation ::
    "auto_store \<Rightarrow> review_item \<Rightarrow> string \<Rightarrow> uuid \<Rightarrow> instant \<Rightarrow> permission_resolution option" where
  "review_tool_approval_invalidation st r note new_id now =
     Option.bind (ri_tool_invocation_id r) (\<lambda>tool.
     Option.bind (find (\<lambda>v. ti_id v = tool) (list_tool_invocations (gs_exec (rn_goals (at_runs st))))) (\<lambda>v.
       map_option (\<lambda>request. new_resolution new_id now request False note) (ti_approval_request_id v)))"

definition insert_resolution_event ::
    "uuid \<Rightarrow> instant \<Rightarrow> permission_resolution option \<Rightarrow> auto_store \<Rightarrow> auto_store store_res" where
  "insert_resolution_event i at resolution st =
     (case resolution of None \<Rightarrow> Inr st
      | Some p \<Rightarrow>
          if i \<in> event_ids (at_runs st) then Inl (SqliteError ''UNIQUE constraint failed: kernel_events.id'')
          else bind_res (insert_kernel_event \<lparr>ke_id = i, ke_payload = PermissionResolved p, ke_created_at = at\<rparr>
              (gs_exec (rn_goals (at_runs st)))) (\<lambda>x.
            Inr (st\<lparr>at_runs := (at_runs st)\<lparr>rn_goals := (rn_goals (at_runs st))\<lparr>gs_exec := x\<rparr>\<rparr>\<rparr>)))"

definition persist_review_item_transition ::
    "uuid \<Rightarrow> instant \<Rightarrow> review_item \<Rightarrow> u32 \<Rightarrow> permission_resolution option \<Rightarrow> auto_store \<Rightarrow> auto_store store_res" where
  "persist_review_item_transition event_id event_at r previous resolution st =
     bind_res (automation_run_of st (ri_automation_run_id r)) (\<lambda>m.
     if am_review_queue_item_id m \<noteq> Some (ri_id r)
     then Inl (InvalidState ''automation run is not linked to this review item'')
     else bind_res (insert_resolution_event event_id event_at resolution st) (\<lambda>st.
       if is_some_and (row_of vw_id (at_reviews st) (ri_id r)) (\<lambda>w. vw_revision w = uint previous)
       then Inr (touch_automation_run (m\<lparr>am_updated_at := ri_updated_at r\<rparr>)
              (st\<lparr>at_reviews := update_row vw_id (ri_id r) (review_row_for r) (at_reviews st)\<rparr>))
       else Inl (InvalidState ''review item transition raced with another writer'')))"

definition edit_review_queue_item ::
    "auto_env \<Rightarrow> uuid \<Rightarrow> instant \<Rightarrow> uuid \<Rightarrow> instant \<Rightarrow> uuid \<Rightarrow> string \<Rightarrow> string \<Rightarrow> string option \<Rightarrow> instant
     \<Rightarrow> auto_store \<Rightarrow> (review_item \<times> auto_store) store_res" where
  "edit_review_queue_item env new_id now event_id event_at i revision title fp at st =
     bind_res (review_queue_item st i) (\<lambda>r.
     bind_res (invalid_state (validate_action_revision (rv_sha (av_run env)) (av_review_json env) r revision)) (\<lambda>_.
     let resolution = review_tool_approval_invalidation st r ''Review preview changed'' new_id now in
     bind_res (invalid_state (edit_review r title fp at)) (\<lambda>r'.
     bind_res (persist_review_item_transition event_id event_at r' (ri_revision r) resolution st) (\<lambda>st.
       Inr (r', st)))))"

definition resolve_review_queue_item ::
    "auto_env \<Rightarrow> uuid \<Rightarrow> instant \<Rightarrow> uuid \<Rightarrow> instant \<Rightarrow> uuid \<Rightarrow> string \<Rightarrow> bool \<Rightarrow> instant
     \<Rightarrow> auto_store \<Rightarrow> (review_item \<times> auto_store) store_res" where
  "resolve_review_queue_item env new_id now event_id event_at i revision accepted at st =
     bind_res (review_queue_item st i) (\<lambda>r.
     bind_res (invalid_state (validate_action_revision (rv_sha (av_run env)) (av_review_json env) r revision)) (\<lambda>_.
     let resolution = (if accepted then None
           else review_tool_approval_invalidation st r ''Review item rejected'' new_id now) in
     bind_res (invalid_state (resolve_review r accepted at)) (\<lambda>r'.
     bind_res (persist_review_item_transition event_id event_at r' (ri_revision r) resolution st) (\<lambda>st.
       Inr (r', st)))))"

end
