(* ===== verification/Automation_Safety.thy ===== *)
theory Automation_Safety
  imports Automation Run_Store_Safety
begin

text \<open>
  What holds of automations: the next time of a schedule is the earliest one, no window fires twice,
  reconciliation brings every run to the status of its agent run or fails, an action on a review is
  spent once, and an approved action leaves evidence.
\<close>

section \<open>The calendar\<close>

definition scheduled_on :: "calendar \<Rightarrow> automation_definition \<Rightarrow> int \<Rightarrow> instant \<Rightarrow> bool" where
  "scheduled_on cal d date t \<longleftrightarrow>
     (case date_match cal (ad_schedule d) date of (hour, minute, matches_date) \<Rightarrow>
        matches_date \<and> t \<in> set (local_instants (ca_from_local cal (ad_timezone d) date hour minute)))"

text \<open>Later dates have later instants: the law of the calendar the schedule relies on.\<close>

definition dates_in_order :: "calendar \<Rightarrow> string \<Rightarrow> bool" where
  "dates_in_order cal zone \<longleftrightarrow>
     (\<forall>date date' h m t t'. date < date' \<and> t \<in> set (local_instants (ca_from_local cal zone date h m)) \<and>
        t' \<in> set (local_instants (ca_from_local cal zone date' h m)) \<longrightarrow> t < t')"

definition recurring :: "schedule \<Rightarrow> bool" where
  "recurring s \<longleftrightarrow> (\<forall>t. s \<noteq> Once t)"

lemma local_instants_sorted: "sorted (local_instants r)"
  by (cases r) simp_all

lemma sorted_find_least:
  "sorted xs \<Longrightarrow> find (\<lambda>v. v > a) xs = Some t \<Longrightarrow> v \<in> set xs \<Longrightarrow> a < v \<Longrightarrow> t \<le> v" for a :: int
  by (induction xs) (auto split: if_splits)

lemma match_times:
  "recurring (ad_schedule d) \<Longrightarrow> \<exists>h m. \<forall>date. fst (date_match cal (ad_schedule d) date) = h \<and>
     fst (snd (date_match cal (ad_schedule d) date)) = m"
  by (cases "ad_schedule d") (auto simp: recurring_def)

text \<open>What the search over consecutive dates finds.\<close>

lemma search_dates_result:
  assumes "search_dates cal (ad_timezone d) (ad_schedule d) after dates = Inr r"
  shows "case r of
      None \<Rightarrow> \<forall>date \<in> set dates. \<forall>t. scheduled_on cal d date t \<longrightarrow> t \<le> after
    | Some t \<Rightarrow> after < t \<and> (\<exists>before date rest. dates = before @ date # rest \<and> scheduled_on cal d date t \<and>
        (\<forall>x \<in> set before. \<forall>u. scheduled_on cal d x u \<longrightarrow> u \<le> after) \<and>
        (\<forall>u. scheduled_on cal d date u \<and> after < u \<longrightarrow> t \<le> u))"
  using assms
proof (induction dates arbitrary: r)
  case (Cons date dates)
  obtain h m ok where mt: "date_match cal (ad_schedule d) date = (h, m, ok)" by (metis prod_cases3)
  let ?found = "find (\<lambda>v. v > after) (local_instants (ca_from_local cal (ad_timezone d) date h m))"
  have later: ?case if none: "\<And>u. scheduled_on cal d date u \<Longrightarrow> u \<le> after"
    and rest: "search_dates cal (ad_timezone d) (ad_schedule d) after dates = Inr r"
  proof (cases r)
    case None
    then show ?thesis using Cons.IH [OF rest] none by auto
  next
    case (Some t)
    then obtain before x more where b: "after < t" "dates = before @ x # more" "scheduled_on cal d x t"
      "\<forall>y \<in> set before. \<forall>u. scheduled_on cal d y u \<longrightarrow> u \<le> after"
      "\<forall>u. scheduled_on cal d x u \<and> after < u \<longrightarrow> t \<le> u"
      using Cons.IH [OF rest] by auto
    have "\<forall>y \<in> set (date # before). \<forall>u. scheduled_on cal d y u \<longrightarrow> u \<le> after" using b(4) none by simp
    then show ?thesis unfolding Some option.simps
      by (intro conjI b(1) exI [of _ "date # before"] exI [of _ x] exI [of _ more] b(3,5)) (simp_all add: b(2))
  qed
  show ?case
  proof (cases ok)
    case False
    then show ?thesis using later Cons.prems mt by (simp add: scheduled_on_def)
  next
    case True
    then have hm: "h < 24" "m < 60" using Cons.prems mt by (auto simp: not_le split: if_splits)
    show ?thesis
    proof (cases ?found)
      case None
      then have "\<And>u. scheduled_on cal d date u \<Longrightarrow> u \<le> after"
        using mt by (auto simp: scheduled_on_def find_None_iff not_less)
      then show ?thesis using later Cons.prems mt True hm None by (simp add: not_le)
    next
      case (Some t)
      then have r: "r = Some t" using Cons.prems mt True hm by (simp add: not_le)
      have "after < t" "scheduled_on cal d date t"
        using Some mt True by (auto simp: scheduled_on_def find_Some_iff)
      moreover have "\<forall>u. scheduled_on cal d date u \<and> after < u \<longrightarrow> t \<le> u"
        using sorted_find_least [OF local_instants_sorted Some] mt by (auto simp: scheduled_on_def)
      ultimately show ?thesis unfolding r by (auto intro!: exI [of _ "[]"])
    qed
  qed
qed simp

lemma searched_dates_nth: "searched_dates cal zone after = before @ date # rest \<Longrightarrow>
    date = ca_local_date cal zone after + int (length before) \<and>
    set before = (\<lambda>k. ca_local_date cal zone after + int k) ` {..<length before} \<and> length before \<le> 400"
proof -
  assume a: "searched_dates cal zone after = before @ date # rest"
  have len: "length before + Suc (length rest) = 401"
    using arg_cong [OF a, of length] by (simp add: searched_dates_def)
  have "date = searched_dates cal zone after ! length before" by (simp add: a)
  then have "date = ca_local_date cal zone after + int (length before)" using len by (simp add: searched_dates_def)
  moreover have "before = take (length before) (searched_dates cal zone after)" by (simp add: a)
  then have "before = map (\<lambda>k. ca_local_date cal zone after + int k) [0..<length before]"
    using len by (simp add: searched_dates_def take_map)
  then have "set before = (\<lambda>k. ca_local_date cal zone after + int k) ` {..<length before}"
    by (metis atLeast_upt image_set)
  ultimately show ?thesis using len by simp
qed

text \<open>
  C32: The next run of a recurring schedule is the earliest. If the calendar orders the instants of
  later dates later, the search returns the first instant after the given one at which the schedule
  fires on one of the 401 dates from the local date on, and nothing only if there is none.
\<close>

theorem next_run_is_earliest:
  assumes "recurring (ad_schedule d)" and "dates_in_order cal (ad_timezone d)" and "next_scheduled_at cal d after = Inr r"
  shows "case r of
      None \<Rightarrow> \<forall>k \<le> 400. \<forall>t. scheduled_on cal d (ca_local_date cal (ad_timezone d) after + int k) t \<longrightarrow> t \<le> after
    | Some t \<Rightarrow> after < t \<and>
        (\<exists>k \<le> 400. scheduled_on cal d (ca_local_date cal (ad_timezone d) after + int k) t) \<and>
        (\<forall>k u. scheduled_on cal d (ca_local_date cal (ad_timezone d) after + int k) u \<and> after < u \<longrightarrow> t \<le> u)"
proof -
  let ?date = "\<lambda>k. ca_local_date cal (ad_timezone d) after + int k"
  let ?dates = "searched_dates cal (ad_timezone d) after"
  have s: "search_dates cal (ad_timezone d) (ad_schedule d) after ?dates = Inr r"
    using assms(1,3) by (auto simp: next_scheduled_at_def recurring_def split: schedule.splits if_splits)
  have all: "set ?dates = ?date ` {..400}" by (auto simp: searched_dates_def)
  show ?thesis
  proof (cases r)
    case None
    then show ?thesis using search_dates_result [OF s] all by auto
  next
    case (Some t)
    then obtain before x rest where b: "after < t" "?dates = before @ x # rest" "scheduled_on cal d x t"
      "\<forall>y \<in> set before. \<forall>u. scheduled_on cal d y u \<longrightarrow> u \<le> after"
      "\<forall>u. scheduled_on cal d x u \<and> after < u \<longrightarrow> t \<le> u"
      using search_dates_result [OF s] by auto
    note n = searched_dates_nth [OF b(2)]
    have "t \<le> u" if u: "scheduled_on cal d (?date k) u" "after < u" for k u
    proof (cases k "length before" rule: linorder_cases)
      case less
      then show ?thesis using b(4) n u by force
    next
      case equal
      then show ?thesis using b(5) n u by simp
    next
      case greater
      obtain h m where "\<forall>date. fst (date_match cal (ad_schedule d) date) = h \<and>
          fst (snd (date_match cal (ad_schedule d) date)) = m"
        using match_times [OF assms(1)] by blast
      then have "t < u" using assms(2) b(3) u(1) n greater
        unfolding scheduled_on_def dates_in_order_def by (auto split: prod.splits) (metis fst_conv snd_conv of_nat_less_iff add_less_cancel_left)
      then show ?thesis by simp
    qed
    then show ?thesis using Some b(1,3) n by auto
  qed
qed

section \<open>Due windows\<close>

lemma search_dates_later: "search_dates cal zone s after dates = Inr (Some t) \<Longrightarrow> after < t"
  by (induction dates) (auto simp: find_Some_iff split: prod.splits if_splits option.splits)

lemma next_scheduled_later: "next_scheduled_at cal d after = Inr (Some t) \<Longrightarrow> after < t"
  by (auto simp: next_scheduled_at_def dest: search_dates_later split: schedule.splits if_splits)

lemma latest_due_later:
  assumes "\<And>a b. nxt a = Inr (Some b) \<Longrightarrow> a < b" and "latest_due n nxt now (Some c) = Inr (Some t)"
  shows "c \<le> t"
  using assms(2)
proof (induction n arbitrary: c)
  case (Suc n)
  then obtain f where f: "nxt c = Inr f"
    "(if is_some_and f (\<lambda>v. v \<le> now) then latest_due n nxt now f else Inr (Some c)) = Inr (Some t)"
    by (auto simp: bind_res_Inr_iff)
  show ?case
  proof (cases "is_some_and f (\<lambda>v. v \<le> now)")
    case True
    then obtain v where v: "f = Some v" by (cases f) auto
    then have "v \<le> t" using f(2) True Suc.IH by simp
    then show ?thesis using assms(1) [of c v] f(1) v by simp
  next
    case False
    then show ?thesis using f(2) by simp
  qed
qed simp

lemma latest_due_None: "latest_due n nxt now None = Inr r \<Longrightarrow> r = None"
  by (cases n) auto

lemma last_scheduled_ge:
  "last_scheduled rows i = Some t \<Longrightarrow> w \<in> set rows \<Longrightarrow> mw_definition_id w = i \<Longrightarrow> mw_scheduled_for w \<le> t"
proof -
  have fold_ge: "(a :: int) \<le> fold max ts a \<and> (\<forall>x \<in> set ts. x \<le> fold max ts a)" for a ts
  proof (induction ts arbitrary: a)
    case (Cons x ts)
    have "max x a \<le> fold max ts (max x a)" "\<forall>y \<in> set ts. y \<le> fold max ts (max x a)"
      using Cons.IH by blast+
    then show ?case by simp
  qed simp
  assume a: "last_scheduled rows i = Some t" "w \<in> set rows" "mw_definition_id w = i"
  then have m: "mw_scheduled_for w \<in> set (map mw_scheduled_for (filter (\<lambda>w. mw_definition_id w = i) rows))" by simp
  obtain z zs where z: "map mw_scheduled_for (filter (\<lambda>w. mw_definition_id w = i) rows) = z # zs" "t = fold max zs z"
    using a(1) unfolding last_scheduled_def by (auto split: list.splits)
  then show "mw_scheduled_for w \<le> t" using m fold_ge [of z zs] by auto
qed

lemma last_scheduled_None: "last_scheduled rows i = None \<longleftrightarrow> (\<forall>w \<in> set rows. mw_definition_id w \<noteq> i)"
proof -
  have "last_scheduled rows i = None \<longleftrightarrow> filter (\<lambda>w. mw_definition_id w = i) rows = []"
    by (cases "filter (\<lambda>w. mw_definition_id w = i) rows") (simp_all add: last_scheduled_def)
  then show ?thesis by (simp add: filter_empty_conv)
qed

text \<open>A due window lies in the past and after every recorded one of the definition.\<close>

lemma due_window_new:
  assumes "due_automation_window cal rows d now = Inr (Some t)"
  shows "t \<le> now" and "\<And>w. w \<in> set rows \<Longrightarrow> mw_definition_id w = ad_id d \<Longrightarrow> mw_scheduled_for w < t"
proof -
  show "t \<le> now" using assms by (auto simp: due_automation_window_def bind_res_Inr_iff split: option.splits if_splits)
  fix w assume w: "w \<in> set rows" "mw_definition_id w = ad_id d"
  obtain l where l: "last_scheduled rows (ad_id d) = Some l" using w last_scheduled_None by fastforce
  have "\<exists>c. next_scheduled_at cal d l = Inr (Some c) \<and> latest_due 5000 (next_scheduled_at cal d) now (Some c) = Inr (Some t)"
    using assms l latest_due_None
    by (cases "ad_schedule d")
      (auto simp: due_automation_window_def bind_res_Inr_iff res_simps split: option.splits if_splits
        dest!: latest_due_None, (metis latest_due_None not_None_eq)+)
  then obtain c where c: "next_scheduled_at cal d l = Inr (Some c)"
    "latest_due 5000 (next_scheduled_at cal d) now (Some c) = Inr (Some t)" by blast
  have "l < c" using next_scheduled_later [OF c(1)] .
  also have "c \<le> t" by (rule latest_due_later [OF next_scheduled_later c(2)])
  finally show "mw_scheduled_for w < t" using last_scheduled_ge [OF l w] by simp
qed

lemma due_once:
  "ad_schedule d = Once t \<Longrightarrow> w \<in> set rows \<Longrightarrow> mw_definition_id w = ad_id d \<Longrightarrow>
     due_automation_window cal rows d now = Inr None"
  using last_scheduled_None [of rows "ad_id d"] by (auto simp: due_automation_window_def split: option.splits)

section \<open>Steps of the tables\<close>

inductive auto_next :: "auto_env \<Rightarrow> goal_json \<Rightarrow> auto_store \<Rightarrow> auto_store \<Rightarrow> bool" for env js where
  auto_runs: "run_next (av_run env) js (at_runs st) x \<Longrightarrow> auto_next env js st (st\<lparr>at_runs := x\<rparr>)"
| auto_define: "upsert_automation_definition d st = Inr (p, st') \<Longrightarrow> auto_next env js st st'"
| auto_status: "set_automation_definition_status i s at st = Inr (p, st') \<Longrightarrow> auto_next env js st st'"
| auto_goal: "update_automation_goal i g at st = Inr (p, st') \<Longrightarrow> auto_next env js st st'"
| auto_claim: "claim_due_automation_run env k i now worker st = Inr (r, st') \<Longrightarrow> auto_next env js st st'"
| auto_enqueue: "enqueue_due_automation_agent_run env k1 t1 k2 k3 t3 i now worker c st = Inr (r, st')
    \<Longrightarrow> auto_next env js st st'"
| auto_manual: "enqueue_manual_automation_agent_run env k1 t1 k2 k3 t3 i m now c st = Inr (x, st')
    \<Longrightarrow> auto_next env js st st'"
| auto_reconcile: "auto_next env js st (snd (reconcile_automation_agent_runs env at st))"
| auto_transition: "transition_automation_run i s agent e at st = Inr (r, st') \<Longrightarrow> auto_next env js st st'"
| auto_link: "link_automation_run_to_agent_run env i agent at st = Inr (r, st') \<Longrightarrow> auto_next env js st st'"
| auto_checkpoint: "auto_next env js st (upsert_automation_checkpoint c st)"
| auto_review: "upsert_review_queue_item item st = Inr st' \<Longrightarrow> auto_next env js st st'"
| auto_edit: "edit_review_queue_item env k t k' t' i v title fp at st = Inr (item, st') \<Longrightarrow> auto_next env js st st'"
| auto_resolve: "resolve_review_queue_item env k t k' t' i v ok at st = Inr (item, st') \<Longrightarrow> auto_next env js st st'"

definition auto_initial :: "auto_store \<Rightarrow> bool" where
  "auto_initial st \<longleftrightarrow> run_initial (at_runs st) \<and> at_definitions st = [] \<and> at_automations st = [] \<and>
     at_checkpoints st = [] \<and> at_reviews st = []"

section \<open>Rows of runs\<close>

definition manual_key :: "string \<Rightarrow> bool" where
  "manual_key k \<longleftrightarrow> starts_with ''manual:'' k"

definition row_agrees :: "automation_row \<Rightarrow> bool" where
  "row_agrees w \<longleftrightarrow>
     am_id (mw_run w) = mw_id w \<and> am_definition_id (mw_run w) = mw_definition_id w \<and>
     am_trigger_window_key (mw_run w) = mw_trigger_window_key w \<and> am_scheduled_for (mw_run w) = mw_scheduled_for w \<and>
     mw_status w = am_status (mw_run w)"

definition window_of :: "automation_row \<Rightarrow> uuid \<times> uuid \<times> string \<times> instant" where
  "window_of w = (mw_id w, mw_definition_id w, mw_trigger_window_key w, mw_scheduled_for w)"

definition windows_ok :: "(uuid \<times> uuid \<times> string \<times> instant) list \<Rightarrow> bool" where
  "windows_ok ws \<longleftrightarrow>
     distinct (map fst ws) \<and> distinct (map (\<lambda>(i, d, k, t). (d, k)) ws) \<and>
     sorted_wrt (\<lambda>(i, d, k, t) (i', d', k', t'). d = d' \<and> \<not> manual_key k' \<longrightarrow> t < t') ws"

definition runs_inv :: "auto_store \<Rightarrow> bool" where
  "runs_inv st \<longleftrightarrow> windows_ok (map window_of (at_automations st)) \<and> (\<forall>w \<in> set (at_automations st). row_agrees w)"

lemma update_windows:
  "(\<And>w. window_of (f w) = window_of w) \<Longrightarrow> map window_of (update_row mw_id i f rows) = map window_of rows"
  by (auto simp: update_row_def)

lemma run_read:
  "automation_run_of st i = Inr r \<Longrightarrow> \<exists>w \<in> set (at_automations st). mw_id w = i \<and> mw_run w = r"
  by (auto simp: automation_run_of_def no_row_def ok_or_Inr_iff dest: row_of_SomeD)

text \<open>An update of one run keeps the rows if the run keeps its window.\<close>

lemma update_keeps_runs:
  assumes inv: "runs_inv st" and w: "w \<in> set (at_automations st)"
    and r: "am_id r = mw_id w" "am_definition_id r = mw_definition_id w"
      "am_trigger_window_key r = mw_trigger_window_key w" "am_scheduled_for r = mw_scheduled_for w"
    and f: "\<And>v. window_of (f v) = window_of v" "\<And>v. mw_run (f v) = r"
      "\<And>v. mw_id v = mw_id w \<Longrightarrow> v \<in> set (at_automations st) \<Longrightarrow> mw_status (f v) = am_status r"
    and st': "at_automations st' = update_row mw_id (mw_id w) f (at_automations st)"
  shows "runs_inv st'"
proof -
  have dist: "distinct (map mw_id (at_automations st))"
    using inv by (simp add: runs_inv_def windows_ok_def window_of_def comp_def)
  have "row_agrees x" if x: "x \<in> set (at_automations st')" for x
  proof -
    obtain v where v: "v \<in> set (at_automations st)" "x = (if mw_id v = mw_id w then f v else v)"
      using x unfolding st' set_update by blast
    show ?thesis
    proof (cases "mw_id v = mw_id w")
      case True
      then have "v = w" using dist v(1) w by (metis inj_onD distinct_map)
      then show ?thesis using v f r f(1) [of w] f(3) [of w] w by (simp add: row_agrees_def window_of_def)
    next
      case False
      then show ?thesis using v inv by (simp add: runs_inv_def)
    qed
  qed
  then show ?thesis using inv f(1) by (simp add: runs_inv_def st' update_windows)
qed

lemma persist_keeps_runs:
  assumes "runs_inv st" and "w \<in> set (at_automations st)"
    and "am_id r = mw_id w" "am_definition_id r = mw_definition_id w"
      "am_trigger_window_key r = mw_trigger_window_key w" "am_scheduled_for r = mw_scheduled_for w"
    and "persist_automation_run r st = Inr st'"
  shows "runs_inv st'"
proof -
  obtain n where "st' = st\<lparr>at_automations := update_row mw_id (am_id r)
         (\<lambda>w. w\<lparr>mw_run := r, mw_status := am_status r, mw_definition_revision := n,
                 mw_claimed_by := am_claimed_by r, mw_updated_at := am_updated_at r\<rparr>) (at_automations st)\<rparr>"
    using assms(7) by (auto simp: persist_automation_run_def bind_res_Inr_iff)
  then show ?thesis
    by (intro update_keeps_runs [OF assms(1-6), where f = "\<lambda>w. w\<lparr>mw_run := r, mw_status := am_status r,
          mw_definition_revision := n, mw_claimed_by := am_claimed_by r, mw_updated_at := am_updated_at r\<rparr>"])
      (simp_all add: window_of_def assms(3))
qed

lemma touch_keeps_runs:
  assumes "runs_inv st" and "w \<in> set (at_automations st)" and "at_automations st' = at_automations st"
    and "am_id r = mw_id w" "am_definition_id r = mw_definition_id w"
      "am_trigger_window_key r = mw_trigger_window_key w" "am_scheduled_for r = mw_scheduled_for w"
      "am_status r = am_status (mw_run w)"
  shows "runs_inv (touch_automation_run r st')"
proof -
  let ?f = "\<lambda>v. v\<lparr>mw_run := r, mw_updated_at := am_updated_at r\<rparr>"
  have dist: "distinct (map mw_id (at_automations st))"
    using assms(1) by (simp add: runs_inv_def windows_ok_def window_of_def comp_def)
  have "mw_status (?f v) = am_status r" if v: "mw_id v = mw_id w" "v \<in> set (at_automations st)" for v
  proof -
    have "v = w" using dist v assms(2) by (metis inj_onD distinct_map)
    then show ?thesis using assms(1,2,8) by (simp add: runs_inv_def row_agrees_def)
  qed
  then show ?thesis
    by (intro update_keeps_runs [OF assms(1,2,4-7), where f = ?f])
      (simp_all add: touch_automation_run_def window_of_def assms(3,4))
qed

lemma run_row:
  assumes "runs_inv st" and "automation_run_of st i = Inr r"
  obtains w where "w \<in> set (at_automations st)" "mw_id w = i" "mw_run w = r" "am_id r = mw_id w"
    "am_definition_id r = mw_definition_id w" "am_trigger_window_key r = mw_trigger_window_key w"
    "am_scheduled_for r = mw_scheduled_for w"
  using run_read [OF assms(2)] assms(1) by (auto simp: runs_inv_def row_agrees_def)

lemma runs_inv_frame: "at_automations st' = at_automations st \<Longrightarrow> runs_inv st \<Longrightarrow> runs_inv st'"
  by (simp add: runs_inv_def)

text \<open>What a transition did.\<close>

definition retried :: "auto_store \<Rightarrow> automation_run \<Rightarrow> automation_run_status \<Rightarrow> u32 \<Rightarrow> bool" where
  "retried st r s n \<longleftrightarrow>
     (if am_status r = AutoFailed \<and> s = AutoQueued
      then n = am_attempt r + 1 \<and> (\<exists>d. automation_definition_of st (am_definition_id r) = Inr d \<and> am_attempt r < ad_retry_limit d)
      else n = am_attempt r)"

lemma transition_cases:
  assumes "transition_automation_run i s agent e at st = Inr (r, st')"
  obtains r0 n where "automation_run_of st i = Inr r0" "automation_run_transition_allowed (am_status r0) s"
    "retried st r0 s n"
    "r = r0\<lparr>am_attempt := n, am_agent_run_id := (if agent = None then am_agent_run_id r0 else agent),
            am_status := s, am_last_error := e, am_updated_at := at\<rparr>"
    "persist_automation_run r st = Inr st'"
proof -
  obtain r0 where r0: "automation_run_of st i = Inr r0"
    using assms unfolding transition_automation_run_def bind_res_Inr_iff by blast
  let ?retry = "if am_status r0 = AutoFailed \<and> s = AutoQueued
        then bind_res (automation_definition_of st (am_definition_id r0)) (\<lambda>d.
          if am_attempt r0 \<ge> ad_retry_limit d then Inl (InvalidState ''automation retry limit reached'')
          else Inr (r0\<lparr>am_attempt := am_attempt r0 + 1\<rparr>))
        else Inr r0"
  have ok: "automation_run_transition_allowed (am_status r0) s"
    using assms r0 by (simp add: transition_automation_run_def split: if_splits)
  obtain r1 where r1: "?retry = Inr r1"
    and rest: "bind_res (persist_automation_run (r1\<lparr>am_agent_run_id := (if agent = None then am_agent_run_id r1 else agent),
       am_status := s, am_last_error := e, am_updated_at := at\<rparr>) st) (\<lambda>st. Inr (r1\<lparr>am_agent_run_id :=
       (if agent = None then am_agent_run_id r1 else agent), am_status := s, am_last_error := e, am_updated_at := at\<rparr>, st)) = Inr (r, st')"
    using assms r0 ok unfolding transition_automation_run_def bind_res_simps Let_def
    by (cases ?retry) (simp_all only: bind_res_simps not_True_eq_False if_False sum.simps simp_thms)
  obtain n where n: "r1 = r0\<lparr>am_attempt := n\<rparr>" "retried st r0 s n"
  proof (cases "am_status r0 = AutoFailed \<and> s = AutoQueued")
    case True
    then show ?thesis using r1 that [of "am_attempt r0 + 1"]
      by (auto simp: bind_res_Inr_iff retried_def not_le split: if_splits)
  next
    case False
    then show ?thesis using r1 that [of "am_attempt r0"] by (auto simp: retried_def)
  qed
  have same: "am_agent_run_id r1 = am_agent_run_id r0" by (simp add: n(1))
  show ?thesis using that [OF r0 ok n(2)] rest unfolding same by (auto simp: bind_res_Inr_iff n(1))
qed

lemma transition_keeps_runs:
  assumes "runs_inv st" and "transition_automation_run i s agent e at st = Inr (r, st')"
  shows "runs_inv st'"
proof (rule transition_cases [OF assms(2)])
  fix r0 n
  assume a: "automation_run_of st i = Inr r0" "r = r0\<lparr>am_attempt := n,
      am_agent_run_id := (if agent = None then am_agent_run_id r0 else agent), am_status := s, am_last_error := e,
      am_updated_at := at\<rparr>" "persist_automation_run r st = Inr st'"
  obtain w where "w \<in> set (at_automations st)" "am_id r0 = mw_id w" "am_definition_id r0 = mw_definition_id w"
    "am_trigger_window_key r0 = mw_trigger_window_key w" "am_scheduled_for r0 = mw_scheduled_for w"
    by (rule run_row [OF assms(1) a(1)])
  then show ?thesis using persist_keeps_runs [OF assms(1) _ _ _ _ _ a(3)] a(2) by simp
qed

lemma reconcile_keeps:
  assumes "\<And>st i s e r st'. P st \<Longrightarrow> transition_automation_run i s None e at st = Inr (r, st') \<Longrightarrow> P st'" and "P st"
  shows "P (snd (reconcile_loop agents at rs n st))"
  using assms(2)
proof (induction rs arbitrary: n st)
  case (Cons r rs)
  then show ?case
    by (auto simp: Let_def split: option.splits sum.splits intro: Cons.IH assms(1))
qed simp

lemma insert_run_cases:
  assumes "insert_automation_run r worker now st = Inr (b, st')"
  obtains "\<not> b" "st' = st" | n where "b"
    "\<forall>w \<in> set (at_automations st). mw_id w \<noteq> am_id r \<and>
       \<not> (mw_definition_id w = am_definition_id r \<and> mw_trigger_window_key w = am_trigger_window_key r)"
    "st' = st\<lparr>at_automations := at_automations st @
              [\<lparr>mw_id = am_id r, mw_definition_id = am_definition_id r,
                mw_trigger_window_key = am_trigger_window_key r, mw_scheduled_for = am_scheduled_for r,
                mw_run = r, mw_status = am_status r, mw_definition_revision = n,
                mw_claimed_by = Some worker, mw_updated_at = now\<rparr>]\<rparr>"
  using assms by (auto simp: insert_automation_run_def bind_res_Inr_iff ok_or_Inr_iff split: if_splits)

lemma insert_keeps_runs:
  assumes inv: "runs_inv st" and ins: "insert_automation_run r worker now st = Inr (b, st')"
    and new: "manual_key (am_trigger_window_key r) \<or>
      (\<forall>w \<in> set (at_automations st). mw_definition_id w = am_definition_id r \<longrightarrow> mw_scheduled_for w < am_scheduled_for r)"
  shows "runs_inv st'"
proof (rule insert_run_cases [OF ins])
  fix n
  assume a: "\<forall>w \<in> set (at_automations st). mw_id w \<noteq> am_id r \<and>
       \<not> (mw_definition_id w = am_definition_id r \<and> mw_trigger_window_key w = am_trigger_window_key r)"
    "st' = st\<lparr>at_automations := at_automations st @
              [\<lparr>mw_id = am_id r, mw_definition_id = am_definition_id r,
                mw_trigger_window_key = am_trigger_window_key r, mw_scheduled_for = am_scheduled_for r,
                mw_run = r, mw_status = am_status r, mw_definition_revision = n,
                mw_claimed_by = Some worker, mw_updated_at = now\<rparr>]\<rparr>"
  have "windows_ok (map window_of (at_automations st'))"
    using inv a(1) new by (auto simp: runs_inv_def windows_ok_def a(2) sorted_wrt_append window_of_def)
  then show ?thesis using inv by (auto simp: runs_inv_def a(2) row_agrees_def)
qed (use inv in simp)

lemma started_event_frame:
  "insert_started_event i at s st = Inr st' \<Longrightarrow>
     at_automations st' = at_automations st \<and> at_reviews st' = at_reviews st \<and> at_definitions st' = at_definitions st"
  by (auto simp: insert_started_event_def split: if_splits)

lemma define_frame:
  "upsert_automation_definition d st = Inr (p, st') \<Longrightarrow> at_automations st' = at_automations st \<and> at_reviews st' = at_reviews st"
  by (auto simp: upsert_automation_definition_def bind_res_Inr_iff Let_def split: if_splits)

lemma status_frame:
  "set_automation_definition_status i s at st = Inr (p, st') \<Longrightarrow>
     at_automations st' = at_automations st \<and> at_reviews st' = at_reviews st"
  by (auto simp: set_automation_definition_status_def bind_res_Inr_iff dest: define_frame)

lemma goal_frame:
  "update_automation_goal i g at st = Inr (p, st') \<Longrightarrow> at_automations st' = at_automations st \<and> at_reviews st' = at_reviews st"
  by (auto simp: update_automation_goal_def bind_res_Inr_iff dest: define_frame split: if_splits)

lemma manual_prefix: "manual_key (''manual:'' @ k)"
  by (simp add: manual_key_def starts_with_def)

lemma queued_run_sel [simp]:
  "am_id (queued_automation_run i d key t skip agent worker now) = i"
  "am_definition_id (queued_automation_run i d key t skip agent worker now) = ad_id d"
  "am_trigger_window_key (queued_automation_run i d key t skip agent worker now) = key"
  "am_scheduled_for (queued_automation_run i d key t skip agent worker now) = t"
  by (simp_all add: queued_automation_run_def)

text \<open>What an enqueued window is: one of an enabled automation, due and not seen before.\<close>

lemma enqueue_cases:
  assumes e: "enqueue_due_automation_agent_run env k1 t1 k2 k3 t3 i now worker c st = Inr (x, st')"
  obtains "st' = st" "x = None" | d t r st1 where "automation_definition_of st i = Inr d" "ad_status d = AutomationEnabled"
    "due_automation_window (av_calendar env) (at_automations st) d now = Inr (Some t)"
    "am_definition_id r = ad_id d" "am_scheduled_for r = t" "insert_automation_run r worker now st = Inr (True, st1)"
    "at_automations st' = at_automations st1" "at_reviews st' = at_reviews st1" "x \<noteq> None \<longrightarrow> fst (the x) = r"
    "at_runs st' = at_runs st1 \<or> (\<exists>s. invalid_state (start_queued k1 t1 c (ad_goal d) 0) = Inr s \<and>
       insert_started_event k3 t3 s st1 = Inr st')"
proof -
  note u = enqueue_due_automation_agent_run_def
  obtain d where d: "automation_definition_of st i = Inr d" using e by (auto simp: u bind_res_Inr_iff)
  show ?thesis
  proof (cases "ad_status d = AutomationEnabled")
    case False
    then show ?thesis using e d that(1) by (simp add: u)
  next
    case on: True
    obtain due where due: "due_automation_window (av_calendar env) (at_automations st) d now = Inr due"
      using e d on by (auto simp: u bind_res_Inr_iff)
    show ?thesis
    proof (cases due)
      case None
      then show ?thesis using e d on due that(1) by (simp add: u)
    next
      case (Some t)
      obtain s where s: "invalid_state (start_queued k1 t1 c (ad_goal d) 0) = Inr s"
        using e d on due Some by (auto simp: u bind_res_Inr_iff Let_def)
      let ?skip = "skips_window d now t"
      let ?r = "queued_automation_run k2 d (trigger_window_key env (ad_id d) t) t ?skip
          (if ?skip then None else Some (rs_id s)) worker now"
      obtain b st1 where ins: "insert_automation_run ?r worker now st = Inr (b, st1)"
        using e d on due Some s by (auto simp: u bind_res_Inr_iff Let_def)
      have rest: "(if \<not> b then Inr (None, st) else if ?skip then Inr (None, st1)
          else bind_res (insert_started_event k3 t3 s st1) (\<lambda>st2. Inr (Some (?r, s), st2))) = Inr (x, st')"
        using e d on due Some s ins by (simp add: u Let_def)
      show ?thesis
      proof (cases b)
        case False
        then show ?thesis using rest that(1) by simp
      next
        case True
        have "at_automations st' = at_automations st1 \<and> at_reviews st' = at_reviews st1 \<and> (x \<noteq> None \<longrightarrow> fst (the x) = ?r)"
          using rest True by (auto simp: bind_res_Inr_iff dest: started_event_frame split: if_splits)
        moreover have "at_runs st' = at_runs st1 \<or> (\<exists>s. invalid_state (start_queued k1 t1 c (ad_goal d) 0) = Inr s \<and>
            insert_started_event k3 t3 s st1 = Inr st')"
          using rest True s by (auto simp: bind_res_Inr_iff split: if_splits)
        moreover have "insert_automation_run ?r worker now st = Inr (True, st1)" using ins True by simp
        ultimately show ?thesis using that(2) [OF d on due [unfolded Some], of ?r st1] by simp
      qed
    qed
  qed
qed

lemma claim_cases:
  assumes e: "claim_due_automation_run env k i now worker st = Inr (x, st')"
  obtains "st' = st" | d t r b where "due_automation_window (av_calendar env) (at_automations st) d now = Inr (Some t)"
    "am_definition_id r = ad_id d" "am_scheduled_for r = t" "insert_automation_run r worker now st = Inr (b, st')"
proof -
  note u = claim_due_automation_run_def
  obtain d where d: "automation_definition_of st i = Inr d" using e by (auto simp: u bind_res_Inr_iff)
  show ?thesis
  proof (cases "ad_status d = AutomationEnabled")
    case False
    then show ?thesis using e d that(1) by (simp add: u)
  next
    case on: True
    obtain due where due: "due_automation_window (av_calendar env) (at_automations st) d now = Inr due"
      using e d on by (auto simp: u bind_res_Inr_iff)
    show ?thesis
    proof (cases due)
      case None
      then show ?thesis using e d on due that(1) by (simp add: u)
    next
      case (Some t)
      let ?skip = "skips_window d now t"
      let ?r = "queued_automation_run k d (trigger_window_key env (ad_id d) t) t ?skip None worker now"
      obtain b st1 where "insert_automation_run ?r worker now st = Inr (b, st1)"
        using e d on due Some by (auto simp: u bind_res_Inr_iff Let_def)
      moreover have "st' = st1" using e d on due Some calculation by (simp add: u Let_def)
      ultimately show ?thesis using that(2) [OF due [unfolded Some], of ?r] by simp
    qed
  qed
qed

lemma manual_cases:
  assumes e: "enqueue_manual_automation_agent_run env k1 t1 k2 k3 t3 i m now c st = Inr (x, st')"
  obtains d r st1 where "automation_definition_of st i = Inr d" "am_definition_id r = ad_id d"
    "manual_key (am_trigger_window_key r)" "insert_automation_run r ''manual'' now st = Inr (True, st1)"
    "at_automations st' = at_automations st1" "at_reviews st' = at_reviews st1" "at_definitions st' = at_definitions st1"
    "\<exists>s. invalid_state (start_queued k1 t1 c (ad_goal d) 0) = Inr s \<and> insert_started_event k3 t3 s st1 = Inr st'"
proof -
  note u = enqueue_manual_automation_agent_run_def
  obtain d where d: "automation_definition_of st i = Inr d" using e by (auto simp: u bind_res_Inr_iff)
  have on: "ad_status d \<noteq> AutomationDeleted" using e d by (auto simp: u)
  obtain s where s: "invalid_state (start_queued k1 t1 c (ad_goal d) 0) = Inr s"
    using e d on by (auto simp: u bind_res_Inr_iff Let_def)
  let ?r = "queued_automation_run k2 d (''manual:'' @ ge_uuid_text (rv_goal (av_run env)) m) now False (Some (rs_id s)) ''manual'' now"
  obtain b st1 where ins: "insert_automation_run ?r ''manual'' now st = Inr (b, st1)"
    using e d on s by (auto simp: u bind_res_Inr_iff Let_def)
  have rest: "b" "bind_res (insert_started_event k3 t3 s st1) (\<lambda>st2. Inr ((?r, s), st2)) = Inr (x, st')"
    using e d on s ins by (auto simp: u Let_def split: if_splits)
  have "at_automations st' = at_automations st1 \<and> at_reviews st' = at_reviews st1 \<and> at_definitions st' = at_definitions st1"
    using rest(2) by (auto simp: bind_res_Inr_iff dest: started_event_frame)
  moreover have "\<exists>s. invalid_state (start_queued k1 t1 c (ad_goal d) 0) = Inr s \<and> insert_started_event k3 t3 s st1 = Inr st'"
    using rest(2) s by (auto simp: bind_res_Inr_iff)
  moreover have "manual_key (am_trigger_window_key ?r)" unfolding queued_run_sel by (rule manual_prefix)
  ultimately show ?thesis using that [OF d, of ?r st1] ins rest(1) by (simp only: queued_run_sel simp_thms)
qed

text \<open>The rows of reviews: one for an identifier, its revision column the item's.\<close>

definition reviews_inv :: "auto_store \<Rightarrow> bool" where
  "reviews_inv st \<longleftrightarrow> distinct (map vw_id (at_reviews st)) \<and>
     (\<forall>w \<in> set (at_reviews st). ri_id (vw_item w) = vw_id w \<and> vw_revision w = uint (ri_revision (vw_item w)))"

lemma reviews_inv_frame: "at_reviews st' = at_reviews st \<Longrightarrow> reviews_inv st \<Longrightarrow> reviews_inv st'"
  by (simp add: reviews_inv_def)

lemma review_row_for_id [simp]: "vw_id (review_row_for r w) = vw_id w"
  by (simp add: review_row_for_def)

lemma update_reviews:
  assumes "reviews_inv st" and "at_reviews st' = update_row vw_id (ri_id r) (review_row_for r) (at_reviews st)"
  shows "reviews_inv st'"
proof -
  have "map vw_id (at_reviews st') = map vw_id (at_reviews st)"
    using assms(2) by (simp add: update_row_def comp_def)
  moreover have "ri_id (vw_item w) = vw_id w \<and> vw_revision w = uint (ri_revision (vw_item w))"
    if "w \<in> set (at_reviews st')" for w
    using that assms(1) unfolding assms(2) set_update
    by (auto simp: reviews_inv_def review_row_for_def split: if_splits)
  ultimately show ?thesis using assms(1) by (simp add: reviews_inv_def)
qed

lemma write_review_frame:
  "write_review_row r st = Inr st' \<Longrightarrow> at_automations st' = at_automations st \<and> at_runs st' = at_runs st"
  by (auto simp: write_review_row_def split: option.splits if_splits)

lemma write_keeps_reviews:
  assumes "reviews_inv st" and "write_review_row r st = Inr st'"
  shows "reviews_inv st'" "at_automations st' = at_automations st" "at_runs st' = at_runs st"
proof -
  show "at_automations st' = at_automations st" "at_runs st' = at_runs st"
    using assms(2) by (auto simp: write_review_row_def split: option.splits if_splits)
  show "reviews_inv st'"
  proof (cases "row_of vw_id (at_reviews st) (ri_id r)")
    case None
    then have "st' = st\<lparr>at_reviews := at_reviews st @ [new_review_row r]\<rparr>"
      using assms(2) by (simp add: write_review_row_def split: if_splits)
    moreover have "ri_id r \<notin> vw_id ` set (at_reviews st)" using None by (simp add: row_of_None_iff)
    ultimately show ?thesis using assms(1) by (auto simp: reviews_inv_def new_review_row_def)
  next
    case (Some w)
    then have "at_reviews st' = update_row vw_id (ri_id r) (review_row_for r) (at_reviews st)"
      using assms(2) by (auto simp: write_review_row_def split: if_splits)
    then show ?thesis by (rule update_reviews [OF assms(1)])
  qed
qed

lemma touch_frame [simp]:
  "at_reviews (touch_automation_run r st) = at_reviews st" "at_runs (touch_automation_run r st) = at_runs st"
  "at_definitions (touch_automation_run r st) = at_definitions st"
  by (simp_all add: touch_automation_run_def)

lemma resolution_event_frame:
  "insert_resolution_event i at p st = Inr st' \<Longrightarrow>
     at_automations st' = at_automations st \<and> at_reviews st' = at_reviews st \<and> at_definitions st' = at_definitions st"
  by (auto simp: insert_resolution_event_def bind_res_Inr_iff split: option.splits if_splits)

text \<open>What the recorded change of a review is.\<close>

lemma persist_review_cases:
  assumes "persist_review_item_transition k t r previous p st = Inr st'"
  obtains m st1 where "automation_run_of st (ri_automation_run_id r) = Inr m" "am_review_queue_item_id m = Some (ri_id r)"
    "insert_resolution_event k t p st = Inr st1"
    "is_some_and (row_of vw_id (at_reviews st1) (ri_id r)) (\<lambda>w. vw_revision w = uint previous)"
    "st' = touch_automation_run (m\<lparr>am_updated_at := ri_updated_at r\<rparr>)
       (st1\<lparr>at_reviews := update_row vw_id (ri_id r) (review_row_for r) (at_reviews st1)\<rparr>)"
proof -
  note u = persist_review_item_transition_def
  obtain m where m: "automation_run_of st (ri_automation_run_id r) = Inr m"
    using assms by (auto simp: u bind_res_Inr_iff)
  have l: "am_review_queue_item_id m = Some (ri_id r)" using assms m by (simp add: u split: if_splits)
  obtain st1 where "insert_resolution_event k t p st = Inr st1"
    "(if is_some_and (row_of vw_id (at_reviews st1) (ri_id r)) (\<lambda>w. vw_revision w = uint previous)
       then Inr (touch_automation_run (m\<lparr>am_updated_at := ri_updated_at r\<rparr>)
              (st1\<lparr>at_reviews := update_row vw_id (ri_id r) (review_row_for r) (at_reviews st1)\<rparr>))
       else Inl (InvalidState ''review item transition raced with another writer'')) = Inr st'"
    using assms m l by (auto simp: u bind_res_Inr_iff)
  then show ?thesis using that [OF m l] by (auto split: if_splits)
qed

lemma persist_review_keeps:
  assumes inv: "runs_inv st" "reviews_inv st" and p: "persist_review_item_transition k t r previous p st = Inr st'"
  shows "runs_inv st'" "reviews_inv st'"
proof -
  obtain m st1 where m: "automation_run_of st (ri_automation_run_id r) = Inr m"
    and ev: "insert_resolution_event k t p st = Inr st1"
    and st': "st' = touch_automation_run (m\<lparr>am_updated_at := ri_updated_at r\<rparr>)
       (st1\<lparr>at_reviews := update_row vw_id (ri_id r) (review_row_for r) (at_reviews st1)\<rparr>)"
    by (rule persist_review_cases [OF p])
  note frame = resolution_event_frame [OF ev]
  obtain w where w: "w \<in> set (at_automations st)" "mw_run w = m" "am_id m = mw_id w"
    "am_definition_id m = mw_definition_id w" "am_trigger_window_key m = mw_trigger_window_key w"
    "am_scheduled_for m = mw_scheduled_for w"
    by (rule run_row [OF inv(1) m])
  show "runs_inv st'" unfolding st' by (rule touch_keeps_runs [OF inv(1) w(1)]) (simp_all add: frame w)
  show "reviews_inv st'" unfolding st' by (rule update_reviews [OF inv(2)]) (simp add: frame)
qed

text \<open>Editing and resolving: the item was read, its revision named, and the changed item recorded.\<close>

lemma edit_cases:
  assumes "edit_review_queue_item env k t k' t' i v title fp at st = Inr (item, st')"
  obtains r where "review_queue_item st i = Inr r" "v = action_revision (rv_sha (av_run env)) (av_review_json env) r"
    "edit_review r title fp at = Inr item"
    "persist_review_item_transition k' t' item (ri_revision r)
       (review_tool_approval_invalidation st r ''Review preview changed'' k t) st = Inr st'"
  using assms
  by (auto simp: edit_review_queue_item_def bind_res_Inr_iff validate_action_revision_def res_simps Let_def split: if_splits)

lemma resolve_cases:
  assumes "resolve_review_queue_item env k t k' t' i v ok at st = Inr (item, st')"
  obtains r where "review_queue_item st i = Inr r" "v = action_revision (rv_sha (av_run env)) (av_review_json env) r"
    "resolve_review r ok at = Inr item"
    "persist_review_item_transition k' t' item (ri_revision r)
       (if ok then None else review_tool_approval_invalidation st r ''Review item rejected'' k t) st = Inr st'"
  using assms
  by (auto simp: resolve_review_queue_item_def bind_res_Inr_iff validate_action_revision_def res_simps Let_def split: if_splits)

lemma review_upsert_cases:
  assumes "upsert_review_queue_item r st = Inr st'"
  obtains "st' = st" | m st1 where "automation_run_of st (ri_automation_run_id r) = Inr m" "write_review_row r st = Inr st1"
    "st' = touch_automation_run (m\<lparr>am_review_queue_item_id := Some (ri_id r), am_updated_at := ri_updated_at r\<rparr>) st1"
  using assms by (auto simp: upsert_review_queue_item_def bind_res_Inr_iff Let_def split: if_splits)

section \<open>The invariant of the tables\<close>

definition auto_inv :: "auto_store \<Rightarrow> bool" where
  "auto_inv st \<longleftrightarrow> runs_inv st \<and> reviews_inv st"

lemma auto_inv_frame:
  "at_automations st' = at_automations st \<Longrightarrow> at_reviews st' = at_reviews st \<Longrightarrow> auto_inv st \<Longrightarrow> auto_inv st'"
  by (simp add: auto_inv_def runs_inv_def reviews_inv_def)

lemma insert_run_reviews: "insert_automation_run r worker now st = Inr (b, st') \<Longrightarrow> at_reviews st' = at_reviews st"
  by (auto elim: insert_run_cases)

lemma persist_run_reviews:
  "persist_automation_run r st = Inr st' \<Longrightarrow> at_reviews st' = at_reviews st"
  by (auto simp: persist_automation_run_def bind_res_Inr_iff)

lemma transition_inv:
  assumes "auto_inv st" and "transition_automation_run i s agent e at st = Inr (r, st')"
  shows "auto_inv st'"
  using assms transition_keeps_runs [OF _ assms(2)] reviews_inv_frame
  by (auto simp: auto_inv_def elim!: transition_cases dest: persist_run_reviews)

lemma link_inv:
  assumes "auto_inv st" and "link_automation_run_to_agent_run env i agent at st = Inr (r, st')"
  shows "auto_inv st'"
proof -
  obtain r0 where r0: "automation_run_of st i = Inr r0"
    using assms(2) by (auto simp: link_automation_run_to_agent_run_def bind_res_Inr_iff)
  obtain w where w: "w \<in> set (at_automations st)" "am_id r0 = mw_id w" "am_definition_id r0 = mw_definition_id w"
    "am_trigger_window_key r0 = mw_trigger_window_key w" "am_scheduled_for r0 = mw_scheduled_for w"
    using run_row [OF _ r0] assms(1) unfolding auto_inv_def by metis
  show ?thesis
  proof (cases "am_agent_run_id r0")
    case None
    then have "persist_automation_run (r0\<lparr>am_agent_run_id := Some agent, am_updated_at := at\<rparr>) st = Inr st'"
      using assms(2) r0 by (auto simp: link_automation_run_to_agent_run_def bind_res_Inr_iff Let_def)
    then show ?thesis using assms(1) persist_keeps_runs [of st w "r0\<lparr>am_agent_run_id := Some agent, am_updated_at := at\<rparr>"] w
      by (auto simp: auto_inv_def dest: persist_run_reviews intro: reviews_inv_frame)
  next
    case (Some g)
    then have "st' = st" using assms(2) r0
      by (auto simp: link_automation_run_to_agent_run_def bind_res_Inr_iff split: if_splits)
    then show ?thesis using assms(1) by simp
  qed
qed

lemma insert_auto_inv:
  assumes "auto_inv st" and "insert_automation_run r worker now st = Inr (b, st1)"
    and "manual_key (am_trigger_window_key r) \<or>
      (\<forall>w \<in> set (at_automations st). mw_definition_id w = am_definition_id r \<longrightarrow> mw_scheduled_for w < am_scheduled_for r)"
  shows "auto_inv st1"
  using assms insert_keeps_runs insert_run_reviews reviews_inv_frame unfolding auto_inv_def by metis

lemma auto_next_inv:
  assumes inv: "auto_inv st" and step: "auto_next env js st st'"
  shows "auto_inv st'"
  using step
proof cases
  case auto_runs
  then show ?thesis using inv by (simp add: auto_inv_def runs_inv_def reviews_inv_def)
next
  case auto_define
  then show ?thesis using auto_inv_frame inv define_frame by blast
next
  case auto_status
  then show ?thesis using auto_inv_frame inv status_frame by blast
next
  case auto_goal
  then show ?thesis using auto_inv_frame inv goal_frame by blast
next
  case (auto_claim k i now worker r)
  then show ?thesis
  proof (rule claim_cases)
    fix d t x b
    assume a: "due_automation_window (av_calendar env) (at_automations st) d now = Inr (Some t)"
      "am_definition_id x = ad_id d" "am_scheduled_for x = t" "insert_automation_run x worker now st = Inr (b, st')"
    show ?thesis by (rule insert_auto_inv [OF inv a(4)]) (use due_window_new(2) [OF a(1)] a(2,3) in simp)
  qed (use inv in simp)
next
  case (auto_enqueue k1 t1 k2 k3 t3 i now worker c r)
  then show ?thesis
  proof (rule enqueue_cases)
    fix d t x st1
    assume a: "due_automation_window (av_calendar env) (at_automations st) d now = Inr (Some t)"
      "am_definition_id x = ad_id d" "am_scheduled_for x = t" "insert_automation_run x worker now st = Inr (True, st1)"
      "at_automations st' = at_automations st1" "at_reviews st' = at_reviews st1"
    have "auto_inv st1" by (rule insert_auto_inv [OF inv a(4)]) (use due_window_new(2) [OF a(1)] a(2,3) in simp)
    then show ?thesis by (rule auto_inv_frame [OF a(5,6)])
  qed (use inv in simp)
next
  case (auto_manual k1 t1 k2 k3 t3 i m now c x)
  then show ?thesis
  proof (rule manual_cases)
    fix d r st1
    assume a: "manual_key (am_trigger_window_key r)" "insert_automation_run r ''manual'' now st = Inr (True, st1)"
      "at_automations st' = at_automations st1" "at_reviews st' = at_reviews st1"
    have "auto_inv st1" by (rule insert_auto_inv [OF inv a(2)]) (simp add: a(1))
    then show ?thesis by (rule auto_inv_frame [OF a(3,4)])
  qed
next
  case (auto_reconcile at)
  have "auto_inv (snd (reconcile_loop agents at rs n st))" for agents rs n
    by (rule reconcile_keeps [of auto_inv, OF transition_inv inv])
  then show ?thesis using auto_reconcile inv
    by (simp add: reconcile_automation_agent_runs_def split: sum.splits)
next
  case auto_transition
  then show ?thesis using transition_inv [OF inv] by blast
next
  case auto_link
  then show ?thesis using link_inv [OF inv] by blast
next
  case auto_checkpoint
  then show ?thesis using inv by (simp add: auto_inv_def runs_inv_def reviews_inv_def upsert_automation_checkpoint_def)
next
  case (auto_review item)
  then show ?thesis
  proof (rule review_upsert_cases)
    fix m st1
    assume a: "automation_run_of st (ri_automation_run_id item) = Inr m" "write_review_row item st = Inr st1"
      "st' = touch_automation_run (m\<lparr>am_review_queue_item_id := Some (ri_id item), am_updated_at := ri_updated_at item\<rparr>) st1"
    have inv': "runs_inv st" "reviews_inv st" using inv by (simp_all add: auto_inv_def)
    note w = write_keeps_reviews [OF inv'(2) a(2)]
    obtain v where v: "v \<in> set (at_automations st)" "mw_run v = m" "am_id m = mw_id v"
      "am_definition_id m = mw_definition_id v" "am_trigger_window_key m = mw_trigger_window_key v"
      "am_scheduled_for m = mw_scheduled_for v"
      by (rule run_row [OF inv'(1) a(1)])
    have "runs_inv st'" unfolding a(3) by (rule touch_keeps_runs [OF inv'(1) v(1)]) (simp_all add: w v)
    moreover have "reviews_inv st'" unfolding a(3) by (rule reviews_inv_frame [OF _ w(1)]) simp
    ultimately show ?thesis by (simp add: auto_inv_def)
  qed (use inv in simp)
next
  case auto_edit
  then show ?thesis using inv persist_review_keeps unfolding auto_inv_def by (elim edit_cases) blast
next
  case auto_resolve
  then show ?thesis using inv persist_review_keeps unfolding auto_inv_def by (elim resolve_cases) blast
qed

interpretation automations: transition_system "auto_next env js" auto_inv for env js
  by unfold_locales (rule auto_next_inv)

lemma auto_reachable_inv:
  assumes "auto_initial st0" and "(auto_next env js)\<^sup>*\<^sup>* st0 st"
  shows "auto_inv st"
proof -
  have "auto_inv st0" using assms(1)
    by (simp add: auto_initial_def auto_inv_def runs_inv_def reviews_inv_def windows_ok_def)
  then show ?thesis using automations.run_inv [OF assms(2)] by blast
qed

text \<open>
  C11: No window fires twice. In every store the operations reach, whatever edits, manual runs, retries
  and reconciliations there were, the runs of one automation have distinct trigger windows, and a run
  that was not started by hand is scheduled later than every run of its automation recorded before it.
\<close>

theorem windows_fire_once:
  assumes "auto_initial st0" and "(auto_next env js)\<^sup>*\<^sup>* st0 st"
  shows "distinct (map (\<lambda>w. (mw_definition_id w, mw_trigger_window_key w)) (at_automations st)) \<and>
    (\<forall>i j. i < j \<and> j < length (at_automations st) \<and>
       mw_definition_id (at_automations st ! i) = mw_definition_id (at_automations st ! j) \<and>
       \<not> starts_with ''manual:'' (mw_trigger_window_key (at_automations st ! j)) \<longrightarrow>
       mw_scheduled_for (at_automations st ! i) < mw_scheduled_for (at_automations st ! j))"
proof -
  have w: "windows_ok (map window_of (at_automations st))"
    using auto_reachable_inv [OF assms] by (simp add: auto_inv_def runs_inv_def)
  then have "distinct (map (\<lambda>w. (mw_definition_id w, mw_trigger_window_key w)) (at_automations st))"
    by (simp add: windows_ok_def window_of_def comp_def)
  moreover have "sorted_wrt (\<lambda>v w. mw_definition_id v = mw_definition_id w \<and> \<not> manual_key (mw_trigger_window_key w)
      \<longrightarrow> mw_scheduled_for v < mw_scheduled_for w) (at_automations st)"
    using w by (simp add: windows_ok_def window_of_def sorted_wrt_map)
  ultimately show ?thesis by (auto simp: sorted_wrt_iff_nth_less manual_key_def)
qed

section \<open>Rows are never lost\<close>

definition windows_grow :: "auto_store \<Rightarrow> auto_store \<Rightarrow> bool" where
  "windows_grow st st' \<longleftrightarrow> (\<exists>ws. map window_of (at_automations st') = map window_of (at_automations st) @ ws)"

lemma windows_grow_same: "map window_of (at_automations st') = map window_of (at_automations st) \<Longrightarrow> windows_grow st st'"
  by (auto simp: windows_grow_def)

lemma windows_grow_eq: "at_automations st' = at_automations st \<Longrightarrow> windows_grow st st'"
  by (simp add: windows_grow_same)

lemma windows_grow_trans: "windows_grow st st1 \<Longrightarrow> windows_grow st1 st2 \<Longrightarrow> windows_grow st st2"
  by (auto simp: windows_grow_def)

lemma insert_grows: "insert_automation_run r worker now st = Inr (b, st') \<Longrightarrow> windows_grow st st'"
  by (erule insert_run_cases) (auto simp: windows_grow_def)

lemma inserted_row:
  "insert_automation_run r worker now st = Inr (True, st') \<Longrightarrow>
     \<exists>w \<in> set (at_automations st'). mw_definition_id w = am_definition_id r"
  by (erule insert_run_cases) auto

lemma persist_grows: "persist_automation_run r st = Inr st' \<Longrightarrow> windows_grow st st'"
  by (auto simp: persist_automation_run_def bind_res_Inr_iff window_of_def intro!: windows_grow_same update_windows)

lemma touch_grows: "windows_grow st (touch_automation_run r st)"
  by (auto simp: touch_automation_run_def window_of_def intro!: windows_grow_same update_windows)

lemma transition_grows: "transition_automation_run i s agent e at st = Inr (r, st') \<Longrightarrow> windows_grow st st'"
  by (erule transition_cases) (rule persist_grows)

lemma persist_review_grows:
  assumes "persist_review_item_transition k t r previous p st = Inr st'"
  shows "windows_grow st st'"
proof (rule persist_review_cases [OF assms])
  fix m st1
  assume a: "insert_resolution_event k t p st = Inr st1" "st' = touch_automation_run (m\<lparr>am_updated_at := ri_updated_at r\<rparr>)
       (st1\<lparr>at_reviews := update_row vw_id (ri_id r) (review_row_for r) (at_reviews st1)\<rparr>)"
  have "windows_grow st (st1\<lparr>at_reviews := update_row vw_id (ri_id r) (review_row_for r) (at_reviews st1)\<rparr>)"
    using resolution_event_frame [OF a(1)] by (simp add: windows_grow_eq)
  then show ?thesis unfolding a(2) using touch_grows windows_grow_trans by blast
qed

lemma auto_next_windows:
  assumes "auto_next env js st st'"
  shows "windows_grow st st'"
  using assms
proof cases
  case (auto_claim k i now worker r)
  then show ?thesis by (rule claim_cases) (auto intro: insert_grows windows_grow_eq)
next
  case (auto_enqueue k1 t1 k2 k3 t3 i now worker c r)
  then show ?thesis
    by (rule enqueue_cases) (auto intro: windows_grow_eq windows_grow_trans [OF insert_grows windows_grow_eq])
next
  case (auto_manual k1 t1 k2 k3 t3 i m now c x)
  then show ?thesis by (rule manual_cases) (auto intro: windows_grow_trans [OF insert_grows windows_grow_eq])
next
  case (auto_reconcile at)
  have "windows_grow st (snd (reconcile_loop agents at rs n st))" for agents rs n
    by (rule reconcile_keeps) (auto intro: windows_grow_trans transition_grows windows_grow_eq)
  then show ?thesis using auto_reconcile
    by (auto simp: reconcile_automation_agent_runs_def intro: windows_grow_eq split: sum.splits)
next
  case (auto_link i agent at r)
  then show ?thesis
    by (auto simp: link_automation_run_to_agent_run_def bind_res_Inr_iff Let_def intro: persist_grows windows_grow_eq
        split: option.splits if_splits)
next
  case (auto_review item)
  then show ?thesis
    by (rule review_upsert_cases)
      (auto intro: windows_grow_eq windows_grow_trans [OF windows_grow_eq touch_grows] dest: write_review_frame)
next
  case auto_edit
  then show ?thesis by (auto elim!: edit_cases intro: persist_review_grows)
next
  case auto_resolve
  then show ?thesis by (auto elim!: resolve_cases intro: persist_review_grows)
next
  case auto_transition
  then show ?thesis by (rule transition_grows)
qed (auto intro!: windows_grow_eq simp: upsert_automation_checkpoint_def dest: define_frame status_frame goal_frame)

lemma auto_run_windows: "(auto_next env js)\<^sup>*\<^sup>* st st' \<Longrightarrow> windows_grow st st'"
  by (induction rule: rtranclp_induct) (auto intro: windows_grow_eq windows_grow_trans auto_next_windows)

text \<open>
  C33: A manual run spends the scheduled run of a one-off automation. After a run of the automation
  was started by hand, even long before the scheduled time, no later store has a due window for it,
  so the run the user scheduled never starts.
\<close>

theorem manual_run_spends_once:
  assumes "enqueue_manual_automation_agent_run env k1 t1 k2 k3 t3 i m now c st = Inr (x, st1)"
    and "automation_definition_of st i = Inr d" and "(auto_next env js)\<^sup>*\<^sup>* st1 st2"
    and "ad_id d' = ad_id d" and "ad_schedule d' = Once t"
  shows "due_automation_window cal (at_automations st2) d' later = Inr None"
proof (rule manual_cases [OF assms(1)])
  fix e r st'
  assume e: "automation_definition_of st i = Inr e" "am_definition_id r = ad_id e"
    "insert_automation_run r ''manual'' now st = Inr (True, st')" "at_automations st1 = at_automations st'"
  obtain w where "w \<in> set (at_automations st1)" "mw_definition_id w = ad_id d"
    using inserted_row [OF e(3)] e(1,2,4) assms(2) by auto
  then have "window_of w \<in> set (map window_of (at_automations st1))" and fst: "fst (snd (window_of w)) = ad_id d"
    by (auto simp: window_of_def)
  then have "window_of w \<in> set (map window_of (at_automations st2))"
    using auto_run_windows [OF assms(3)] unfolding windows_grow_def by (metis UnI1 set_append)
  then obtain v where "v \<in> set (at_automations st2)" "mw_definition_id v = ad_id d"
    using fst by (auto simp: window_of_def)
  then show ?thesis using due_once assms(4,5) by metis
qed

section \<open>Reconciliation\<close>

text \<open>A transition changes the run it names and no other.\<close>

lemma run_of_rows:
  assumes "runs_inv st" and "w \<in> set (at_automations st)"
  shows "automation_run_of st (mw_id w) = Inr (mw_run w)"
proof -
  have "distinct (map mw_id (at_automations st))"
    using assms(1) by (simp add: runs_inv_def windows_ok_def window_of_def comp_def)
  then show ?thesis using row_of_mem [of mw_id "at_automations st" w] assms(2)
    by (simp add: automation_run_of_def no_row_def ok_or_def)
qed

lemma transition_reads:
  assumes inv: "runs_inv st" and t: "transition_automation_run i s agent e at st = Inr (r, st')"
  shows "automation_run_of st' j = (if j = i then Inr r else automation_run_of st j)"
    and "am_status r = s" and "agent = None \<Longrightarrow> automation_run_of st i = Inr r0 \<Longrightarrow> am_agent_run_id r = am_agent_run_id r0"
    and "automation_run_of st i = Inr r0 \<Longrightarrow> automation_run_transition_allowed (am_status r0) s"
proof -
  obtain q n where q: "automation_run_of st i = Inr q" "automation_run_transition_allowed (am_status q) s"
    "r = q\<lparr>am_attempt := n, am_agent_run_id := (if agent = None then am_agent_run_id q else agent),
            am_status := s, am_last_error := e, am_updated_at := at\<rparr>" "persist_automation_run r st = Inr st'"
    by (rule transition_cases [OF t])
  obtain w where w: "w \<in> set (at_automations st)" "mw_id w = i" "am_id q = mw_id w"
    using run_row [OF inv q(1)] by metis
  have "am_id r = i" using q(3) w by simp
  then obtain f where f: "at_automations st' = update_row mw_id i f (at_automations st)" "\<And>w. mw_id (f w) = mw_id w"
    "\<And>w. mw_run (f w) = r"
    using q(4) by (auto simp: persist_automation_run_def bind_res_Inr_iff)
  have "row_of mw_id (at_automations st) i \<noteq> None" using w by (auto simp: row_of_None_iff)
  then show "automation_run_of st' j = (if j = i then Inr r else automation_run_of st j)"
    using f row_of_update [of mw_id i f "at_automations st" j]
    by (auto simp: automation_run_of_def no_row_def ok_or_def split: option.splits)
  show "am_status r = s" using q(3) by simp
  show "agent = None \<Longrightarrow> automation_run_of st i = Inr r0 \<Longrightarrow> am_agent_run_id r = am_agent_run_id r0" using q by simp
  show "automation_run_of st i = Inr r0 \<Longrightarrow> automation_run_transition_allowed (am_status r0) s" using q by simp
qed

lemma reconcile_loop_others:
  assumes "runs_inv st" and "j \<notin> am_id ` set rs"
  shows "automation_run_of (snd (reconcile_loop agents at rs n st)) j = automation_run_of st j"
  using assms
proof (induction rs arbitrary: n st)
  case (Cons r rs)
  show ?case
  proof (cases "Option.bind (am_agent_run_id r) agents")
    case None
    then show ?thesis using Cons by simp
  next
    case (Some g)
    show ?thesis
    proof (cases "am_status r = agent_target (rec_status g)")
      case True
      then show ?thesis using Some Cons by simp
    next
      case False
      show ?thesis
      proof (cases "transition_automation_run (am_id r) (agent_target (rec_status g)) None (rec_finish_error g) at st")
        case (Inl e)
        then show ?thesis using Some False by simp
      next
        case (Inr y)
        obtain q st1 where t: "transition_automation_run (am_id r) (agent_target (rec_status g)) None (rec_finish_error g) at st
            = Inr (q, st1)" using Inr by (cases y) simp
        have "automation_run_of (snd (reconcile_loop agents at rs (Suc n) st1)) j = automation_run_of st1 j"
          using Cons.IH [OF transition_keeps_runs [OF Cons.prems(1) t]] Cons.prems(2) by simp
        then show ?thesis using Some False t transition_reads(1) [OF Cons.prems(1) t] Cons.prems(2) by simp
      qed
    qed
  qed
qed simp

definition follows_agent :: "(uuid \<rightharpoonup> run_record) \<Rightarrow> auto_store \<Rightarrow> automation_run \<Rightarrow> bool" where
  "follows_agent agents st r \<longleftrightarrow>
     (\<forall>a g. am_agent_run_id r = Some a \<and> agents a = Some g \<longrightarrow>
        (am_status r = agent_target (rec_status g) \<or>
         automation_run_transition_allowed (am_status r) (agent_target (rec_status g))) \<and>
        (\<exists>q. automation_run_of st (am_id r) = Inr q \<and> am_agent_run_id q = Some a \<and> am_status q = agent_target (rec_status g)))"

lemma reconcile_loop_ok:
  assumes "runs_inv st" and "distinct (map am_id rs)" and "\<forall>r \<in> set rs. automation_run_of st (am_id r) = Inr r"
    and "fst (reconcile_loop agents at rs n st) = Inr m" and "r \<in> set rs"
  shows "follows_agent agents (snd (reconcile_loop agents at rs n st)) r"
  using assms
proof (induction rs arbitrary: n st)
  case (Cons x rs)
  show ?case
  proof (cases "\<exists>g. Option.bind (am_agent_run_id x) agents = Some g \<and> am_status x \<noteq> agent_target (rec_status g)")
    case True
    then obtain g where g: "Option.bind (am_agent_run_id x) agents = Some g" "am_status x \<noteq> agent_target (rec_status g)" by blast
    let ?t = "transition_automation_run (am_id x) (agent_target (rec_status g)) None (rec_finish_error g) at st"
    have run: "reconcile_loop agents at (x # rs) n st =
        (case ?t of Inl e \<Rightarrow> (Inl e, st) | Inr (_, st) \<Rightarrow> reconcile_loop agents at rs (Suc n) st)"
      using g by simp
    obtain y where "?t = Inr y" using Cons.prems(4) unfolding run by (cases ?t) simp_all
    then obtain q st1 where t: "?t = Inr (q, st1)" by (cases y) simp
    have step: "reconcile_loop agents at (x # rs) n st = reconcile_loop agents at rs (Suc n) st1"
      unfolding run t by simp
    note inv1 = transition_keeps_runs [OF Cons.prems(1) t] and reads = transition_reads [OF Cons.prems(1) t]
    have x: "automation_run_of st (am_id x) = Inr x" "am_id x \<notin> am_id ` set rs" "distinct (map am_id rs)"
      using Cons.prems(2,3) by simp_all
    show ?thesis
    proof (cases "r = x")
      case True
      have "automation_run_of (snd (reconcile_loop agents at rs (Suc n) st1)) (am_id x) = Inr q"
        using reconcile_loop_others [OF inv1 x(2)] reads(1) [of "am_id x"] by simp
      moreover have "am_agent_run_id q = am_agent_run_id x" by (rule reads(3) [OF refl x(1)])
      moreover have "automation_run_transition_allowed (am_status x) (agent_target (rec_status g))"
        by (rule reads(4) [OF x(1)])
      ultimately show ?thesis unfolding step True follows_agent_def using g reads(2)
        by (auto simp: bind_eq_Some_conv)
    next
      case False
      then have r: "r \<in> set rs" using Cons.prems(5) by simp
      have later: "\<forall>y \<in> set rs. automation_run_of st1 (am_id y) = Inr y"
      proof
        fix y assume y: "y \<in> set rs"
        then have "am_id y \<noteq> am_id x" using x(2) by (metis imageI)
        then show "automation_run_of st1 (am_id y) = Inr y" using reads(1) [of "am_id y"] Cons.prems(3) y by simp
      qed
      show ?thesis unfolding step
        by (rule Cons.IH [OF inv1 x(3) later _ r]) (use Cons.prems(4) step in simp)
    qed
  next
    case False
    then have step: "reconcile_loop agents at (x # rs) n st = reconcile_loop agents at rs n st"
      by (cases "Option.bind (am_agent_run_id x) agents") (simp_all add: Let_def)
    have x: "automation_run_of st (am_id x) = Inr x" "am_id x \<notin> am_id ` set rs" "distinct (map am_id rs)"
      "\<forall>y \<in> set rs. automation_run_of st (am_id y) = Inr y"
      using Cons.prems(2,3) by simp_all
    show ?thesis
    proof (cases "r = x")
      case True
      have "automation_run_of (snd (reconcile_loop agents at rs n st)) (am_id x) = Inr x"
        using reconcile_loop_others [OF Cons.prems(1) x(2)] x(1) by simp
      then show ?thesis unfolding step True follows_agent_def using False by auto
    next
      case r: False
      then have "r \<in> set rs" using Cons.prems(5) by simp
      then show ?thesis unfolding step
        by (rule Cons.IH [OF Cons.prems(1) x(3,4), rotated]) (use Cons.prems(4) step in simp)
    qed
  qed
qed simp

text \<open>
  C15: Reconciliation follows the agent runs or fails. In a reachable store, if reconciliation
  succeeds then every automation run that is linked to a listed agent run had the status that
  corresponds to it or could take it, and has it afterwards. So it fails as soon as one agent run
  went back, for instance from running to queued when its worker's lease expired.
\<close>

theorem reconciliation_follows_agents:
  assumes "auto_initial st0" and "(auto_next env js)\<^sup>*\<^sup>* st0 st"
    and "list_agent_run_records (av_run env) (at_runs st) = Inr rs"
    and "reconcile_automation_agent_runs env at st = (Inr n, st')"
    and "r \<in> set (list_automation_runs st)" and "am_agent_run_id r = Some a" and "last_by rec_id rs a = Some g"
  shows "(am_status r = agent_target (rec_status g) \<or>
      automation_run_transition_allowed (am_status r) (agent_target (rec_status g))) \<and>
    (\<exists>q. automation_run_of st' (am_id r) = Inr q \<and> am_agent_run_id q = Some a \<and> am_status q = agent_target (rec_status g))"
proof -
  have inv: "runs_inv st" using auto_reachable_inv [OF assms(1,2)] by (simp add: auto_inv_def)
  let ?rows = "sort_key mw_scheduled_for (at_automations st)"
  have ids: "map (\<lambda>w. am_id (mw_run w)) ?rows = map mw_id ?rows"
    using inv by (auto simp: runs_inv_def row_agrees_def)
  have "distinct (map mw_id (at_automations st))"
    using inv by (simp add: runs_inv_def windows_ok_def window_of_def comp_def)
  then have "distinct (map mw_id ?rows)" by (metis distinct_map distinct_sort set_sort)
  then have dist: "distinct (map am_id (list_automation_runs st))"
    unfolding list_automation_runs_def map_map comp_def ids .
  have reads: "\<forall>r \<in> set (list_automation_runs st). automation_run_of st (am_id r) = Inr r"
    using run_of_rows [OF inv] inv by (auto simp: list_automation_runs_def runs_inv_def row_agrees_def)
  have loop: "reconcile_loop (last_by rec_id rs) at (list_automation_runs st) 0 st = (Inr n, st')"
    using assms(3,4) by (simp add: reconcile_automation_agent_runs_def)
  have "follows_agent (last_by rec_id rs) (snd (reconcile_loop (last_by rec_id rs) at (list_automation_runs st) 0 st)) r"
    by (rule reconcile_loop_ok [OF inv dist reads _ assms(5)]) (simp add: loop)
  then show ?thesis using assms(6,7) unfolding loop follows_agent_def by simp
qed

section \<open>Actions on a review\<close>

definition review_count :: "uuid \<Rightarrow> auto_store \<Rightarrow> nat" where
  "review_count i st = (case row_of vw_id (at_reviews st) i of None \<Rightarrow> 0 | Some w \<Rightarrow> nat (vw_revision w + 1))"

lemma review_count_frame: "at_reviews st' = at_reviews st \<Longrightarrow> review_count i st' = review_count i st"
  by (simp add: review_count_def)

lemma review_count_same: "at_reviews st' = at_reviews st \<Longrightarrow> review_count i st \<le> review_count i st'"
  by (simp add: review_count_def)

lemma review_count_insert:
  "insert_automation_run r worker now st = Inr (b, st1) \<Longrightarrow> at_reviews st' = at_reviews st1 \<Longrightarrow>
     review_count i st \<le> review_count i st'"
  using insert_run_reviews by (fastforce intro: review_count_same)

lemma row_of_review_update:
  "row_of vw_id (update_row vw_id i (review_row_for r) rows) j =
     (if j = i then map_option (review_row_for r) (row_of vw_id rows i) else row_of vw_id rows j)"
  by (rule row_of_update) simp

lemma review_read:
  assumes "reviews_inv st" and "review_queue_item st i = Inr r"
  shows "review_count i st = unat (ri_revision r) + 1" and "ri_id r = i"
proof -
  obtain w where w: "row_of vw_id (at_reviews st) i = Some w" "vw_item w = r"
    using assms(2) by (auto simp: review_queue_item_def no_row_def ok_or_Inr_iff)
  then have "vw_revision w = uint (ri_revision r)" "ri_id r = i"
    using assms(1) row_of_SomeD [OF w(1)] by (auto simp: reviews_inv_def)
  then show "review_count i st = unat (ri_revision r) + 1" "ri_id r = i"
    using w by (simp_all add: review_count_def nat_add_distrib)
qed

lemma write_review_count:
  assumes "write_review_row r st = Inr st'"
  shows "review_count i st \<le> review_count i st'"
proof (cases "row_of vw_id (at_reviews st) (ri_id r)")
  case None
  then have "at_reviews st' = at_reviews st @ [new_review_row r]"
    using assms by (auto simp: write_review_row_def split: if_splits)
  then show ?thesis by (auto simp: review_count_def row_of_append row_of_Cons split: option.splits)
next
  case (Some w)
  then have "at_reviews st' = update_row vw_id (ri_id r) (review_row_for r) (at_reviews st)" "vw_revision w + 1 = uint (ri_revision r)"
    using assms by (auto simp: write_review_row_def split: if_splits)
  then show ?thesis using Some
    by (auto simp: review_count_def row_of_review_update review_row_for_def nat_add_distrib split: option.splits)
qed

text \<open>The recorded change of an item has a revision at least the one it was read with.\<close>

lemma persist_review_count:
  assumes "persist_review_item_transition k t r previous p st = Inr st'"
  shows "row_of vw_id (at_reviews st') (ri_id r) = map_option (review_row_for r) (row_of vw_id (at_reviews st) (ri_id r))"
    and "row_of vw_id (at_reviews st) (ri_id r) \<noteq> None"
    and "j \<noteq> ri_id r \<Longrightarrow> review_count j st' = review_count j st"
    and "review_count (ri_id r) st = unat previous + 1" and "review_count (ri_id r) st' = unat (ri_revision r) + 1"
proof -
  obtain m st1 where ev: "insert_resolution_event k t p st = Inr st1"
    and prev: "is_some_and (row_of vw_id (at_reviews st1) (ri_id r)) (\<lambda>w. vw_revision w = uint previous)"
    and st': "st' = touch_automation_run (m\<lparr>am_updated_at := ri_updated_at r\<rparr>)
       (st1\<lparr>at_reviews := update_row vw_id (ri_id r) (review_row_for r) (at_reviews st1)\<rparr>)"
    by (rule persist_review_cases [OF assms])
  have rows: "at_reviews st1 = at_reviews st" using resolution_event_frame [OF ev] by simp
  obtain w where w: "row_of vw_id (at_reviews st) (ri_id r) = Some w" "vw_revision w = uint previous"
    using prev rows by (cases "row_of vw_id (at_reviews st) (ri_id r)") auto
  show "row_of vw_id (at_reviews st') (ri_id r) = map_option (review_row_for r) (row_of vw_id (at_reviews st) (ri_id r))"
    by (simp add: st' rows row_of_review_update)
  show "row_of vw_id (at_reviews st) (ri_id r) \<noteq> None" using w by simp
  show "j \<noteq> ri_id r \<Longrightarrow> review_count j st' = review_count j st"
    by (simp add: review_count_def st' rows row_of_review_update)
  show "review_count (ri_id r) st = unat previous + 1" using w by (simp add: review_count_def nat_add_distrib)
  show "review_count (ri_id r) st' = unat (ri_revision r) + 1"
    using w by (simp add: review_count_def st' rows row_of_review_update review_row_for_def nat_add_distrib)
qed

lemma edit_review_Inr:
  "edit_review r title fp at = Inr x \<Longrightarrow> ri_id x = ri_id r \<and> ri_revision x = sat_inc (ri_revision r) \<and>
     ri_status r \<in> {PendingReview, ReviewPendingApproval} \<and> ri_status x = PendingReview \<and> ri_tool_invocation_id x = None"
  by (auto simp: edit_review_def bind_res_Inr_iff split: if_splits)

lemma resolve_review_Inr:
  "resolve_review r ok at = Inr x \<Longrightarrow> ri_id x = ri_id r \<and> ri_revision x = sat_inc (ri_revision r) \<and>
     ri_status r \<in> {PendingReview, ReviewPendingApproval} \<and> ri_status x = (if ok then ReviewAccepted else ReviewRejected) \<and>
     (ok \<longrightarrow> ri_status r = PendingReview) \<and> ri_tool_invocation_id x = ri_tool_invocation_id r"
  by (auto simp: resolve_review_def split: if_splits)

text \<open>An action by \<open>v\<close>: an edit or a decision that names this revision.\<close>

definition review_acts :: "auto_env \<Rightarrow> uuid \<Rightarrow> string \<Rightarrow> auto_store \<Rightarrow> review_item \<Rightarrow> auto_store \<Rightarrow> bool" where
  "review_acts env i v st item st' \<longleftrightarrow>
     (\<exists>k t k' t' at.
        (\<exists>title fp. edit_review_queue_item env k t k' t' i v title fp at st = Inr (item, st')) \<or>
        (\<exists>ok. resolve_review_queue_item env k t k' t' i v ok at st = Inr (item, st')))"

lemma review_acts_cases:
  assumes "review_acts env i v st item st'"
  obtains r k' t' p where "review_queue_item st i = Inr r" "v = action_revision (rv_sha (av_run env)) (av_review_json env) r"
    "ri_id item = ri_id r" "ri_revision item = sat_inc (ri_revision r)"
    "persist_review_item_transition k' t' item (ri_revision r) p st = Inr st'"
  using assms unfolding review_acts_def
proof (elim exE disjE)
  fix k t k' t' at title fp
  assume e: "edit_review_queue_item env k t k' t' i v title fp at st = Inr (item, st')"
  obtain r where r: "review_queue_item st i = Inr r" "v = action_revision (rv_sha (av_run env)) (av_review_json env) r"
    "edit_review r title fp at = Inr item"
    "persist_review_item_transition k' t' item (ri_revision r)
       (review_tool_approval_invalidation st r ''Review preview changed'' k t) st = Inr st'"
    by (rule edit_cases [OF e])
  show ?thesis by (rule that [OF r(1,2) _ _ r(4)]) (simp_all add: edit_review_Inr [OF r(3)])
next
  fix k t k' t' at ok
  assume e: "resolve_review_queue_item env k t k' t' i v ok at st = Inr (item, st')"
  obtain r where r: "review_queue_item st i = Inr r" "v = action_revision (rv_sha (av_run env)) (av_review_json env) r"
    "resolve_review r ok at = Inr item"
    "persist_review_item_transition k' t' item (ri_revision r)
       (if ok then None else review_tool_approval_invalidation st r ''Review item rejected'' k t) st = Inr st'"
    by (rule resolve_cases [OF e])
  show ?thesis by (rule that [OF r(1,2) _ _ r(4)]) (simp_all add: resolve_review_Inr [OF r(3)])
qed

lemma review_acts_count:
  assumes inv: "auto_inv st" and a: "review_acts env i v st item st'"
  shows "review_count j st \<le> review_count j st'"
    and "review_queue_item st i = Inr r \<Longrightarrow> ri_revision r \<noteq> - 1 \<Longrightarrow> review_count i st < review_count i st'"
proof -
  obtain q k' t' p where q: "review_queue_item st i = Inr q" "ri_id item = ri_id q"
    "ri_revision item = sat_inc (ri_revision q)" "persist_review_item_transition k' t' item (ri_revision q) p st = Inr st'"
    by (rule review_acts_cases [OF a])
  have i: "ri_id item = i" using review_read(2) [OF _ q(1)] inv q(2) by (simp add: auto_inv_def)
  have c: "review_count i st = unat (ri_revision q) + 1" "review_count i st' = unat (sat_inc (ri_revision q)) + 1"
    using persist_review_count(4,5) [OF q(4)] i q(3) by simp_all
  show "review_count j st \<le> review_count j st'"
    using c persist_review_count(3) [OF q(4), of j] i sat_inc_ge [of "ri_revision q", unfolded word_le_nat_alt] by (cases "j = i") simp_all
  assume r: "review_queue_item st i = Inr r" "ri_revision r \<noteq> - 1"
  then have "q = r" using q(1) by simp
  moreover have "unat (sat_inc (ri_revision r)) = Suc (unat (ri_revision r))"
    unfolding sat_inc_def if_not_P [OF r(2)] by (rule unat_succ_word [OF r(2)])
  ultimately show "review_count i st < review_count i st'" using c by simp
qed

lemma auto_next_reviews:
  assumes "auto_inv st" and "auto_next env js st st'"
  shows "review_count i st \<le> review_count i st'"
  using assms(2)
proof cases
  case (auto_claim k i now worker r)
  then show ?thesis by (rule claim_cases) (auto intro: review_count_same review_count_insert)
next
  case (auto_enqueue k1 t1 k2 k3 t3 i now worker c r)
  then show ?thesis by (rule enqueue_cases) (auto intro: review_count_same review_count_insert)
next
  case (auto_manual k1 t1 k2 k3 t3 i m now c x)
  then show ?thesis by (rule manual_cases) (auto intro: review_count_same review_count_insert)
next
  case (auto_reconcile at)
  have "at_reviews (snd (reconcile_loop agents at rs n st)) = at_reviews st" for agents rs n
    by (rule reconcile_keeps) (auto elim!: transition_cases dest: persist_run_reviews)
  then show ?thesis using auto_reconcile
    by (auto simp: reconcile_automation_agent_runs_def intro!: review_count_same split: sum.splits)
next
  case auto_transition
  then show ?thesis by (auto elim!: transition_cases dest!: persist_run_reviews intro: review_count_same)
next
  case (auto_link i agent at r)
  then have "at_reviews st' = at_reviews st"
    by (auto simp: link_automation_run_to_agent_run_def bind_res_Inr_iff Let_def dest: persist_run_reviews
        split: option.splits if_splits)
  then show ?thesis by (rule review_count_same)
next
  case (auto_review item)
  then show ?thesis
  proof (rule review_upsert_cases)
    fix m st1
    assume "write_review_row item st = Inr st1"
      "st' = touch_automation_run (m\<lparr>am_review_queue_item_id := Some (ri_id item), am_updated_at := ri_updated_at item\<rparr>) st1"
    then show ?thesis using write_review_count by (simp add: review_count_frame [of "touch_automation_run _ st1" st1])
  qed simp
next
  case auto_edit
  then show ?thesis using review_acts_count(1) [OF assms(1)] unfolding review_acts_def by blast
next
  case auto_resolve
  then show ?thesis using review_acts_count(1) [OF assms(1)] unfolding review_acts_def by blast
qed (auto intro!: review_count_same simp: upsert_automation_checkpoint_def dest: define_frame status_frame goal_frame)

interpretation reviews: counted_system "auto_next env js" auto_inv "review_count i" for env js i
  by unfold_locales (rule auto_next_reviews)

text \<open>
  C14: An action on a review is spent once. After an edit or a decision named the revision of a review
  item and succeeded, no later edit or decision that names the same revision succeeds, whatever
  happened in between, if the digests of two actions agree only for the same revision number and the
  number is not at its maximum.
\<close>

theorem review_action_spent_once:
  assumes "auto_initial st0" and "(auto_next env js)\<^sup>*\<^sup>* st0 st" and "review_acts env i v st item st1"
    and "review_queue_item st i = Inr r" and "ri_revision r \<noteq> - 1" and "(auto_next env js)\<^sup>*\<^sup>* st1 st2"
    and "\<And>q. action_revision (rv_sha (av_run env)) (av_review_json env) q =
        action_revision (rv_sha (av_run env)) (av_review_json env) r \<Longrightarrow> ri_revision q = ri_revision r"
  shows "\<not> review_acts env i v st2 item' st3"
proof
  assume again: "review_acts env i v st2 item' st3"
  have inv: "auto_inv st" using auto_reachable_inv [OF assms(1,2)] .
  have step: "auto_next env js st st1"
    using assms(3) unfolding review_acts_def by (blast intro: auto_edit auto_resolve)
  then have inv1: "auto_inv st1" using auto_next_inv [OF inv] by blast
  then have inv2: "auto_inv st2" using automations.run_inv [OF assms(6)] by blast
  obtain q where q: "review_queue_item st2 i = Inr q" "v = action_revision (rv_sha (av_run env)) (av_review_json env) q"
    by (rule review_acts_cases [OF again])
  obtain q0 where "review_queue_item st i = Inr q0" "v = action_revision (rv_sha (av_run env)) (av_review_json env) q0"
    by (rule review_acts_cases [OF assms(3)])
  then have "ri_revision q = ri_revision r" using assms(4) assms(7) [of q] q(2) by simp
  then have "review_count i st2 = review_count i st"
    using review_read(1) [OF _ q(1)] review_read(1) [OF _ assms(4)] inv inv2 by (simp add: auto_inv_def)
  moreover have "review_count i st < review_count i st1" by (rule review_acts_count(2) [OF inv assms(3-5)])
  moreover have "review_count i st1 \<le> review_count i st2" by (rule reviews.run_count [OF assms(6) inv1])
  ultimately show False by simp
qed

section \<open>The runs and the log beneath\<close>

definition log_ok :: "auto_env \<Rightarrow> auto_store \<Rightarrow> bool" where
  "log_ok env st \<longleftrightarrow> run_inv (av_run env) (at_runs st)"

lemma log_ok_same: "at_runs st' = at_runs st \<Longrightarrow> log_ok env st \<Longrightarrow> log_ok env st'"
  by (simp add: log_ok_def)

lemma insert_run_log: "insert_automation_run r worker now st = Inr (b, st') \<Longrightarrow> at_runs st' = at_runs st"
  by (auto elim: insert_run_cases)

lemma persist_run_log: "persist_automation_run r st = Inr st' \<Longrightarrow> at_runs st' = at_runs st"
  by (auto simp: persist_automation_run_def bind_res_Inr_iff)

lemma define_log: "upsert_automation_definition d st = Inr (p, st') \<Longrightarrow> at_runs st' = at_runs st"
  by (auto simp: upsert_automation_definition_def bind_res_Inr_iff Let_def split: if_splits)

lemma transition_log: "transition_automation_run i s agent e at st = Inr (r, st') \<Longrightarrow> at_runs st' = at_runs st"
  by (erule transition_cases) (rule persist_run_log)

text \<open>The event of a run that an automation starts is one its constructor makes.\<close>

lemma started_event_log:
  assumes "log_ok env st" and "invalid_state (start_queued i now c g n) = Inr s" and "insert_started_event k t s st = Inr st'"
  shows "log_ok env st'"
proof -
  have "payload_ok (RunStarted s)" using assms(2) start_queued_Inr by (auto simp: res_simps)
  then show ?thesis using assms(1,3) by (auto simp: insert_started_event_def log_ok_def run_inv_def split: if_splits)
qed

lemma enqueue_log:
  assumes "log_ok env st" and "enqueue_due_automation_agent_run env' k1 t1 k2 k3 t3 i now worker c st = Inr (x, st')"
  shows "log_ok env st'"
proof (rule enqueue_cases [OF assms(2)])
  fix d r st1
  assume a: "insert_automation_run r worker now st = Inr (True, st1)"
    "at_runs st' = at_runs st1 \<or> (\<exists>s. invalid_state (start_queued k1 t1 c (ad_goal d) 0) = Inr s \<and>
       insert_started_event k3 t3 s st1 = Inr st')"
  have "log_ok env st1" by (rule log_ok_same [OF insert_run_log [OF a(1)] assms(1)])
  then show ?thesis using a(2) started_event_log log_ok_same by blast
qed (use assms(1) in simp)

lemma manual_log:
  assumes "log_ok env st" and "enqueue_manual_automation_agent_run env' k1 t1 k2 k3 t3 i m now c st = Inr (x, st')"
  shows "log_ok env st'"
proof (rule manual_cases [OF assms(2)])
  fix d r st1
  assume a: "insert_automation_run r ''manual'' now st = Inr (True, st1)"
    "\<exists>s. invalid_state (start_queued k1 t1 c (ad_goal d) 0) = Inr s \<and> insert_started_event k3 t3 s st1 = Inr st'"
  have "log_ok env st1" by (rule log_ok_same [OF insert_run_log [OF a(1)] assms(1)])
  then show ?thesis using a(2) started_event_log by blast
qed

text \<open>The denial of an approval is an event of the access tables.\<close>

lemma resolution_event_log:
  assumes "log_ok env st" and "insert_resolution_event k t p st = Inr st'"
  shows "log_ok env st'"
proof (cases p)
  case None
  then show ?thesis using assms by (simp add: insert_resolution_event_def)
next
  case (Some q)
  let ?g = "rn_goals (at_runs st)"
  obtain x where x: "insert_kernel_event \<lparr>ke_id = k, ke_payload = PermissionResolved q, ke_created_at = t\<rparr> (gs_exec ?g) = Inr x"
    "st' = st\<lparr>at_runs := (at_runs st)\<lparr>rn_goals := ?g\<lparr>gs_exec := x\<rparr>\<rparr>\<rparr>"
    using assms(2) Some by (auto simp: insert_resolution_event_def bind_res_Inr_iff split: if_splits)
  have inv: "store_inv (rv_goal (av_run env)) ?g" using assms(1) by (simp add: log_ok_def run_inv_def)
  have "store_inv (rv_goal (av_run env)) (?g\<lparr>gs_exec := x\<rparr>)"
    by (rule store_inv_grows [OF inv]) (use exec_ok_insert [OF x(1)] inv in \<open>simp_all add: store_inv_def goal_inv_def\<close>)
  then show ?thesis using assms(1) by (simp add: log_ok_def run_inv_def x(2))
qed

lemma persist_review_log:
  assumes "log_ok env st" and "persist_review_item_transition k t r previous p st = Inr st'"
  shows "log_ok env st'"
proof (rule persist_review_cases [OF assms(2)])
  fix m st1
  assume a: "insert_resolution_event k t p st = Inr st1" "st' = touch_automation_run (m\<lparr>am_updated_at := ri_updated_at r\<rparr>)
       (st1\<lparr>at_reviews := update_row vw_id (ri_id r) (review_row_for r) (at_reviews st1)\<rparr>)"
  have "log_ok env st1" by (rule resolution_event_log [OF assms(1) a(1)])
  then show ?thesis by (simp add: a(2) log_ok_def)
qed

lemma auto_next_log:
  assumes ok: "log_ok env st" and step: "auto_next env js st st'"
  shows "log_ok env st'"
  using step
proof cases
  case auto_runs
  then show ?thesis using ok run_next_inv by (simp add: log_ok_def)
next
  case auto_define
  then show ?thesis using log_ok_same [OF define_log ok] by blast
next
  case auto_status
  then show ?thesis using log_ok_same [OF define_log ok]
    by (auto simp: set_automation_definition_status_def bind_res_Inr_iff)
next
  case auto_goal
  then show ?thesis using log_ok_same [OF define_log ok]
    by (auto simp: update_automation_goal_def bind_res_Inr_iff split: if_splits)
next
  case (auto_claim k i now worker r)
  then show ?thesis by (rule claim_cases) (use ok log_ok_same [OF insert_run_log ok] in auto)
next
  case auto_enqueue
  then show ?thesis using enqueue_log [OF ok] by blast
next
  case auto_manual
  then show ?thesis using manual_log [OF ok] by blast
next
  case (auto_reconcile at)
  have "log_ok env (snd (reconcile_loop agents at rs n st))" for agents rs n
    by (rule reconcile_keeps [of "log_ok env", OF _ ok]) (auto intro: log_ok_same transition_log)
  then show ?thesis using auto_reconcile ok
    by (simp add: reconcile_automation_agent_runs_def split: sum.splits)
next
  case auto_transition
  then show ?thesis using log_ok_same [OF transition_log ok] by blast
next
  case auto_link
  then have "at_runs st' = at_runs st"
    by (auto simp: link_automation_run_to_agent_run_def bind_res_Inr_iff Let_def dest: persist_run_log
        split: option.splits if_splits)
  then show ?thesis by (rule log_ok_same [OF _ ok])
next
  case auto_checkpoint
  then show ?thesis using ok by (simp add: log_ok_def upsert_automation_checkpoint_def)
next
  case (auto_review item)
  then show ?thesis
    by (rule review_upsert_cases) (use ok log_ok_same in \<open>auto dest!: write_review_frame\<close>)
next
  case auto_edit
  then show ?thesis by (auto elim!: edit_cases intro: persist_review_log [OF ok])
next
  case auto_resolve
  then show ?thesis by (auto elim!: resolve_cases intro: persist_review_log [OF ok])
qed

lemma auto_reachable_log:
  assumes "auto_initial st0" and "(auto_next env js)\<^sup>*\<^sup>* st0 st"
  shows "log_ok env st"
  using assms(2)
proof (induction rule: rtranclp_induct)
  case base
  then show ?case using assms(1) run_initial_inv by (simp add: auto_initial_def log_ok_def)
qed (rule auto_next_log)

text \<open>
  A change of an item that carries a rejection of a request leaves the request rejected; one that carries
  none leaves every request as it was.
\<close>

definition request_rejected :: "exec_store \<Rightarrow> uuid \<Rightarrow> capability_kind \<Rightarrow> bool" where
  "request_rejected x request c \<longleftrightarrow>
     (\<exists>w p. access_row_of x request = Some w \<and> aw_resolution w = Some p \<and> \<not> pr_approved p \<and> aw_status w = Rejected) \<and>
     available_capability_grant_request_id x c \<noteq> Some request"

lemma map_option_bind_find:
  "Option.bind o1 (\<lambda>v. map_option f (g v)) = map_option f (Option.bind o1 g)"
  by (cases o1) simp_all

lemma invalidation_none:
  assumes "persist_review_item_transition k' t' item n None st = Inr st'"
  shows "xs_access (gs_exec (rn_goals (at_runs st'))) = xs_access (gs_exec (rn_goals (at_runs st)))"
  by (rule persist_review_cases [OF assms]) (simp add: insert_resolution_event_def)

lemma invalidation_rejects:
  assumes p: "persist_review_item_transition k' t' item n (Some (new_resolution k t request False reason)) st = Inr st'"
    and inv: "access_inv (gs_exec (rn_goals (at_runs st)))"
  shows "request_rejected (gs_exec (rn_goals (at_runs st'))) request c"
proof -
  let ?p = "new_resolution k t request False reason"
  obtain m st1 where ev: "insert_resolution_event k' t' (Some ?p) st = Inr st1"
    and st': "st' = touch_automation_run (m\<lparr>am_updated_at := ri_updated_at item\<rparr>)
       (st1\<lparr>at_reviews := update_row vw_id (ri_id item) (review_row_for item) (at_reviews st1)\<rparr>)"
    by (rule persist_review_cases [OF p])
  let ?x = "gs_exec (rn_goals (at_runs st))" and ?y = "gs_exec (rn_goals (at_runs st'))"
  have ins: "insert_kernel_event \<lparr>ke_id = k', ke_payload = PermissionResolved ?p, ke_created_at = t'\<rparr> ?x = Inr ?y"
    using ev by (auto simp: insert_resolution_event_def bind_res_Inr_iff st' split: if_splits)
  note rows = resolution_row [OF inv ins] and inv' = insert_inv [OF inv ins]
  obtain w where w: "access_row_of ?y request = Some w" "aw_resolution w = Some ?p" "aw_status w = Rejected"
    using rows by (auto simp: new_resolution_def resolved_status_def)
  moreover have "available_capability_grant_request_id ?y c \<noteq> Some request"
  proof
    assume "available_capability_grant_request_id ?y c = Some request"
    then obtain u where u: "u \<in> set (xs_access ?y)" "access_key u = request" "aw_status u = Approved"
      using available_Some by blast
    have "row_of access_key (xs_access ?y) (access_key u) = Some u"
      by (rule row_of_mem [OF _ u(1)]) (use inv' in \<open>simp add: access_inv_def\<close>)
    then show False using w u by (simp add: access_row_of_def)
  qed
  ultimately show ?thesis by (auto simp: request_rejected_def new_resolution_def)
qed

text \<open>
  C13: A changed or rejected review loses the approval the store finds for it. In a reachable store, when
  an item is edited or rejected and the newest 500 tool invocations hold its tool with an approval
  request, that request is rejected with it: in the store this leaves the request is resolved as not
  approved and no capability is granted by it. When they do not hold the tool, or hold it without a
  request, no approval request changes at all, so an approval asked for by an older invocation is kept. In
  both cases the item is back in review without the tool, or rejected.
\<close>

theorem changed_review_loses_approval:
  assumes "auto_initial st0" and "(auto_next env js)\<^sup>*\<^sup>* st0 st"
    and "edit_review_queue_item env k t k' t' i v title fp at st = Inr (item, st') \<or>
      resolve_review_queue_item env k t k' t' i v False at st = Inr (item, st')"
    and "review_queue_item st i = Inr r" and "ri_tool_invocation_id r = Some tool"
    and "found = Option.bind (find (\<lambda>x. ti_id x = tool) (list_tool_invocations (gs_exec (rn_goals (at_runs st)))))
      ti_approval_request_id"
  shows "(\<forall>request. found = Some request \<longrightarrow>
      (\<exists>w p. access_row_of (gs_exec (rn_goals (at_runs st'))) request = Some w \<and> aw_resolution w = Some p \<and>
        \<not> pr_approved p \<and> aw_status w = Rejected) \<and>
      available_capability_grant_request_id (gs_exec (rn_goals (at_runs st'))) c \<noteq> Some request) \<and>
    (found = None \<longrightarrow> xs_access (gs_exec (rn_goals (at_runs st'))) = xs_access (gs_exec (rn_goals (at_runs st)))) \<and>
    (ri_status item = PendingReview \<and> ri_tool_invocation_id item = None \<or> ri_status item = ReviewRejected)"
proof -
  let ?inv = "\<lambda>reason. map_option (\<lambda>request. new_resolution k t request False reason) found"
  have den: "review_tool_approval_invalidation st r reason k t = ?inv reason" for reason
    using assms(5,6) by (simp add: review_tool_approval_invalidation_def map_option_bind_find)
  obtain reason where p: "persist_review_item_transition k' t' item (ri_revision r) (?inv reason) st = Inr st'"
    and item: "ri_status item = PendingReview \<and> ri_tool_invocation_id item = None \<or> ri_status item = ReviewRejected"
    using assms(3)
  proof
    assume "edit_review_queue_item env k t k' t' i v title fp at st = Inr (item, st')"
    then show ?thesis using assms(4) den that by (auto elim!: edit_cases dest!: edit_review_Inr)
  next
    assume "resolve_review_queue_item env k t k' t' i v False at st = Inr (item, st')"
    then show ?thesis using assms(4) den that by (auto elim!: resolve_cases dest!: resolve_review_Inr)
  qed
  have inv: "access_inv (gs_exec (rn_goals (at_runs st)))"
    using auto_reachable_log [OF assms(1,2)] by (simp add: log_ok_def run_inv_def store_inv_def)
  have "found = Some request \<Longrightarrow> request_rejected (gs_exec (rn_goals (at_runs st'))) request c" for request
    using invalidation_rejects [OF _ inv, of k' t' item "ri_revision r" k t request reason st'] p by simp
  then show ?thesis
    using item invalidation_none [of k' t' item "ri_revision r" st st'] p by (auto simp: request_rejected_def)
qed

section \<open>The life of a review item\<close>

inductive review_next :: "review_item \<Rightarrow> review_item \<Rightarrow> bool" where
  review_edit: "edit_review r title fp at = Inr x \<Longrightarrow> review_next r x"
| review_request: "request_approval r tool fp at = Inr x \<Longrightarrow> review_next r x"
| review_resolve: "resolve_review r ok at = Inr x \<Longrightarrow> review_next r x"
| review_complete: "complete_approved_action r evidence at = Inr x \<Longrightarrow> review_next r x"

inductive_cases review_nextE: "review_next r x"

definition review_new :: "review_item \<Rightarrow> bool" where
  "review_new r \<longleftrightarrow> ri_status r = PendingReview \<and> ri_tool_invocation_id r = None"

text \<open>\<open>x\<close> waits for the approved action of its tool, asked for with the preview it shows.\<close>

definition approval_asked :: "review_item \<Rightarrow> review_item \<Rightarrow> bool" where
  "approval_asked r0 x \<longleftrightarrow> (\<exists>r tool fp at. review_next\<^sup>*\<^sup>* r0 r \<and> request_approval r tool fp at = Inr x)"

lemma request_Inr:
  "request_approval r tool fp at = Inr x \<Longrightarrow> ri_status r = PendingReview \<and> ri_status x = ReviewPendingApproval \<and>
     ri_tool_invocation_id x = Some tool \<and> ri_preview_fingerprint r = Some (trim fp) \<and> ri_preview_fingerprint x = Some (trim fp)"
  by (auto simp: request_approval_def bind_res_Inr_iff required_text_Inr_iff split: if_splits)

lemma complete_Inr:
  "complete_approved_action r evidence at = Inr x \<Longrightarrow> ri_status r = ReviewPendingApproval \<and> ri_status x = ReviewAccepted \<and>
     ri_tool_invocation_id x = ri_tool_invocation_id r \<and> ri_preview_fingerprint x = ri_preview_fingerprint r \<and>
     ri_evidence_ref x = Some (trim evidence) \<and> trim evidence \<noteq> []"
  by (auto simp: complete_approved_action_def bind_res_Inr_iff required_text_Inr_iff split: if_splits)

definition review_ok :: "review_item \<Rightarrow> review_item \<Rightarrow> bool" where
  "review_ok r0 x \<longleftrightarrow>
     (ri_status x = PendingReview \<longrightarrow> ri_tool_invocation_id x = None) \<and>
     (ri_status x = ReviewPendingApproval \<longrightarrow> approval_asked r0 x) \<and>
     (ri_status x = ReviewAccepted \<and> ri_tool_invocation_id x \<noteq> None \<longrightarrow>
        (\<exists>y evidence at. approval_asked r0 y \<and> complete_approved_action y evidence at = Inr x))"

lemma review_next_ok:
  assumes reach: "review_next\<^sup>*\<^sup>* r0 r" and ok: "review_ok r0 r" and step: "review_next r x"
  shows "review_ok r0 x"
  using step
proof (rule review_nextE)
  fix title fp at assume "edit_review r title fp at = Inr x"
  then show ?thesis using edit_review_Inr by (simp add: review_ok_def)
next
  fix tool fp at assume a: "request_approval r tool fp at = Inr x"
  then show ?thesis using request_Inr [OF a] reach by (auto simp: review_ok_def approval_asked_def)
next
  fix ok' at assume a: "resolve_review r ok' at = Inr x"
  then show ?thesis using resolve_review_Inr [OF a] ok by (auto simp: review_ok_def split: if_splits)
next
  fix evidence at assume a: "complete_approved_action r evidence at = Inr x"
  then show ?thesis using complete_Inr [OF a] ok by (auto simp: review_ok_def)
qed

lemma review_run_ok:
  assumes "review_new r0" and "review_next\<^sup>*\<^sup>* r0 r"
  shows "review_ok r0 r"
  using assms(2)
proof (induction rule: rtranclp_induct)
  case base
  then show ?case using assms(1) by (simp add: review_ok_def review_new_def)
next
  case (step y z)
  then show ?case by (blast intro: review_next_ok)
qed

lemma review_final:
  "ri_status r \<in> {ReviewAccepted, ReviewRejected} \<Longrightarrow> \<not> review_next r x"
  by (auto elim!: review_nextE dest!: edit_review_Inr request_Inr resolve_review_Inr complete_Inr)

text \<open>
  C12: An approved action leaves evidence. An accepted review item that names a tool invocation was
  asked to be approved for exactly the preview it showed, was not changed after that, and was accepted
  only by the completed action, with its evidence; and an accepted or rejected item never changes.
\<close>

theorem approved_action_leaves_evidence:
  assumes "review_new r0" and "review_next\<^sup>*\<^sup>* r0 x"
  shows "(ri_status x = ReviewAccepted \<and> ri_tool_invocation_id x = Some tool \<longrightarrow>
      (\<exists>r y fp asked evidence at. review_next\<^sup>*\<^sup>* r0 r \<and> request_approval r tool fp asked = Inr y \<and>
         ri_preview_fingerprint r = Some (trim fp) \<and> complete_approved_action y evidence at = Inr x \<and>
         ri_preview_fingerprint x = Some (trim fp) \<and> ri_evidence_ref x = Some (trim evidence) \<and> trim evidence \<noteq> [])) \<and>
    (ri_status x \<in> {ReviewAccepted, ReviewRejected} \<longrightarrow> (\<forall>z. \<not> review_next x z))"
proof -
  have "\<exists>r y fp asked evidence at. review_next\<^sup>*\<^sup>* r0 r \<and> request_approval r tool fp asked = Inr y \<and>
      ri_preview_fingerprint r = Some (trim fp) \<and> complete_approved_action y evidence at = Inr x \<and>
      ri_preview_fingerprint x = Some (trim fp) \<and> ri_evidence_ref x = Some (trim evidence) \<and> trim evidence \<noteq> []"
    if acc: "ri_status x = ReviewAccepted" "ri_tool_invocation_id x = Some tool"
  proof -
    obtain y evidence at where y: "approval_asked r0 y" "complete_approved_action y evidence at = Inr x"
      using review_run_ok [OF assms] acc by (auto simp: review_ok_def)
    obtain r t fp asked where r: "review_next\<^sup>*\<^sup>* r0 r" "request_approval r t fp asked = Inr y"
      using y(1) by (auto simp: approval_asked_def)
    have "t = tool" using request_Inr [OF r(2)] complete_Inr [OF y(2)] acc(2) by simp
    then show ?thesis using r y(2) request_Inr [OF r(2)] complete_Inr [OF y(2)] by metis
  qed
  then show ?thesis using review_final by blast
qed

section \<open>A concrete calendar and store\<close>

text \<open>A calendar without changes of the clock: a day has 86400 seconds everywhere.\<close>

definition demo_calendar :: calendar where
  "demo_calendar =
     \<lparr>ca_zone = (\<lambda>_. True), ca_local_date = (\<lambda>_ t. t div 86400000000000), ca_month_day = (\<lambda>d. nat (d mod 30) + 1),
      ca_from_local = (\<lambda>_ d h m. SingleTime ((d * 86400 + int h * 3600 + int m * 60) * 1000000000))\<rparr>"

definition demo_daily :: automation_definition where
  "demo_daily =
     \<lparr>ad_id = 40, ad_revision = 0, ad_goal = ''go'', ad_timezone = ''Z'', ad_schedule = Daily 9 30,
      ad_status = AutomationEnabled, ad_missed_run_policy = MissedRunOnce, ad_retry_limit = 0,
      ad_missed_after_seconds = 300, ad_created_at = 0, ad_updated_at = 0\<rparr>"

lemma demo_dates: "dates_in_order demo_calendar zone"
  by (auto simp: dates_in_order_def demo_calendar_def)

lemma demo_recurring: "recurring (ad_schedule demo_daily)"
  by (simp add: recurring_def demo_daily_def)

lemma searched_dates_Cons:
  "searched_dates cal zone after = ca_local_date cal zone after # (ca_local_date cal zone after + 1) #
     map (\<lambda>k. ca_local_date cal zone after + int k) [2..<401]"
proof -
  have "[0..<401] = 0 # 1 # [2..<401 :: nat]" by (simp add: upt_conv_Cons numeral_2_eq_2)
  then show ?thesis by (simp add: searched_dates_def)
qed

lemma demo_next_times:
  "next_scheduled_at demo_calendar demo_daily (- 1) = Inr (Some 34200000000000)"
  "next_scheduled_at demo_calendar demo_daily 34200000000000 = Inr (Some 120600000000000)"
  "next_scheduled_at demo_calendar demo_daily 120600000000000 = Inr (Some 207000000000000)"
  by (simp_all add: next_scheduled_at_def demo_daily_def demo_calendar_def searched_dates_Cons)

theorem next_run_is_earliest_witness:
  "next_scheduled_at demo_calendar demo_daily (- 1) = Inr (Some 34200000000000) \<and>
   \<not> (\<exists>u. scheduled_on demo_calendar demo_daily 0 u \<and> - 1 < u \<and> u < 34200000000000)"
proof -
  have z: "ca_local_date demo_calendar (ad_timezone demo_daily) (- 1) = - 1" by (simp add: demo_calendar_def)
  have all: "\<forall>k u. scheduled_on demo_calendar demo_daily (- 1 + int k) u \<and> - 1 < u \<longrightarrow> 34200000000000 \<le> u"
    using next_run_is_earliest [OF demo_recurring demo_dates demo_next_times(1)] unfolding z by auto
  have "34200000000000 \<le> u" if "scheduled_on demo_calendar demo_daily 0 u" "- 1 < u" for u
    using all [rule_format, of 1 u] that by simp
  then show ?thesis using demo_next_times(1) by (auto simp: not_less [symmetric])
qed

definition demo_action_json :: review_json where
  "demo_action_json = (\<lambda>i a g t s f n. replicate (unat n) (CHR ''x''))"

definition demo_auto_env :: auto_env where
  "demo_auto_env =
     \<lparr>av_run = demo_run_env\<lparr>rv_rfc3339 := (\<lambda>t. if t < 100000000000000 then ''d0'' else ''d1'')\<rparr>,
      av_calendar = demo_calendar, av_review_json = demo_action_json\<rparr>"

definition demo_auto_start :: auto_store where
  "demo_auto_start =
     \<lparr>at_runs = demo_run_start, at_definitions = [], at_automations = [], at_checkpoints = [], at_reviews = []\<rparr>"

lemma demo_auto_initial: "auto_initial demo_auto_start"
  using demo_run_initial by (simp add: auto_initial_def demo_auto_start_def)

definition demo_defined :: "automation_definition \<Rightarrow> auto_store" where
  "demo_defined d = demo_auto_start\<lparr>at_definitions := [\<lparr>dn_id = ad_id d, dn_definition = d, dn_status = ad_status d,
     dn_revision = 0, dn_updated_at = ad_updated_at d\<rparr>]\<rparr>"

lemma demo_define: "ad_revision d = 0 \<Longrightarrow> upsert_automation_definition d demo_auto_start = Inr (d, demo_defined d)"
  by (simp add: upsert_automation_definition_def demo_auto_start_def demo_defined_def i64_of_u64_def Let_def
      upsert_row_def ok_or_def)

lemma demo_definition_read:
  "at_definitions st = at_definitions (demo_defined d) \<Longrightarrow> automation_definition_of st (ad_id d) = Inr d"
  by (simp add: automation_definition_of_def no_row_def demo_defined_def row_of_Cons ok_or_def)

text \<open>The run of the first window, the second one, and the agent run of the first.\<close>

definition demo_auto_run :: "uuid \<Rightarrow> string \<Rightarrow> instant \<Rightarrow> uuid \<Rightarrow> automation_run" where
  "demo_auto_run i key t agent = queued_automation_run i demo_daily (''u:'' @ key) t False (Some agent) ''w'' (t + 1)"

definition demo_auto_row :: "automation_run \<Rightarrow> automation_row" where
  "demo_auto_row r =
     \<lparr>mw_id = am_id r, mw_definition_id = am_definition_id r, mw_trigger_window_key = am_trigger_window_key r,
      mw_scheduled_for = am_scheduled_for r, mw_run = r, mw_status = am_status r, mw_definition_revision = 0,
      mw_claimed_by = am_claimed_by r, mw_updated_at = am_updated_at r\<rparr>"

definition demo_agent_start :: "uuid \<Rightarrow> instant \<Rightarrow> run_start" where
  "demo_agent_start i t =
     \<lparr>rs_id = i, rs_conversation_id = ''c'', rs_prompt = ''go'', rs_attachment_count = 0, rs_role = ParentRun,
      rs_parent_run_id = None, rs_subtask_key = None, rs_expert_contract = None, rs_initial_status = Queued,
      rs_started_at = t\<rparr>"

definition demo_first_run :: automation_run where
  "demo_first_run = demo_auto_run 21 ''d0'' 34200000000000 20"

definition demo_second_run :: automation_run where
  "demo_second_run = demo_auto_run 23 ''d1'' 120600000000000 22"

definition demo_fired :: auto_store where
  "demo_fired = (demo_defined demo_daily)\<lparr>at_automations := [demo_auto_row demo_first_run],
     at_runs := demo_run_start\<lparr>rn_runs := [\<lparr>ke_id = 30, ke_payload = RunStarted (demo_agent_start 20 1), ke_created_at = 2\<rparr>]\<rparr>\<rparr>"

definition demo_fired_twice :: auto_store where
  "demo_fired_twice = demo_fired\<lparr>at_automations := [demo_auto_row demo_first_run, demo_auto_row demo_second_run],
     at_runs := demo_run_start\<lparr>rn_runs := rn_runs (at_runs demo_fired) @
       [\<lparr>ke_id = 31, ke_payload = RunStarted (demo_agent_start 22 3), ke_created_at = 4\<rparr>]\<rparr>\<rparr>"

lemma demo_queued: "start_queued i t ''c'' ''go'' 0 = Inr (demo_agent_start i t)"
  by (simp add: start_queued_def start_new_def demo_agent_start_def required_text_def text_eval)

lemma latest_due_stops:
  "0 < n \<Longrightarrow> nxt c = Inr f \<Longrightarrow> \<not> is_some_and f (\<lambda>v. v \<le> now) \<Longrightarrow> latest_due n nxt now (Some c) = Inr (Some c)"
  by (cases n) simp_all

lemma demo_windows:
  "due_automation_window demo_calendar [] demo_daily 34200000000001 = Inr (Some 34200000000000)"
  "due_automation_window demo_calendar [demo_auto_row demo_first_run] demo_daily 120600000000001 = Inr (Some 120600000000000)"
proof -
  have s: "ad_schedule demo_daily = Daily 9 30" "ad_created_at demo_daily = 0" "ad_id demo_daily = 40"
    by (simp_all add: demo_daily_def)
  have l: "last_scheduled [demo_auto_row demo_first_run] 40 = Some 34200000000000"
    by (simp add: last_scheduled_def demo_auto_row_def demo_first_run_def demo_auto_run_def s)
  show "due_automation_window demo_calendar [] demo_daily 34200000000001 = Inr (Some 34200000000000)"
    using demo_next_times latest_due_stops [of 5000 "next_scheduled_at demo_calendar demo_daily" 34200000000000 "Some 120600000000000"]
    by (simp add: due_automation_window_def s last_scheduled_def)
  show "due_automation_window demo_calendar [demo_auto_row demo_first_run] demo_daily 120600000000001 = Inr (Some 120600000000000)"
    using demo_next_times latest_due_stops [of 5000 "next_scheduled_at demo_calendar demo_daily" 120600000000000 "Some 207000000000000"]
    by (simp add: due_automation_window_def s l)
qed

lemma demo_skips: "\<not> skips_window demo_daily now t"
  by (simp add: skips_window_def demo_daily_def)

lemma demo_window_keys: "trigger_window_key demo_auto_env 40 t = ''u:'' @ (if t < 100000000000000 then ''d0'' else ''d1'')"
  by (simp add: trigger_window_key_def demo_auto_env_def demo_run_env_def demo_goal_env_def)

lemma demo_daily_sel: "ad_status demo_daily = AutomationEnabled" "ad_id demo_daily = 40" "ad_goal demo_daily = ''go''"
  "ad_revision demo_daily = 0"
  by (simp_all add: demo_daily_def)

lemma demo_events: "event_ids (demo_run_start\<lparr>rn_runs := es\<rparr>) = ke_id ` set es"
  by (simp add: event_ids_def demo_run_start_def demo_start_def blank_def)

lemma demo_enqueue:
  "enqueue_due_automation_agent_run demo_auto_env 20 1 21 30 2 40 34200000000001 ''w'' ''c'' (demo_defined demo_daily)
     = Inr (Some (demo_first_run, demo_agent_start 20 1), demo_fired)"
  "enqueue_due_automation_agent_run demo_auto_env 22 3 23 31 4 40 120600000000001 ''w'' ''c'' demo_fired
     = Inr (Some (demo_second_run, demo_agent_start 22 3), demo_fired_twice)"
proof -
  have d: "automation_definition_of (demo_defined demo_daily) 40 = Inr demo_daily"
    "automation_definition_of demo_fired 40 = Inr demo_daily"
    using demo_definition_read [of _ demo_daily] by (simp_all add: demo_daily_sel demo_fired_def)
  have c: "av_calendar demo_auto_env = demo_calendar" by (simp add: demo_auto_env_def)
  have rows: "at_automations (demo_defined demo_daily) = []" "at_automations demo_fired = [demo_auto_row demo_first_run]"
    by (simp_all add: demo_defined_def demo_auto_start_def demo_fired_def)
  have runs: "at_runs (demo_defined demo_daily) = demo_run_start" by (simp add: demo_defined_def demo_auto_start_def)
  note defs = insert_automation_run_def insert_started_event_def i64_of_u64_def ok_or_def demo_daily_sel demo_window_keys demo_queued
    demo_skips demo_windows rows d c
  show "enqueue_due_automation_agent_run demo_auto_env 20 1 21 30 2 40 34200000000001 ''w'' ''c'' (demo_defined demo_daily)
     = Inr (Some (demo_first_run, demo_agent_start 20 1), demo_fired)"
    using demo_events [of "[]"] by (simp add: enqueue_due_automation_agent_run_def Let_def defs runs)
      (simp add: demo_first_run_def demo_auto_run_def demo_agent_start_def queued_automation_run_def
        demo_daily_sel demo_fired_def demo_auto_row_def runs demo_run_start_def)
  show "enqueue_due_automation_agent_run demo_auto_env 22 3 23 31 4 40 120600000000001 ''w'' ''c'' demo_fired
     = Inr (Some (demo_second_run, demo_agent_start 22 3), demo_fired_twice)"
    by (simp add: enqueue_due_automation_agent_run_def Let_def defs)
      (simp add: demo_first_run_def demo_second_run_def demo_auto_run_def demo_agent_start_def queued_automation_run_def
        demo_daily_sel demo_fired_def demo_fired_twice_def demo_auto_row_def demo_events)
qed

lemma demo_auto_reach:
  "(auto_next demo_auto_env js)\<^sup>*\<^sup>* demo_auto_start (demo_defined demo_daily)"
  "(auto_next demo_auto_env js)\<^sup>*\<^sup>* demo_auto_start demo_fired"
  "(auto_next demo_auto_env js)\<^sup>*\<^sup>* demo_auto_start demo_fired_twice"
proof -
  show d: "(auto_next demo_auto_env js)\<^sup>*\<^sup>* demo_auto_start (demo_defined demo_daily)"
    using auto_define [OF demo_define [OF demo_daily_sel(4)]] by blast
  show f: "(auto_next demo_auto_env js)\<^sup>*\<^sup>* demo_auto_start demo_fired"
    by (rule rtranclp.rtrancl_into_rtrancl [OF d auto_enqueue [OF demo_enqueue(1)]])
  show "(auto_next demo_auto_env js)\<^sup>*\<^sup>* demo_auto_start demo_fired_twice"
    by (rule rtranclp.rtrancl_into_rtrancl [OF f auto_enqueue [OF demo_enqueue(2)]])
qed

theorem windows_fire_once_witness:
  "mw_scheduled_for (at_automations demo_fired_twice ! 0) < mw_scheduled_for (at_automations demo_fired_twice ! 1) \<and>
   length (at_automations demo_fired_twice) = 2"
proof -
  have l: "length (at_automations demo_fired_twice) = 2" by (simp add: demo_fired_twice_def)
  have "mw_definition_id (at_automations demo_fired_twice ! 0) = mw_definition_id (at_automations demo_fired_twice ! 1)"
    "\<not> starts_with ''manual:'' (mw_trigger_window_key (at_automations demo_fired_twice ! 1))"
    by (simp_all add: demo_fired_twice_def demo_auto_row_def demo_first_run_def demo_second_run_def demo_auto_run_def starts_with_def)
  then show ?thesis
    using windows_fire_once [OF demo_auto_initial demo_auto_reach(3), THEN conjunct2, rule_format, of 0 1] l by simp
qed

text \<open>A one-off automation for later, started by hand before.\<close>

definition demo_once :: automation_definition where
  "demo_once = demo_daily\<lparr>ad_schedule := Once 900\<rparr>"

theorem manual_run_spends_once_witness:
  "due_automation_window demo_calendar (at_automations (demo_defined demo_once)) demo_once 1000 = Inr (Some 900) \<and>
   (\<exists>x st1. enqueue_manual_automation_agent_run demo_auto_env 20 1 21 30 2 40 50 5 ''c'' (demo_defined demo_once) = Inr (x, st1) \<and>
      due_automation_window demo_calendar (at_automations st1) demo_once 1000 = Inr None)"
proof -
  have d: "automation_definition_of (demo_defined demo_once) 40 = Inr demo_once"
    using demo_definition_read [of "demo_defined demo_once" demo_once] by (simp add: demo_once_def demo_daily_sel)
  have sel: "ad_status demo_once = AutomationEnabled" "ad_goal demo_once = ''go''" "ad_revision demo_once = 0"
    "ad_schedule demo_once = Once 900"
    by (simp_all add: demo_once_def demo_daily_sel)
  have rows: "at_automations (demo_defined demo_once) = []" "at_runs (demo_defined demo_once) = demo_run_start"
    by (simp_all add: demo_defined_def demo_auto_start_def)
  obtain x st1 where m: "enqueue_manual_automation_agent_run demo_auto_env 20 1 21 30 2 40 50 5 ''c'' (demo_defined demo_once) = Inr (x, st1)"
    using demo_events [of "[]"]
    by (simp add: enqueue_manual_automation_agent_run_def d sel demo_queued Let_def insert_automation_run_def i64_of_u64_def
        ok_or_def insert_started_event_def rows queued_automation_run_def demo_run_start_def)
  have "due_automation_window demo_calendar (at_automations st1) demo_once 1000 = Inr None"
    by (rule manual_run_spends_once [OF m d rtranclp.rtrancl_refl [of "auto_next demo_auto_env demo_goal_json"] refl sel(4)])
  then show ?thesis using m by (auto simp: due_automation_window_def sel last_scheduled_def rows)
qed
text \<open>The agent run of the first window is taken by a worker.\<close>

definition demo_taken :: auto_store where
  "demo_taken = demo_fired\<lparr>at_runs := snd (append_agent_run_claim (av_run demo_auto_env)
     \<lparr>rc_id = 32, rc_run_id = 20, rc_worker_id = ''w'', rc_claimed_at = 50, rc_lease_expires_at = 150\<rparr>
     (at_runs demo_fired))\<rparr>"

lemma demo_auto_env_sel: "rv_goal (av_run demo_auto_env) = demo_goal_env" "rv_sha (av_run demo_auto_env) = (\<lambda>x. x)"
  "av_review_json demo_auto_env = demo_action_json"
  by (simp_all add: demo_auto_env_def demo_run_env_def)

lemma demo_taken_reach: "(auto_next demo_auto_env js)\<^sup>*\<^sup>* demo_auto_start demo_taken"
proof -
  have "auto_next demo_auto_env js demo_fired demo_taken"
    unfolding demo_taken_def by (rule auto_runs [OF next_claim])
  then show ?thesis by (rule rtranclp.rtrancl_into_rtrancl [OF demo_auto_reach(2)])
qed

lemma demo_taken_records:
  "case list_agent_run_records (av_run demo_auto_env) (at_runs demo_taken) of
     Inl e \<Rightarrow> False | Inr rs \<Rightarrow> map_option rec_status (last_by rec_id rs 20) = Some Running"
  by code_simp

lemma demo_taken_reconciles: "fst (reconcile_automation_agent_runs demo_auto_env 60 demo_taken) = Inr 1"
  by code_simp

theorem reconciliation_follows_agents_witness:
  "automation_run_of demo_taken 21 = Inr demo_first_run \<and> am_status demo_first_run = AutoQueued \<and>
   (\<exists>q. automation_run_of (snd (reconcile_automation_agent_runs demo_auto_env 60 demo_taken)) 21 = Inr q \<and>
      am_agent_run_id q = Some 20 \<and> am_status q = AutoRunning)"
proof -
  have r: "am_id demo_first_run = 21" "am_agent_run_id demo_first_run = Some 20" "am_status demo_first_run = AutoQueued"
    by (simp_all add: demo_first_run_def demo_auto_run_def queued_automation_run_def)
  have rows: "at_automations demo_taken = [demo_auto_row demo_first_run]" by (simp add: demo_taken_def demo_fired_def)
  have m: "demo_first_run \<in> set (list_automation_runs demo_taken)"
    by (simp add: list_automation_runs_def rows demo_auto_row_def)
  obtain rs g where rs: "list_agent_run_records (av_run demo_auto_env) (at_runs demo_taken) = Inr rs"
    "last_by rec_id rs 20 = Some g" "rec_status g = Running"
    using demo_taken_records by (auto split: sum.splits)
  obtain st' where st': "reconcile_automation_agent_runs demo_auto_env 60 demo_taken = (Inr 1, st')"
    using demo_taken_reconciles by (metis prod.collapse)
  show ?thesis
    using reconciliation_follows_agents [OF demo_auto_initial demo_taken_reach rs(1) st' m r(2) rs(2)] rs(3) r
    by (simp add: st' rows automation_run_of_def no_row_def ok_or_def row_of_Cons demo_auto_row_def)
qed

text \<open>A tool of that agent run waits for its approval; a review shows what it will do.\<close>

definition demo_waiting_tool :: tool_invocation where
  "demo_waiting_tool = demo_tool\<lparr>ti_run_id := Some 20, ti_status := ToolWaitingForConfirmation,
     ti_approval_request_id := Some 1\<rparr>"

definition demo_asked :: exec_store where
  "demo_asked = demo_store\<lparr>
     xs_events := xs_events demo_store @ [\<lparr>ke_id = 200, ke_payload = ToolRecorded demo_waiting_tool, ke_created_at = 4\<rparr>],
     xs_tools := [\<lparr>tr_invocation = demo_waiting_tool, tr_revision = 0, tr_created_at = 4, tr_updated_at = 4\<rparr>],
     xs_applied := [100, 200]\<rparr>"

definition demo_with_exec :: "exec_store \<Rightarrow> auto_store" where
  "demo_with_exec x = demo_fired\<lparr>at_runs := (at_runs demo_fired)\<lparr>rn_goals := demo_start\<lparr>gs_exec := x\<rparr>\<rparr>\<rparr>"

definition demo_review :: review_item where
  "demo_review =
     \<lparr>ri_id = 50, ri_automation_run_id = 21, ri_agent_run_id = Some 20, ri_tool_invocation_id = Some 20,
      ri_status = ReviewPendingApproval, ri_preview_fingerprint = Some ''p'', ri_revision = 0, ri_title = ''mail'',
      ri_evidence_ref = None, ri_created_at = 5, ri_updated_at = 5\<rparr>"

definition demo_in_review :: auto_store where
  "demo_in_review = (demo_with_exec demo_asked)\<lparr>at_reviews := [new_review_row demo_review],
     at_automations := [(demo_auto_row demo_first_run)\<lparr>mw_run := demo_first_run\<lparr>am_review_queue_item_id := Some 50,
       am_updated_at := 5\<rparr>, mw_updated_at := 5\<rparr>]\<rparr>"

lemma demo_waiting: "append_tool_invocation 200 4 demo_waiting_tool demo_store = Inr demo_asked"
  by (simp add: append_tool_invocation_def insert_kernel_event_def apply_execution_projection_def is_projected_def
      project_tool_def upsert_row_def demo_asked_def demo_waiting_tool_def demo_tool_def demo_store_def blank_def)

lemma demo_no_goals: "xs_goals x = (\<lambda>_. Inr None) \<Longrightarrow> with_goals demo_goal_env (demo_start\<lparr>gs_exec := x\<rparr>) = x"
  by (simp add: with_goals_def goal_envelope_projection_def demo_start_def)

lemma demo_exec_step:
  "access_next x y \<Longrightarrow> xs_goals x = (\<lambda>_. Inr None) \<Longrightarrow> auto_next demo_auto_env js (demo_with_exec x) (demo_with_exec y)"
  using auto_runs [where env = demo_auto_env and js = js and st = "demo_with_exec x", OF next_goal [OF goal_exec]] demo_no_goals [of x]
  by (simp add: demo_with_exec_def demo_auto_env_sel)

lemma demo_review_added: "upsert_review_queue_item demo_review (demo_with_exec demo_asked) = Inr demo_in_review"
  by (simp add: upsert_review_queue_item_def demo_with_exec_def demo_fired_def demo_defined_def demo_auto_start_def
      automation_run_of_def no_row_def ok_or_def row_of_Cons demo_review_def demo_auto_row_def demo_first_run_def
      demo_auto_run_def queued_automation_run_def write_review_row_def touch_automation_run_def update_row_def
      demo_in_review_def)

lemma demo_in_review_reach: "(auto_next demo_auto_env js)\<^sup>*\<^sup>* demo_auto_start demo_in_review"
proof -
  have 0: "demo_fired = demo_with_exec blank"
    by (simp add: demo_with_exec_def demo_fired_def demo_run_start_def demo_start_def)
  have 1: "auto_next demo_auto_env js demo_fired (demo_with_exec demo_store)"
    unfolding 0 by (rule demo_exec_step) (use demo_append next_append in \<open>auto simp: append_capability_access_request_def record_event_def blank_def\<close>)
  have 2: "auto_next demo_auto_env js (demo_with_exec demo_store) (demo_with_exec demo_asked)"
    by (rule demo_exec_step [OF next_tool [OF demo_waiting]]) (simp add: demo_store_def blank_def)
  show ?thesis using demo_auto_reach(2) 1 2 auto_review [OF demo_review_added] by (meson rtranclp.rtrancl_into_rtrancl)
qed

lemma demo_review_read: "review_queue_item demo_in_review 50 = Inr demo_review"
  by (simp add: review_queue_item_def no_row_def ok_or_def row_of_Cons demo_in_review_def new_review_row_def demo_review_def)

lemma demo_review_tool:
  "ri_tool_invocation_id demo_review = Some 20"
  "find (\<lambda>x. ti_id x = 20) (list_tool_invocations (gs_exec (rn_goals (at_runs demo_in_review)))) = Some demo_waiting_tool"
  "ti_approval_request_id demo_waiting_tool = Some 1"
  by (simp_all add: demo_review_def demo_in_review_def demo_with_exec_def demo_asked_def list_tool_invocations_def
      newest_first_def demo_waiting_tool_def demo_tool_def)

lemma demo_edit:
  obtains item st' where
    "edit_review_queue_item demo_auto_env 51 5 300 6 50 ''review1:'' ''new'' None 7 demo_in_review = Inr (item, st')"
proof -
  have e: "300 \<notin> event_ids (at_runs demo_in_review)"
    by (simp add: event_ids_def demo_in_review_def demo_with_exec_def demo_fired_def demo_asked_def demo_store_def
        blank_def)
  have a: "validate_action_revision (\<lambda>x. x) demo_action_json demo_review ''review1:'' = Inr ()"
    by (simp add: validate_action_revision_def action_revision_def demo_action_json_def demo_review_def)
  obtain y where x: "insert_kernel_event \<lparr>ke_id = 300, ke_payload = PermissionResolved (new_resolution 51 5 1 False
      ''Review preview changed''), ke_created_at = 6\<rparr> (gs_exec (rn_goals (at_runs demo_in_review))) = Inr y"
    by (simp add: demo_in_review_def demo_with_exec_def demo_asked_def demo_store_def blank_def insert_kernel_event_def
        apply_execution_projection_def is_projected_def project_resolution_def new_resolution_def row_of_Cons
        access_key_def demo_request_def)
  have d: "review_tool_approval_invalidation demo_in_review demo_review ''Review preview changed'' 51 5 =
      Some (new_resolution 51 5 1 False ''Review preview changed'')"
    using demo_review_tool by (simp add: review_tool_approval_invalidation_def)
  obtain r' where r: "edit_review demo_review ''new'' None 7 = Inr r'" "ri_id r' = 50" "ri_automation_run_id r' = 21"
    by (simp add: edit_review_def demo_review_def required_text_def text_eval)
  have m: "\<exists>m. automation_run_of demo_in_review 21 = Inr m \<and> am_review_queue_item_id m = Some 50"
    by (simp add: automation_run_of_def no_row_def ok_or_def row_of_Cons demo_in_review_def demo_auto_row_def
        demo_first_run_def demo_auto_run_def queued_automation_run_def)
  have w: "row_of vw_id (at_reviews demo_in_review) 50 = Some (new_review_row demo_review)"
    by (simp add: demo_in_review_def row_of_Cons new_review_row_def demo_review_def)
  have "\<exists>st'. persist_review_item_transition 300 6 r' (ri_revision demo_review)
      (Some (new_resolution 51 5 1 False ''Review preview changed'')) demo_in_review = Inr st'"
    using m e by (auto simp: persist_review_item_transition_def r insert_resolution_event_def x w new_review_row_def
        simp del: One_nat_def)
  then show thesis using that
    by (auto simp: edit_review_queue_item_def demo_review_read demo_auto_env_sel a d r(1))
qed

theorem review_action_spent_once_witness:
  "\<exists>item st1. review_acts demo_auto_env 50 ''review1:'' demo_in_review item st1 \<and>
     (\<forall>item' st'. \<not> review_acts demo_auto_env 50 ''review1:'' st1 item' st')"
proof -
  obtain item st1 where e:
    "edit_review_queue_item demo_auto_env 51 5 300 6 50 ''review1:'' ''new'' None 7 demo_in_review = Inr (item, st1)"
    by (rule demo_edit)
  have acts: "review_acts demo_auto_env 50 ''review1:'' demo_in_review item st1"
    using e unfolding review_acts_def by blast
  have rev: "ri_revision demo_review \<noteq> - 1" by (simp add: demo_review_def)
  have digest: "ri_revision q = ri_revision demo_review"
    if "action_revision (rv_sha (av_run demo_auto_env)) (av_review_json demo_auto_env) q =
      action_revision (rv_sha (av_run demo_auto_env)) (av_review_json demo_auto_env) demo_review" for q
    using that by (simp add: action_revision_def demo_auto_env_sel demo_action_json_def demo_review_def unat_eq_zero)
  have "\<not> review_acts demo_auto_env 50 ''review1:'' st1 item' st'" for item' st'
    by (rule review_action_spent_once [OF demo_auto_initial demo_in_review_reach [of demo_goal_json] acts demo_review_read rev
          rtranclp.rtrancl_refl digest])
  then show ?thesis using acts by blast
qed

theorem changed_review_loses_approval_witness:
  "\<exists>item st'. edit_review_queue_item demo_auto_env 51 5 300 6 50 ''review1:'' ''new'' None 7 demo_in_review = Inr (item, st') \<and>
     is_some_and (access_row_of (gs_exec (rn_goals (at_runs st'))) 1) (\<lambda>w. aw_status w = Rejected) \<and>
     ri_status item = PendingReview \<and> ri_tool_invocation_id item = None"
proof -
  obtain item st' where e:
    "edit_review_queue_item demo_auto_env 51 5 300 6 50 ''review1:'' ''new'' None 7 demo_in_review = Inr (item, st')"
    by (rule demo_edit)
  have "ri_status item = PendingReview" using e by (auto elim!: edit_cases dest!: edit_review_Inr)
  moreover have f: "Some 1 = Option.bind (find (\<lambda>x. ti_id x = 20)
      (list_tool_invocations (gs_exec (rn_goals (at_runs demo_in_review))))) ti_approval_request_id"
    by (simp add: demo_review_tool)
  note c = changed_review_loses_approval [OF demo_auto_initial demo_in_review_reach [of demo_goal_json] disjI1 [OF e] demo_review_read
        demo_review_tool(1) f, of EmailSend]
  have "\<exists>w. access_row_of (gs_exec (rn_goals (at_runs st'))) 1 = Some w \<and> aw_status w = Rejected"
    using c [THEN conjunct1] by blast
  ultimately show ?thesis using c e by (auto simp: is_some_and_def)
qed

text \<open>A review that is asked to be approved for its preview and completed.\<close>

definition demo_new_review :: review_item where
  "demo_new_review = demo_review\<lparr>ri_tool_invocation_id := None, ri_status := PendingReview\<rparr>"

definition demo_asked_review :: review_item where
  "demo_asked_review = demo_review\<lparr>ri_revision := 1, ri_updated_at := 6\<rparr>"

definition demo_done_review :: review_item where
  "demo_done_review = demo_review\<lparr>ri_evidence_ref := Some ''e'', ri_status := ReviewAccepted, ri_revision := 2, ri_updated_at := 7\<rparr>"

theorem approved_action_leaves_evidence_witness:
  "request_approval demo_new_review 20 ''p'' 6 = Inr demo_asked_review \<and>
   complete_approved_action demo_asked_review ''e'' 7 = Inr demo_done_review \<and>
   (\<exists>y evidence at. complete_approved_action y evidence at = Inr demo_done_review \<and> trim evidence \<noteq> []) \<and>
   (\<forall>z. \<not> review_next demo_done_review z)"
proof -
  have a: "request_approval demo_new_review 20 ''p'' 6 = Inr demo_asked_review"
    by (simp add: request_approval_def demo_new_review_def demo_asked_review_def demo_review_def required_text_def text_eval
        sat_inc_def)
  have c: "complete_approved_action demo_asked_review ''e'' 7 = Inr demo_done_review"
    by (simp add: complete_approved_action_def demo_done_review_def demo_asked_review_def demo_review_def required_text_def
        text_eval sat_inc_def)
  have new: "review_new demo_new_review" by (simp add: review_new_def demo_new_review_def)
  have run: "review_next\<^sup>*\<^sup>* demo_new_review demo_done_review"
    using review_request [OF a] review_complete [OF c] by (meson rtranclp.intros)
  have st: "ri_status demo_done_review = ReviewAccepted" "ri_tool_invocation_id demo_done_review = Some 20"
    by (simp_all add: demo_done_review_def demo_review_def)
  show ?thesis using approved_action_leaves_evidence [OF new run, of 20] st a c by auto
qed

end
