(* ===== verification/Spec2Isabelle.thy ===== *)
theory Spec2Isabelle
  imports Prelude Policy Computer_Use Computer_Use_Safety Event_Log Access_Store Expert_Team Goal_Envelope Goal_Lifecycle Goal_Safety Goal_Store Goal_Store_Safety Goal_Continuation Goal_Continuation_Safety Agent_Run Run_Store Run_Step Run_Store_Safety Run_Teams Automation Automation_Safety
begin

text \<open>
  Verification library of the kernel of DS Agent, the desktop agent under
  \<open>src/apps/desktop/src-tauri\<close>.

  The program. A user's request becomes a run of an agent (\<open>agent_run.rs\<close>). The model proposes a goal
  envelope (\<open>goal_envelope.rs\<close>), the kernel validates and freezes it (\<open>goal_lifecycle.rs\<close>), and the
  run works in a loop under budgets (\<open>goal_continuation.rs\<close>) until recorded evidence completes the
  frozen goal. Every capability the run uses is decided by a policy (\<open>policy.rs\<close>) and, where the policy
  asks, needs an approval that the event store (\<open>event_store.rs\<close>) records, checks and spends. Actions on
  the desktop go through verified steps (\<open>computer_use_session.rs\<close>). A run may delegate to subagents and
  to teams of experts (\<open>expert_team.rs\<close>). Automations start runs on a schedule and queue their results
  for review (\<open>automation.rs\<close>). All of it is kept in one event log with projection tables in SQLite.

  The theories.
  \<^item> Prelude: identifiers, instants, results, texts as Rust trims and compares them, saturating
    counters, the index that keeps the latest record of a key, and the locales of transition systems
    (\<open>transition_system\<close>, \<open>final_system\<close>, \<open>counted_system\<close>) that the components interpret.
  \<^item> Policy (\<open>policy.rs\<close>): risks, decisions, the catalog, requests, exact previews, resolutions.
  \<^item> Computer_Use and Computer_Use_Safety (\<open>computer_use_session.rs\<close>): sessions, observations, bindings
    and the life of a step as a step relation; no replay, full evidence, freshness, restart.
    An operation that fails leaves the step as it was, except \<open>require_replan\<close>, which has cleared the
    approval when its reason is refused: the one way to a step that fails validation.
  \<^item> Event_Log and Access_Store (\<open>event_store.rs\<close>): rows and tables, the log and its projections,
    requests, resolutions, grants, tool and capability invocations; the projection is the log's, grants
    are spent once, requests are resolved once.
  \<^item> Goal_Envelope, Goal_Lifecycle and Goal_Safety (\<open>goal_envelope.rs\<close>, \<open>goal_lifecycle.rs\<close>): validation,
    freezing, evidence and completion of a goal, against a specification of complete evidence.
  \<^item> Goal_Store and Goal_Store_Safety (\<open>event_store.rs\<close>): the goal tables over the access tables; a
    complete run has a recorded tool invocation for every verifier.
  \<^item> Goal_Continuation and Goal_Continuation_Safety (\<open>goal_continuation.rs\<close>): checkpoints, accounting and
    the step of the loop; every use counts once, a blocked loop stays blocked, no loop goes on for ever.
  \<^item> Expert_Team (\<open>expert_team.rs\<close>): plans, their limits, the dependency search, claims and evidence.
  \<^item> Agent_Run and Run_Store (\<open>agent_run.rs\<close>, \<open>event_store.rs\<close>, \<open>event_store/goal_continuation.rs\<close>): the
    events of runs, the list of records, plans and teams, leases and their recovery, claims on
    resources, results and merges, and the table of checkpoints. Run_Step says what each operation may
    write and gives the step relation of a store; Run_Store_Safety and Run_Teams hold what every
    reachable store satisfies: completed runs are verified, recovery replays no run with a tool it
    sees running,
    writers exclude each other, delegation is bounded, merges are reviewed.
  \<^item> Automation and Automation_Safety (\<open>automation.rs\<close>, \<open>event_store.rs\<close>): definitions, schedules, runs of
    automations and the review queue, over the run tables. The next time of a schedule is the earliest
    one, a window fires once, a manual run uses up a one-off automation, reconciliation follows the
    agent runs or fails, an action on a review is spent once, a changed review loses the approval
    that the newest 500 tool invocations show for it, and
    an approved action leaves evidence.

  Conventions. A transaction is a function from the old state to an error or the new state; an
  operation of several transactions returns its result and the state it leaves. Errors carry the
  texts of the source. Integers have their width where the source wraps, saturates or checks, and are
  \<open>nat\<close> or \<open>int\<close> where a length or a row number is meant. Tables are lists of rows in the order of
  their row numbers; \<open>ORDER BY\<close> sorts stably. Instants are nanoseconds since 1970.

  Parameters. What is outside the repository is an argument: SHA-256 as a function from texts to hex
  digests, the JSON texts of \<open>serde\<close>, RFC 3339 texts, the order in which a hash map yields its keys, the
  calendar, and the clock and the identifiers, which are arguments or, in Run_Store, a stream of the
  environment. Reading a column gives back the value that was written to it. Where a property needs a
  law of a parameter (no collision of the digest on given texts, a clock that does not go back,
  a calendar that orders dates) the law is a hypothesis and a witness shows it can hold.

  Bounds. \<open>search_bound\<close>, the fuel of the dependency search, exceeds the number of keys and
  dependencies of a plan, so the search always ends within it (\<open>visit_all_total\<close>). The search for the
  next time of a schedule looks at 401 dates and the catch-up over missed windows takes at most 5000
  steps; both bounds are the source's. The lists of the log show the newest 500 or 1000 events of a
  type, as in the source; the properties that need the whole log say so in a hypothesis.

  Not modelled. Executors of capabilities, connectors, the model client, sandboxes, updates and the
  desktop shell are input and output around the kernel; skills and contexts build prompt texts. Task
  capability manifests, grouped approvals, workspace undo and workflows are not modelled yet; the event
  store's guards that refer to them are (\<open>xs_grouped\<close>).
\<close>

end
